(* ===== verification/Prelude.thy ===== *)
theory Prelude
  imports Main
begin

text \<open>
  Shared vocabulary of the development: the result type of a fallible, stateful operation
  (Rust's \<open>Result\<close> threaded through a mutable store, with \<open>?\<close> as \<open>bindE\<close>), the integer casts
  the source writes with \<open>as\<close>, the string functions of the Rust standard library that several
  components call, and generic lemmas on lists used as tables (a table is a list of rows in
  insertion order, queried with \<open>find\<close> and \<open>filter\<close>).

  A Rust \<open>u8\<close> is a \<open>char\<close> of HOL (both have exactly 256 values), so a byte buffer is a
  \<open>char list\<close>; a Rust \<open>str\<close> is its UTF-8 byte sequence, again a \<open>char list\<close>, so that \<open>len\<close> is
  \<open>length\<close> and \<open>into_bytes\<close> is the identity.  A Unicode scalar value is a \<open>nat\<close>.
\<close>

named_theorems op_simps \<open>evaluation of the result monad\<close>
named_theorems table_simps \<open>lookups in updated tables\<close>

type_synonym bytes = "char list"
type_synonym str = "char list"
type_synonym uuid = nat
type_synonym timestamp = nat

section \<open>Fallible operations on a store\<close>

type_synonym ('s, 'e, 'a) op = "'s \<Rightarrow> ('e + 'a) \<times> 's"

definition ret :: "'a \<Rightarrow> ('s, 'e, 'a) op" where
  "ret a = (\<lambda>s. (Inr a, s))"

definition raise :: "'e \<Rightarrow> ('s, 'e, 'a) op" where
  "raise e = (\<lambda>s. (Inl e, s))"

definition bindE :: "('s, 'e, 'a) op \<Rightarrow> ('a \<Rightarrow> ('s, 'e, 'b) op) \<Rightarrow> ('s, 'e, 'b) op" where
  "bindE m f = (\<lambda>s. case m s of (Inl e, s') \<Rightarrow> (Inl e, s') | (Inr a, s') \<Rightarrow> f a s')"

definition gets :: "('s \<Rightarrow> 'a) \<Rightarrow> ('s, 'e, 'a) op" where
  "gets f = (\<lambda>s. (Inr (f s), s))"

definition modify :: "('s \<Rightarrow> 's) \<Rightarrow> ('s, 'e, unit) op" where
  "modify f = (\<lambda>s. (Inr (), f s))"

text \<open>\<open>map_err\<close> of \<open>Result\<close>, and \<open>ok\<close>, which turns an error into \<open>None\<close>.\<close>

definition map_err :: "('e \<Rightarrow> 'f) \<Rightarrow> ('s, 'e, 'a) op \<Rightarrow> ('s, 'f, 'a) op" where
  "map_err g m = (\<lambda>s. case m s of (Inl e, s') \<Rightarrow> (Inl (g e), s') | (Inr a, s') \<Rightarrow> (Inr a, s'))"

definition okE :: "('s, 'e, 'a) op \<Rightarrow> ('s, 'f, 'a option) op" where
  "okE m = (\<lambda>s. case m s of (Inl e, s') \<Rightarrow> (Inr None, s') | (Inr a, s') \<Rightarrow> (Inr (Some a), s'))"

text \<open>A result as a value, so that the caller can match on the error.\<close>

definition attempt :: "('s, 'e, 'a) op \<Rightarrow> ('s, 'f, 'e + 'a) op" where
  "attempt m = (\<lambda>s. case m s of (r, s') \<Rightarrow> (Inr r, s'))"

definition lift_res :: "('e + 'a) \<Rightarrow> ('s, 'e, 'a) op" where
  "lift_res r = (\<lambda>s. (r, s))"

text \<open>\<open>ok_or\<close> and \<open>ok_or_else\<close> of \<open>Option\<close>.\<close>

definition ok_or :: "'e \<Rightarrow> 'a option \<Rightarrow> ('s, 'e, 'a) op" where
  "ok_or e x = (case x of None \<Rightarrow> raise e | Some a \<Rightarrow> ret a)"

text \<open>A \<open>for\<close> loop whose body may return early with an error.\<close>

fun forE :: "'x list \<Rightarrow> ('x \<Rightarrow> ('s, 'e, unit) op) \<Rightarrow> ('s, 'e, unit) op" where
  "forE [] f = ret ()"
| "forE (x # xs) f = bindE (f x) (\<lambda>_. forE xs f)"

text \<open>A \<open>for\<close> loop that pushes one result per element.\<close>

fun mapE :: "('x \<Rightarrow> ('s, 'e, 'y) op) \<Rightarrow> 'x list \<Rightarrow> ('s, 'e, 'y list) op" where
  "mapE f [] = ret []"
| "mapE f (x # xs) = bindE (f x) (\<lambda>y. bindE (mapE f xs) (\<lambda>ys. ret (y # ys)))"

text \<open>The extra variable keeps the simplifier from unfolding an operation that is not applied.\<close>

lemma ret_apply [simp, op_simps]: "s = s' \<Longrightarrow> ret a s = (Inr a, s')"
  by (simp add: ret_def)

lemma raise_apply [simp, op_simps]: "s = s' \<Longrightarrow> raise e s = (Inl e, s')"
  by (simp add: raise_def)

lemma gets_apply [simp, op_simps]: "gets f s = (Inr (f s), s)"
  by (simp add: gets_def)

lemma modify_apply [simp, op_simps]: "modify f s = (Inr (), f s)"
  by (simp add: modify_def)

lemma lift_res_apply [simp, op_simps]: "lift_res r s = (r, s)"
  by (simp add: lift_res_def)

lemma ok_or_simps [simp, op_simps]: "ok_or e None = raise e" "ok_or e (Some a) = ret a"
  by (simp_all add: ok_or_def)

lemma bindE_Inr [op_simps]: "m s = (Inr a, s') \<Longrightarrow> bindE m f s = f a s'"
  by (simp add: bindE_def)

lemma bindE_Inl [op_simps]: "m s = (Inl e, s') \<Longrightarrow> bindE m f s = (Inl e, s')"
  by (simp add: bindE_def)

lemma bindE_simps [simp]:
  "bindE (ret a) f = f a"
  "bindE (raise e) f = raise e"
  "bindE (gets g) f s = f (g s) s"
  "bindE (modify h) k s = k () (h s)"
  by (auto simp: bindE_def ret_def raise_def gets_def modify_def)

lemma bindE_ok_or [simp]:
  "bindE (ok_or e x) f = (case x of None \<Rightarrow> raise e | Some a \<Rightarrow> f a)"
  by (cases x) auto

lemma map_sum_eq_Inr: "map_sum f g x = Inr b \<longleftrightarrow> (\<exists>a. x = Inr a \<and> b = g a)"
  by (cases x) auto

lemma bindE_eq_Inr:
  "bindE m f s = (Inr b, s'') \<longleftrightarrow> (\<exists>a s'. m s = (Inr a, s') \<and> f a s' = (Inr b, s''))"
  by (auto simp: bindE_def split: prod.splits sum.splits)

lemma bindE_eq_Inl:
  "bindE m f s = (Inl e, s'') \<longleftrightarrow>
     m s = (Inl e, s'') \<or> (\<exists>a s'. m s = (Inr a, s') \<and> f a s' = (Inl e, s''))"
  by (auto simp: bindE_def split: prod.splits sum.splits)

lemma bindE_assoc: "bindE (bindE m f) g = bindE m (\<lambda>a. bindE (f a) g)"
  by (auto simp: bindE_def fun_eq_iff split: prod.splits sum.splits)

lemma map_err_Inr [op_simps]: "m s = (Inr a, s') \<Longrightarrow> map_err g m s = (Inr a, s')"
  by (simp add: map_err_def)

lemma map_err_Inl [op_simps]: "m s = (Inl e, s') \<Longrightarrow> map_err g m s = (Inl (g e), s')"
  by (simp add: map_err_def)

lemma map_err_eq_Inr: "map_err g m s = (Inr a, s') \<longleftrightarrow> m s = (Inr a, s')"
  by (auto simp: map_err_def split: prod.splits sum.splits)

lemma map_err_simps [simp]:
  "map_err g (ret a) = ret a" "map_err g (raise e) = raise (g e)"
  "map_err g (gets f) = gets f"
  by (auto simp: map_err_def fun_eq_iff)

lemma okE_Inr [op_simps]: "m s = (Inr a, s') \<Longrightarrow> okE m s = (Inr (Some a), s')"
  by (simp add: okE_def)

lemma okE_Inl [op_simps]: "m s = (Inl e, s') \<Longrightarrow> okE m s = (Inr None, s')"
  by (simp add: okE_def)

lemma attempt_eq [op_simps]: "m s = (r, s') \<Longrightarrow> attempt m s = (Inr r, s')"
  by (simp add: attempt_def)

text \<open>
  An operation preserves a predicate of the store when it holds afterwards whatever the
  operation returned: every statement is committed on its own, so an early return keeps
  the effects of the statements before it.
\<close>

definition preserves :: "('s \<Rightarrow> bool) \<Rightarrow> ('s, 'e, 'a) op \<Rightarrow> bool" where
  "preserves P m \<longleftrightarrow> (\<forall>s. P s \<longrightarrow> P (snd (m s)))"

named_theorems preserves_rules \<open>compositional rules for preserved predicates\<close>

lemma preservesI: "(\<And>s. P s \<Longrightarrow> P (snd (m s))) \<Longrightarrow> preserves P m"
  by (simp add: preserves_def)

lemma preserves_eqI: "(\<And>s. f (snd (m s)) = f s) \<Longrightarrow> preserves (\<lambda>s. f s = v) m"
  by (simp add: preserves_def)

lemma preservesD: "preserves P m \<Longrightarrow> P s \<Longrightarrow> P (snd (m s))"
  by (simp add: preserves_def)

lemma preserves_ret [preserves_rules]: "preserves P (ret a)"
  by (simp add: preserves_def)

lemma preserves_raise [preserves_rules]: "preserves P (raise e)"
  by (simp add: preserves_def)

lemma preserves_gets [preserves_rules]: "preserves P (gets f)"
  by (simp add: preserves_def)

lemma preserves_lift_res [preserves_rules]: "preserves P (lift_res r)"
  by (simp add: preserves_def)

lemma preserves_ok_or [preserves_rules]: "preserves P (ok_or e x)"
  by (cases x) (simp_all add: preserves_def)

lemma preserves_bindE [preserves_rules]:
  assumes "preserves P m" and "\<And>a. preserves P (f a)"
  shows "preserves P (bindE m f)"
proof (rule preservesI)
  fix s assume "P s"
  with assms(1) have "P (snd (m s))" by (rule preservesD)
  then show "P (snd (bindE m f s))"
    using assms(2) by (auto simp: bindE_def preserves_def split: prod.splits sum.splits)
qed

lemma preserves_map_err [preserves_rules]: "preserves P m \<Longrightarrow> preserves P (map_err g m)"
  by (auto simp: preserves_def map_err_def split: prod.splits sum.splits)

lemma preserves_okE [preserves_rules]: "preserves P m \<Longrightarrow> preserves P (okE m)"
  by (auto simp: preserves_def okE_def split: prod.splits sum.splits)

lemma preserves_attempt [preserves_rules]: "preserves P m \<Longrightarrow> preserves P (attempt m)"
  by (auto simp: preserves_def attempt_def split: prod.splits)

lemma preserves_forE [preserves_rules]: "(\<And>x. preserves P (f x)) \<Longrightarrow> preserves P (forE xs f)"
  by (induction xs) (auto intro: preserves_ret preserves_bindE)

lemma preserves_mapE [preserves_rules]: "(\<And>x. preserves P (f x)) \<Longrightarrow> preserves P (mapE f xs)"
  by (induction xs) (auto intro!: preserves_ret preserves_bindE)

lemma preserves_If [preserves_rules]:
  "preserves P m \<Longrightarrow> preserves P n \<Longrightarrow> preserves P (if b then m else n)"
  by simp

lemma preserves_option [preserves_rules]:
  "preserves P m \<Longrightarrow> (\<And>a. preserves P (f a)) \<Longrightarrow>
   preserves P (case x of None \<Rightarrow> m | Some a \<Rightarrow> f a)"
  by (cases x) auto

lemma preserves_sum [preserves_rules]:
  "(\<And>e. preserves P (g e)) \<Longrightarrow> (\<And>a. preserves P (f a)) \<Longrightarrow>
   preserves P (case x of Inl e \<Rightarrow> g e | Inr a \<Rightarrow> f a)"
  by (cases x) auto

text \<open>
  A triple: from a store with \<open>P\<close> the operation ends in \<open>Q\<close> with its value, or in \<open>E\<close> when
  it returns an error.
\<close>

definition triple ::
  "('s \<Rightarrow> bool) \<Rightarrow> ('s, 'e, 'a) op \<Rightarrow> ('a \<Rightarrow> 's \<Rightarrow> bool) \<Rightarrow> ('s \<Rightarrow> bool) \<Rightarrow> bool" where
  "triple P m Q E \<longleftrightarrow> (\<forall>s. P s \<longrightarrow> (case m s of (Inl e, s') \<Rightarrow> E s' | (Inr a, s') \<Rightarrow> Q a s'))"

named_theorems triple_rules \<open>compositional rules for triples\<close>

lemma tripleI:
  "(\<And>s e s'. P s \<Longrightarrow> m s = (Inl e, s') \<Longrightarrow> E s') \<Longrightarrow>
   (\<And>s a s'. P s \<Longrightarrow> m s = (Inr a, s') \<Longrightarrow> Q a s') \<Longrightarrow> triple P m Q E"
  by (auto simp: triple_def split: prod.split sum.split)

lemma tripleD: "triple P m Q E \<Longrightarrow> P s \<Longrightarrow> m s = (Inr a, s') \<Longrightarrow> Q a s'"
  by (fastforce simp: triple_def)

lemma tripleE: "triple P m Q E \<Longrightarrow> P s \<Longrightarrow> m s = (Inl e, s') \<Longrightarrow> E s'"
  by (fastforce simp: triple_def)

lemma preserves_triple: "preserves P m \<longleftrightarrow> triple P m (\<lambda>_. P) P"
  unfolding preserves_def triple_def
  by (intro all_cong1 imp_cong refl) (simp split: prod.split sum.split)

lemma triple_snd: "triple P m (\<lambda>_. Q) Q \<Longrightarrow> P s \<Longrightarrow> Q (snd (m s))"
  by (cases "m s"; cases "fst (m s)") (fastforce simp: triple_def)+

lemma triple_bindE [triple_rules]:
  assumes "triple P m R E" and "\<And>a. triple (R a) (f a) Q E"
  shows "triple P (bindE m f) Q E"
proof (rule tripleI)
  fix s e s' assume P: "P s" and "bindE m f s = (Inl e, s')"
  then consider "m s = (Inl e, s')" | a s1 where "m s = (Inr a, s1)" "f a s1 = (Inl e, s')"
    by (auto simp: bindE_eq_Inl)
  then show "E s'"
  proof cases
    case 1
    with P show ?thesis by (rule tripleE [OF assms(1)])
  next
    case 2
    from P this(1) have "R a s1" by (rule tripleD [OF assms(1)])
    from this 2(2) show ?thesis by (rule tripleE [OF assms(2)])
  qed
next
  fix s b s' assume P: "P s" and "bindE m f s = (Inr b, s')"
  then obtain a s1 where 2: "m s = (Inr a, s1)" "f a s1 = (Inr b, s')"
    by (auto simp: bindE_eq_Inr)
  from P this(1) have "R a s1" by (rule tripleD [OF assms(1)])
  from this 2(2) show "Q b s'" by (rule tripleD [OF assms(2)])
qed

lemma triple_ret: "(\<And>s. P s \<Longrightarrow> Q a s) \<Longrightarrow> triple P (ret a) Q E"
  by (rule tripleI) auto

lemma triple_raise: "(\<And>s. P s \<Longrightarrow> E s) \<Longrightarrow> triple P (raise e) Q E"
  by (rule tripleI) auto

lemma triple_gets: "triple P (gets f) (\<lambda>a s. P s \<and> a = f s) E"
  by (rule tripleI) auto

lemma triple_map_err [triple_rules]: "triple P m Q E \<Longrightarrow> triple P (map_err g m) Q E"
  by (fastforce simp: triple_def map_err_def split: prod.splits sum.splits)

lemma triple_weaken:
  "triple P' m Q' E' \<Longrightarrow> (\<And>s. P s \<Longrightarrow> P' s) \<Longrightarrow> (\<And>a s. Q' a s \<Longrightarrow> Q a s) \<Longrightarrow>
   (\<And>s. E' s \<Longrightarrow> E s) \<Longrightarrow> triple P m Q E"
  by (fastforce simp: triple_def split: prod.splits sum.splits)

lemma triple_If:
  "(b \<Longrightarrow> triple P m Q E) \<Longrightarrow> (\<not> b \<Longrightarrow> triple P n Q E) \<Longrightarrow> triple P (if b then m else n) Q E"
  by simp

lemma triple_false: "triple (\<lambda>_. False) m Q E"
  by (simp add: triple_def)

section \<open>Integer casts\<close>

text \<open>\<open>as i32\<close> and \<open>as u32\<close> on a \<open>usize\<close>: truncation to 32 bits, then two's complement.\<close>

definition as_i32 :: "nat \<Rightarrow> int" where
  "as_i32 n = (let k = int n mod 2 ^ 32 in if k < 2 ^ 31 then k else k - 2 ^ 32)"

definition as_i64 :: "nat \<Rightarrow> int" where
  "as_i64 n = (let k = int n mod 2 ^ 64 in if k < 2 ^ 63 then k else k - 2 ^ 64)"

lemma as_i32_id [simp]: "n < 2 ^ 31 \<Longrightarrow> as_i32 n = int n"
  by (simp add: as_i32_def)

lemma as_i64_id [simp]: "n < 2 ^ 63 \<Longrightarrow> as_i64 n = int n"
  by (simp add: as_i64_def)

section \<open>String functions of the Rust standard library\<close>

definition starts_with :: "str \<Rightarrow> str \<Rightarrow> bool" where
  "starts_with p s \<longleftrightarrow> take (length p) s = p"

definition strip_prefix :: "str \<Rightarrow> str \<Rightarrow> str option" where
  "strip_prefix p s = (if starts_with p s then Some (drop (length p) s) else None)"

text \<open>\<open>split(c)\<close>: one piece more than there are separators, the pieces between them.\<close>

fun split_on :: "'a \<Rightarrow> 'a list \<Rightarrow> 'a list list" where
  "split_on c [] = [[]]"
| "split_on c (x # xs) =
     (if x = c then [] # split_on c xs
      else case split_on c xs of [] \<Rightarrow> [[x]] | p # ps \<Rightarrow> (x # p) # ps)"

text \<open>\<open>join(sep)\<close> on a slice of strings.\<close>

fun join :: "'a list \<Rightarrow> 'a list list \<Rightarrow> 'a list" where
  "join sep [] = []"
| "join sep [p] = p"
| "join sep (p # q # ps) = p @ sep @ join sep (q # ps)"

lemma split_on_not_Nil [simp]: "split_on c s \<noteq> []"
  by (induction s) (auto split: list.splits)

lemma join_Cons: "ps \<noteq> [] \<Longrightarrow> join sep (p # ps) = p @ sep @ join sep ps"
  by (cases ps) auto

lemma split_on_no_sep: "p \<in> set (split_on c s) \<Longrightarrow> c \<notin> set p"
proof (induction s arbitrary: p)
  case Nil
  then show ?case by simp
next
  case (Cons x xs)
  then show ?case
    by (cases "split_on c xs") (auto split: if_splits)
qed

lemma join_split_on [simp]: "join [c] (split_on c s) = s"
proof (induction s)
  case Nil
  then show ?case by simp
next
  case (Cons x xs)
  then show ?case
    by (cases "split_on c xs"; cases "tl (split_on c xs)")
       (auto simp: join_Cons)
qed

lemma split_on_append_no_sep:
  "c \<notin> set p \<Longrightarrow> split_on c (p @ s) = (p @ hd (split_on c s)) # tl (split_on c s)"
  by (induction p) (auto simp: split: list.splits)

lemma split_on_no_sep_id: "c \<notin> set p \<Longrightarrow> split_on c p = [p]"
  using split_on_append_no_sep [of c p "[]"] by simp

lemma split_on_join:
  "ps \<noteq> [] \<Longrightarrow> \<forall>p \<in> set ps. c \<notin> set p \<Longrightarrow> split_on c (join [c] ps) = ps"
proof (induction ps)
  case Nil
  then show ?case by simp
next
  case (Cons p ps)
  show ?case
  proof (cases "ps = []")
    case True
    with Cons.prems show ?thesis by (simp add: split_on_no_sep_id)
  next
    case False
    with Cons show ?thesis by (simp add: join_Cons split_on_append_no_sep)
  qed
qed

lemma join_eq_Nil: "sep \<noteq> [] \<Longrightarrow> join sep ps = [] \<longleftrightarrow> ps = [] \<or> ps = [[]]"
  by (induction sep ps rule: join.induct) auto

lemma starts_with_append [simp]: "starts_with p (p @ s)"
  by (simp add: starts_with_def)

lemma starts_with_iff: "starts_with p s \<longleftrightarrow> (\<exists>r. s = p @ r)"
  by (metis append_take_drop_id starts_with_def append_eq_conv_conj)

section \<open>Rows of a table\<close>

text \<open>
  \<open>fetch_optional\<close> returns the first row of the selection, \<open>UPDATE\<close> maps a function over the
  rows it selects, \<open>DELETE\<close> filters them out.  A key is a function on rows, and a table is
  keyed when its keys are distinct (a \<open>PRIMARY KEY\<close> or \<open>UNIQUE\<close> constraint).
\<close>

definition update_rows :: "('r \<Rightarrow> bool) \<Rightarrow> ('r \<Rightarrow> 'r) \<Rightarrow> 'r list \<Rightarrow> 'r list" where
  "update_rows P f t = map (\<lambda>r. if P r then f r else r) t"

definition delete_rows :: "('r \<Rightarrow> bool) \<Rightarrow> 'r list \<Rightarrow> 'r list" where
  "delete_rows P t = filter (\<lambda>r. \<not> P r) t"

definition exists_row :: "('r \<Rightarrow> bool) \<Rightarrow> 'r list \<Rightarrow> bool" where
  "exists_row P t = list_ex P t"

lemma exists_row_iff [simp]: "exists_row P t \<longleftrightarrow> (\<exists>r \<in> set t. P r)"
  by (simp add: exists_row_def list_ex_iff)

lemma find_append [table_simps]:
  "find P (xs @ ys) = (case find P xs of None \<Rightarrow> find P ys | Some r \<Rightarrow> Some r)"
  by (induction xs) auto

lemma find_SomeD: "find P xs = Some r \<Longrightarrow> r \<in> set xs \<and> P r"
  by (induction xs) (auto split: if_splits)

lemma find_None_conv [simp]: "find P xs = None \<longleftrightarrow> (\<forall>r \<in> set xs. \<not> P r)"
  by (induction xs) auto

lemma find_cong_set: "(\<And>r. r \<in> set xs \<Longrightarrow> P r = Q r) \<Longrightarrow> find P xs = find Q xs"
  by (induction xs) auto

lemma find_keyed:
  assumes "distinct (map key t)" and "r \<in> set t" and "P r"
    and inj: "\<And>r'. P r' \<Longrightarrow> key r' = key r"
  shows "find P t = Some r"
  using assms(1,2)
proof (induction t)
  case Nil
  then show ?case by simp
next
  case (Cons x xs)
  show ?case
  proof (cases "P x")
    case True
    then have "key x = key r" by (rule inj)
    with Cons.prems have "x = r" by (auto simp: image_iff)
    with True show ?thesis by simp
  next
    case False
    with \<open>P r\<close> Cons.prems have "r \<in> set xs" by auto
    with Cons.prems(1) have "find P xs = Some r" by (intro Cons.IH) auto
    with False show ?thesis by simp
  qed
qed

lemma find_key_iff:
  "distinct (map key t) \<Longrightarrow> find (\<lambda>r. key r = k) t = Some r \<longleftrightarrow> r \<in> set t \<and> key r = k"
  by (auto dest: find_SomeD intro: find_keyed)

lemma find_map_same_pred:
  "(\<And>r. P (g r) = P r) \<Longrightarrow> find P (map g t) = map_option g (find P t)"
  by (induction t) auto

lemma find_filter_and: "find P (filter Q t) = find (\<lambda>r. Q r \<and> P r) t"
  by (induction t) auto

lemma set_update_rows: "set (update_rows P f t) = (\<lambda>r. if P r then f r else r) ` set t"
  by (simp add: update_rows_def)

lemma length_update_rows [simp]: "length (update_rows P f t) = length t"
  by (simp add: update_rows_def)

lemma find_update_rows:
  "(\<And>r. P r \<Longrightarrow> P (f r)) \<Longrightarrow> find P (update_rows P f t) = map_option f (find P t)"
  by (induction t) (auto simp: update_rows_def)

lemma update_rows_append [simp]:
  "update_rows P f (t @ u) = update_rows P f t @ update_rows P f u"
  by (simp add: update_rows_def)

lemma update_rows_idle: "(\<And>r. r \<in> set t \<Longrightarrow> \<not> P r) \<Longrightarrow> update_rows P f t = t"
  by (simp add: update_rows_def map_idI)

lemma set_delete_rows [simp]: "set (delete_rows P t) = {r \<in> set t. \<not> P r}"
  by (auto simp: delete_rows_def)

lemma delete_rows_append [simp]:
  "delete_rows P (t @ u) = delete_rows P t @ delete_rows P u"
  by (simp add: delete_rows_def)

lemma delete_rows_idle: "(\<And>r. r \<in> set t \<Longrightarrow> \<not> P r) \<Longrightarrow> delete_rows P t = t"
  by (simp add: delete_rows_def filter_id_conv)

lemma map_update_rows_same:
  "(\<And>r. P r \<Longrightarrow> g (f r) = g r) \<Longrightarrow> map g (update_rows P f t) = map g t"
  by (simp add: update_rows_def)

lemma distinct_map_delete_rows: "distinct (map g t) \<Longrightarrow> distinct (map g (delete_rows P t))"
  unfolding delete_rows_def by (rule distinct_map_filter)

lemma distinct_map_update_one:
  assumes "distinct (map g t)"
    and "\<And>r r'. r \<in> set t \<Longrightarrow> r' \<in> set t \<Longrightarrow> P r \<Longrightarrow> P r' \<Longrightarrow> r = r'"
    and "\<And>r r'. r \<in> set t \<Longrightarrow> r' \<in> set t \<Longrightarrow> P r \<Longrightarrow> \<not> P r' \<Longrightarrow> g r' \<noteq> g (f r)"
  shows "distinct (map g (update_rows P f t))"
  using assms
proof (induction t)
  case (Cons x xs)
  have IH: "distinct (map g (update_rows P f xs))"
    using Cons.prems(1) by (intro Cons.IH Cons.prems(2,3)) auto
  show ?case
  proof (cases "P x")
    case True
    have "\<not> P r" if "r \<in> set xs" for r
      using Cons.prems(1) Cons.prems(2) [of x r] True that by auto
    then have "update_rows P f xs = xs" by (rule update_rows_idle)
    moreover have "g (f x) \<notin> g ` set xs"
      using Cons.prems(3) [of x] True \<open>\<And>r. r \<in> set xs \<Longrightarrow> \<not> P r\<close> by (force simp: image_iff)
    ultimately show ?thesis using True Cons.prems(1) by (simp add: update_rows_def)
  next
    case False
    have "g x \<notin> g ` set (update_rows P f xs)"
      using Cons.prems(1) Cons.prems(3) [of _ x] False by (fastforce simp: set_update_rows)
    moreover have "map g (update_rows P f (x # xs)) = g x # map g (update_rows P f xs)"
      using False by (simp add: update_rows_def)
    ultimately show ?thesis using IH by (simp only: distinct.simps set_map simp_thms)
  qed
qed (simp add: update_rows_def)

lemma filter_update_rows:
  "(\<And>r. P r \<Longrightarrow> Q (f r) = Q r) \<Longrightarrow>
   filter Q (update_rows P f t) = update_rows P f (filter Q t)"
  by (induction t) (auto simp: update_rows_def)

lemma filter_delete_rows: "filter Q (delete_rows P t) = delete_rows P (filter Q t)"
  by (simp add: delete_rows_def conj_commute)

lemma find_delete_rows: "find Q (delete_rows P t) = find (\<lambda>r. \<not> P r \<and> Q r) t"
  by (simp add: delete_rows_def find_filter_and)

text \<open>
  The interface of a keyed table, as the repositories use it: a row inserted under a new key
  is the one a lookup of that key finds, other keys are untouched, and deleting a key
  removes exactly its row.
\<close>

locale keyed_table =
  fixes key :: "'r \<Rightarrow> 'k"
    and tbl :: "'s \<Rightarrow> 'r list"
    and invar :: "'s \<Rightarrow> bool"
  assumes keys_distinct: "invar s \<Longrightarrow> distinct (map key (tbl s))"
begin

lemma lookup_iff: "invar s \<Longrightarrow> find (\<lambda>r. key r = k) (tbl s) = Some r \<longleftrightarrow> r \<in> set (tbl s) \<and> key r = k"
  by (simp add: find_key_iff keys_distinct)

lemma lookup_unique:
  "invar s \<Longrightarrow> r \<in> set (tbl s) \<Longrightarrow> r' \<in> set (tbl s) \<Longrightarrow> key r = key r' \<Longrightarrow> r = r'"
  using keys_distinct by (metis distinct_map inj_onD)

lemma lookup_by:
  "invar s \<Longrightarrow> r \<in> set (tbl s) \<Longrightarrow> P r \<Longrightarrow> (\<And>r'. P r' \<Longrightarrow> key r' = key r) \<Longrightarrow>
   find P (tbl s) = Some r"
  by (rule find_keyed [OF keys_distinct])

lemma lookup_inserted:
  "invar s' \<Longrightarrow> tbl s' = tbl s @ [r] \<Longrightarrow> find (\<lambda>x. key x = key r) (tbl s') = Some r"
  using lookup_iff [of s' "key r" r] by simp

end

end
