(* ===== verification/Models.thy ===== *)
theory Models
  imports Prelude
begin

text \<open>
  The data model: the rows of the database tables and the inputs of the repositories
  (\<open>src/src/storage/models.rs\<close>, \<open>src/src/storage/models/mount_entry.rs\<close>,
  \<open>src/src/storage/models/published_mount.rs\<close>), and the errors of the storage layer, of the
  layer manager (\<open>src/src/layer/manager.rs\<close>) and of the file system (\<open>src/src/fs/error.rs\<close>).
  Identifiers are UUIDs (only compared, \<open>nat\<close> here) or 64-bit inode numbers (\<open>int\<close>), times
  are ticks of the database clock.
\<close>

text \<open>A JSON document, as stored in a JSONB column.\<close>

datatype json = JNull | JBool bool | JNum int | JStr str | JArr "json list" | JObj "(str \<times> json) list"

section \<open>Tenants, inodes and data blocks\<close>

record tenant =
  tn_id :: uuid
  tn_name :: str
  tn_root_inode_id :: int
  tn_created_at :: timestamp
  tn_updated_at :: timestamp

datatype inode_type = File | Dir | Symlink

record inode =
  ino_id :: int
  ino_tenant_id :: uuid
  ino_parent_id :: "int option"
  ino_name :: str
  ino_type :: inode_type
  ino_mode :: int
  ino_uid :: int
  ino_gid :: int
  ino_size :: int
  ino_atime :: timestamp
  ino_mtime :: timestamp
  ino_ctime :: timestamp

record create_inode_input =
  ci_tenant_id :: uuid
  ci_parent_id :: "int option"
  ci_name :: str
  ci_type :: inode_type
  ci_mode :: int
  ci_uid :: int
  ci_gid :: int

record update_inode_input =
  ui_size :: "int option"
  ui_mode :: "int option"
  ui_uid :: "int option"
  ui_gid :: "int option"
  ui_atime :: "timestamp option"
  ui_mtime :: "timestamp option"
  ui_ctime :: "timestamp option"

record data_block =
  blk_id :: uuid
  blk_tenant_id :: uuid
  blk_inode_id :: int
  blk_index :: int
  blk_data :: bytes
  blk_size :: int
  blk_content_hash :: str
  blk_created_at :: timestamp

record create_block_input =
  cb_tenant_id :: uuid
  cb_inode_id :: int
  cb_index :: int
  cb_data :: bytes

section \<open>Layers\<close>

datatype layer_status = Active | Creating | Deleting | Archived

datatype change_type = Add | Modify | Delete

record layer =
  ly_id :: uuid
  ly_tenant_id :: uuid
  ly_parent_id :: "uuid option"
  ly_name :: str
  ly_description :: "str option"
  ly_file_count :: int
  ly_total_size :: int
  ly_status :: layer_status
  ly_is_readonly :: bool
  ly_tags :: "json option"
  ly_created_at :: timestamp
  ly_created_by :: str
  ly_mount_entry_id :: "uuid option"
  ly_is_working :: bool

record create_layer_input =
  cl_tenant_id :: uuid
  cl_parent_id :: "uuid option"
  cl_name :: str
  cl_description :: "str option"
  cl_tags :: "json option"
  cl_created_by :: str
  cl_mount_entry_id :: "uuid option"
  cl_is_working :: bool

record layer_entry =
  le_id :: uuid
  le_layer_id :: uuid
  le_tenant_id :: uuid
  le_inode_id :: int
  le_path :: str
  le_change_type :: change_type
  le_size_delta :: "int option"
  le_text_changes :: "json option"
  le_created_at :: timestamp

record create_layer_entry_input =
  ce_layer_id :: uuid
  ce_tenant_id :: uuid
  ce_inode_id :: int
  ce_path :: str
  ce_change_type :: change_type
  ce_size_delta :: "int option"
  ce_text_changes :: "json option"

record tenant_current_layer =
  tcl_tenant_id :: uuid
  tcl_layer_id :: uuid
  tcl_updated_at :: timestamp

section \<open>Text storage\<close>

record text_block =
  tb_id :: uuid
  tb_content_hash :: str
  tb_content :: str
  tb_line_count :: int
  tb_byte_size :: int
  tb_encoding :: str
  tb_ref_count :: int
  tb_created_at :: timestamp
  tb_last_accessed_at :: timestamp

record create_text_block_input =
  ctb_content :: str
  ctb_encoding :: str

record text_file_metadata =
  tm_tenant_id :: uuid
  tm_inode_id :: int
  tm_layer_id :: uuid
  tm_total_lines :: int
  tm_encoding :: str
  tm_line_ending :: str
  tm_has_trailing_newline :: bool
  tm_created_at :: timestamp

record create_text_metadata_input =
  ctm_tenant_id :: uuid
  ctm_inode_id :: int
  ctm_layer_id :: uuid
  ctm_total_lines :: int
  ctm_encoding :: str
  ctm_line_ending :: str
  ctm_has_trailing_newline :: bool

record text_line_map =
  tl_tenant_id :: uuid
  tl_inode_id :: int
  tl_layer_id :: uuid
  tl_line_number :: int
  tl_block_id :: uuid
  tl_block_line_offset :: int

section \<open>Mount entries and published mounts\<close>

text \<open>A \<open>PathBuf\<close> is its text.\<close>

datatype mount_source =
    Host str
  | Layer uuid "uuid option" "str option"
  | Published str "str option"
  | WorkingLayer

datatype mount_mode = ReadOnly | ReadWrite | CopyOnWrite

definition mount_mode_default :: mount_mode where
  "mount_mode_default = ReadOnly"

definition parse_mode :: "str \<Rightarrow> mount_mode option" where
  "parse_mode s =
     (if s = ''ro'' then Some ReadOnly
      else if s = ''rw'' then Some ReadWrite
      else if s = ''cow'' then Some CopyOnWrite
      else None)"

fun mode_as_str :: "mount_mode \<Rightarrow> str" where
  "mode_as_str ReadOnly = ''ro''"
| "mode_as_str ReadWrite = ''rw''"
| "mode_as_str CopyOnWrite = ''cow''"

record mount_entry =
  me_id :: uuid
  me_tenant_id :: uuid
  me_name :: str
  me_virtual_path :: str
  me_source :: mount_source
  me_mode :: mount_mode
  me_is_file :: bool
  me_enabled :: bool
  me_current_layer_id :: "uuid option"
  me_metadata :: "json option"
  me_created_at :: timestamp
  me_updated_at :: timestamp

record create_mount_entry =
  cm_name :: str
  cm_virtual_path :: str
  cm_source :: mount_source
  cm_mode :: mount_mode
  cm_is_file :: bool
  cm_metadata :: "json option"

record update_mount_entry =
  um_mode :: "mount_mode option"
  um_enabled :: "bool option"
  um_metadata :: "json option"

datatype publish_target = TargetLayer uuid | TargetWorkingLayer

datatype publish_scope = Public | AllowList "uuid list"

record published_mount =
  pm_id :: uuid
  pm_mount_entry_id :: uuid
  pm_tenant_id :: uuid
  pm_name :: str
  pm_description :: "str option"
  pm_target :: publish_target
  pm_scope :: publish_scope
  pm_created_at :: timestamp
  pm_updated_at :: timestamp

record publish_mount_input =
  pi_mount_entry_id :: uuid
  pi_name :: str
  pi_description :: "str option"
  pi_target :: publish_target
  pi_scope :: publish_scope

record update_publish_input =
  up_description :: "str option"
  up_scope :: "publish_scope option"

record published_mount_filter =
  pf_scope :: "str option"
  pf_owner_tenant_id :: "uuid option"

record resolved_published =
  rp_mount_entry_id :: uuid
  rp_owner_tenant_id :: uuid
  rp_layer_id :: uuid
  rp_is_working_layer :: bool

text \<open>
  The rows of the two tables: the sources, targets, modes and scopes are stored as texts and
  nullable columns.
\<close>

record mount_row =
  mr_id :: uuid
  mr_tenant_id :: uuid
  mr_name :: str
  mr_virtual_path :: str
  mr_is_file :: bool
  mr_source_type :: str
  mr_host_path :: "str option"
  mr_source_mount_id :: "uuid option"
  mr_source_layer_id :: "uuid option"
  mr_source_subpath :: "str option"
  mr_source_publish_name :: "str option"
  mr_current_layer_id :: "uuid option"
  mr_mode :: str
  mr_enabled :: bool
  mr_metadata :: "json option"
  mr_created_at :: timestamp
  mr_updated_at :: timestamp

record published_row =
  pr_id :: uuid
  pr_mount_entry_id :: uuid
  pr_tenant_id :: uuid
  pr_name :: str
  pr_description :: "str option"
  pr_target_type :: str
  pr_layer_id :: "uuid option"
  pr_scope :: str
  pr_allowed_tenants :: "uuid list option"
  pr_created_at :: timestamp
  pr_updated_at :: timestamp

lemma parse_mode_as_str [simp]: "parse_mode (mode_as_str m) = Some m"
  by (cases m) (simp_all add: parse_mode_def)

section \<open>Errors\<close>

text \<open>
  What a statement of the database answers when a constraint of the schema refuses it, when
  a query that must return a row finds none, or when the text of the statement and its
  bound parameters disagree; \<open>Diverges\<close> is a recursive query that never ends.  \<open>Message\<close> is
  an error built with \<open>anyhow!\<close>.
\<close>

datatype db_error =
    UniqueViolation
  | ForeignKeyViolation
  | CheckViolation
  | ValueTooLong
  | RowNotFound
  | BindMismatch
  | DecodeError
  | Diverges
  | Message str

datatype layer_manager_error =
    LayerNotFound uuid
  | NoCurrentLayer
  | ReadonlyLayer uuid
  | HasChildLayers uuid
  | HistoricalLayerNeedsConfirmation uuid "layer list"
  | InvalidLayerChain str
  | LayerStorage db_error

text \<open>What an \<open>anyhow::Error\<close> inside \<open>FsError::Storage\<close> wraps.\<close>

datatype storage_error = DbError db_error | ManagerError layer_manager_error

datatype fs_error =
    PathNotFound str
  | AlreadyExists str
  | NotDirectory str
  | IsDirectory str
  | DirectoryNotEmpty str
  | InvalidPath str
  | PathTooLong nat
  | FilenameTooLong nat
  | Storage storage_error

end
