(* ===== verification/Paths.thy ===== *)
theory Paths
  imports Models
begin

text \<open>
  Paths inside a tenant's tree: \<open>src/src/fs/path.rs\<close>, with the errors of
  \<open>src/src/fs/error.rs\<close>.  A path is a Rust \<open>str\<close>, so lengths are counted in bytes.
\<close>

definition MAX_PATH_LENGTH :: nat where
  "MAX_PATH_LENGTH = 4096"

definition MAX_FILENAME_LENGTH :: nat where
  "MAX_FILENAME_LENGTH = 255"

text \<open>\<open>path.split('/').filter(|s| !s.is_empty())\<close>, which all three functions use.\<close>

definition path_parts :: "str \<Rightarrow> str list" where
  "path_parts path = filter (\<lambda>s. s \<noteq> []) (split_on CHR ''/'' path)"

text \<open>The loop over the parts: the first part that is too long is reported.\<close>

definition check_parts :: "str list \<Rightarrow> fs_error + unit" where
  "check_parts parts =
     (case find (\<lambda>p. length p > MAX_FILENAME_LENGTH) parts of
        Some p \<Rightarrow> Inl (FilenameTooLong (length p))
      | None \<Rightarrow> Inr ())"

definition normalize_path :: "str \<Rightarrow> fs_error + str" where
  "normalize_path path =
     (if path = [] then Inl (InvalidPath ''Empty path'')
      else if CHR 0x00 \<in> set path then Inl (InvalidPath ''Path contains NULL character'')
      else if length path > MAX_PATH_LENGTH then Inl (PathTooLong (length path))
      else if \<not> starts_with ''/'' path then Inl (InvalidPath ''Path must start with /'')
      else if path = ''/'' then Inr ''/''
      else case check_parts (path_parts path) of
             Inl e \<Rightarrow> Inl e
           | Inr _ \<Rightarrow> Inr (''/'' @ join ''/'' (path_parts path)))"

definition split_path :: "str \<Rightarrow> fs_error + (str \<times> str)" where
  "split_path path =
     (case normalize_path path of
        Inl e \<Rightarrow> Inl e
      | Inr normalized \<Rightarrow>
          if normalized = ''/'' then Inl (InvalidPath ''Cannot split root path'')
          else let parts = path_parts normalized in
            if parts = [] then Inl (InvalidPath ''Empty path after split'')
            else if length parts = 1 then Inr (''/'', hd parts)
            else Inr (''/'' @ join ''/'' (butlast parts), last parts))"

definition path_components :: "str \<Rightarrow> fs_error + str list" where
  "path_components path =
     (case normalize_path path of
        Inl e \<Rightarrow> Inl e
      | Inr normalized \<Rightarrow>
          if normalized = ''/'' then Inr [] else Inr (path_parts normalized))"

section \<open>Components and the path they spell\<close>

text \<open>A list of components that can stand in a path: nonempty, free of \<open>/\<close> and NUL, short.\<close>

definition good_part :: "str \<Rightarrow> bool" where
  "good_part p \<longleftrightarrow> p \<noteq> [] \<and> CHR ''/'' \<notin> set p \<and> CHR 0x00 \<notin> set p \<and> length p \<le> MAX_FILENAME_LENGTH"

text \<open>The canonical path of a list of components.\<close>

definition spell :: "str list \<Rightarrow> str" where
  "spell cs = ''/'' @ join ''/'' cs"

definition good_parts :: "str list \<Rightarrow> bool" where
  "good_parts cs \<longleftrightarrow> (\<forall>c \<in> set cs. good_part c) \<and> length (spell cs) \<le> MAX_PATH_LENGTH"

lemma spell_Nil [simp]: "spell [] = ''/''"
  by (simp add: spell_def)

lemma spell_fold: "CHR ''/'' # join ''/'' cs = spell cs"
  by (simp add: spell_def)

lemma spell_eq_root: "(\<forall>c \<in> set cs. c \<noteq> []) \<Longrightarrow> spell cs = ''/'' \<longleftrightarrow> cs = []"
  by (auto simp: spell_def join_eq_Nil)

lemma path_parts_no_slash: "p \<in> set (path_parts s) \<Longrightarrow> CHR ''/'' \<notin> set p \<and> p \<noteq> []"
  by (auto simp: path_parts_def dest: split_on_no_sep)

lemma set_split_on: "p \<in> set (split_on c s) \<Longrightarrow> set p \<subseteq> set s"
proof (induction s arbitrary: p)
  case Nil
  then show ?case by simp
next
  case (Cons x xs)
  then show ?case by (cases "split_on c xs") (fastforce split: if_splits)+
qed

lemma path_parts_chars: "p \<in> set (path_parts s) \<Longrightarrow> set p \<subseteq> set s"
  by (auto simp: path_parts_def dest: set_split_on)

lemma path_parts_slash [simp]: "path_parts (CHR ''/'' # s) = path_parts s"
  by (simp add: path_parts_def)

lemma path_parts_join:
  "\<forall>c \<in> set cs. c \<noteq> [] \<and> CHR ''/'' \<notin> set c \<Longrightarrow> path_parts (join ''/'' cs) = cs"
  by (cases "cs = []") (simp_all add: path_parts_def split_on_join filter_id_conv)

lemma path_parts_spell:
  "\<forall>c \<in> set cs. c \<noteq> [] \<and> CHR ''/'' \<notin> set c \<Longrightarrow> path_parts (spell cs) = cs"
  by (simp add: spell_def path_parts_join)

text \<open>Dropping empty parts never lengthens the text.\<close>

lemma length_join_filter:
  "length (join [c] (filter (\<lambda>s. s \<noteq> []) ps)) \<le> length (join [c] ps)"
proof (induction ps)
  case Nil
  then show ?case by simp
next
  case (Cons p ps)
  show ?case
  proof (cases "ps = []")
    case True
    then show ?thesis by simp
  next
    case False
    with Cons show ?thesis
      by (cases "filter (\<lambda>s. s \<noteq> []) ps = []") (auto simp: join_Cons)
  qed
qed

lemma length_spell_path_parts:
  assumes "starts_with ''/'' s"
  shows "length (spell (path_parts s)) \<le> length s"
proof -
  from assms obtain r where s: "s = CHR ''/'' # r"
    by (cases s) (auto simp: starts_with_def)
  have "length (join ''/'' (path_parts r)) \<le> length (join ''/'' (split_on CHR ''/'' r))"
    unfolding path_parts_def by (rule length_join_filter)
  then show ?thesis by (simp add: s spell_def)
qed

lemma check_parts_Inr: "check_parts ps = Inr u \<longleftrightarrow> (\<forall>p \<in> set ps. length p \<le> MAX_FILENAME_LENGTH)"
  by (fastforce simp: check_parts_def not_le split: option.splits dest!: find_SomeD)

text \<open>The output of \<open>normalize_path\<close> in terms of components.\<close>

lemma normalize_path_InrD:
  assumes "normalize_path p = Inr q"
  shows "good_parts (path_parts p) \<and> q = spell (path_parts p)"
proof -
  have ne: "p \<noteq> []" and nul: "CHR 0x00 \<notin> set p" and len: "length p \<le> MAX_PATH_LENGTH"
    and sl: "starts_with ''/'' p"
    using assms by (auto simp: normalize_path_def split: if_splits)
  have q: "q = spell (path_parts p)"
    using assms by (auto simp: normalize_path_def spell_def path_parts_def
        split: if_splits sum.splits)
  have short: "\<forall>c \<in> set (path_parts p). length c \<le> MAX_FILENAME_LENGTH"
    using assms by (auto simp: normalize_path_def path_parts_def check_parts_Inr
        split: if_splits sum.splits)
  have "length (spell (path_parts p)) \<le> MAX_PATH_LENGTH"
    using length_spell_path_parts [OF sl] len by linarith
  moreover have "\<forall>c \<in> set (path_parts p). good_part c"
    using short nul path_parts_no_slash path_parts_chars by (fastforce simp: good_part_def)
  ultimately show ?thesis using q by (simp add: good_parts_def)
qed

lemma good_parts_clean: "good_parts cs \<Longrightarrow> \<forall>c \<in> set cs. c \<noteq> [] \<and> CHR ''/'' \<notin> set c"
  by (simp add: good_parts_def good_part_def)

lemma nul_notin_join:
  "x \<noteq> c \<Longrightarrow> (\<forall>p \<in> set ps. x \<notin> set p) \<Longrightarrow> x \<notin> set (join [c] ps)"
  by (induction "[c]" ps rule: join.induct) auto

lemma normalize_path_spell:
  assumes "good_parts cs"
  shows "normalize_path (spell cs) = Inr (spell cs)"
proof (cases "cs = []")
  case True
  then show ?thesis by (simp add: normalize_path_def starts_with_def MAX_PATH_LENGTH_def)
next
  case False
  have clean: "\<forall>c \<in> set cs. c \<noteq> [] \<and> CHR ''/'' \<notin> set c"
    by (rule good_parts_clean [OF assms])
  have parts: "path_parts (spell cs) = cs" by (rule path_parts_spell [OF clean])
  have "CHR 0x00 \<notin> set (spell cs)"
    using assms by (simp add: spell_def nul_notin_join good_parts_def good_part_def)
  moreover have "spell cs \<noteq> ''/''" using False clean by (simp add: spell_eq_root)
  moreover have "check_parts cs = Inr ()"
    using assms by (simp add: check_parts_Inr good_parts_def good_part_def)
  ultimately show ?thesis
    using assms parts by (simp add: normalize_path_def good_parts_def spell_def starts_with_def)
qed

lemma path_components_eq:
  "path_components p = (case normalize_path p of Inl e \<Rightarrow> Inl e | Inr q \<Rightarrow> Inr (path_parts p))"
proof (cases "normalize_path p")
  case (Inl e)
  then show ?thesis by (simp add: path_components_def)
next
  case (Inr q)
  from normalize_path_InrD [OF Inr] have g: "good_parts (path_parts p)" and q: "q = spell (path_parts p)"
    by auto
  from good_parts_clean [OF g] have "path_parts q = path_parts p" "q = ''/'' \<longleftrightarrow> path_parts p = []"
    unfolding q by (simp_all add: path_parts_spell spell_eq_root)
  then show ?thesis by (auto simp: path_components_def Inr)
qed

lemma path_components_spell: "good_parts cs \<Longrightarrow> path_components (spell cs) = Inr cs"
  by (simp add: path_components_eq normalize_path_spell path_parts_spell good_parts_clean)

lemma path_components_InrD: "path_components p = Inr cs \<Longrightarrow> good_parts cs \<and> normalize_path p = Inr (spell cs)"
  by (auto simp: path_components_eq split: sum.splits dest: normalize_path_InrD)

lemma good_parts_butlast: "good_parts cs \<Longrightarrow> good_parts (butlast cs)"
proof (cases "cs = []")
  case False
  assume g: "good_parts cs"
  have j: "length (join ''/'' (butlast cs)) \<le> length (join ''/'' cs)"
    using False
  proof (induction cs)
    case Nil
    then show ?case by simp
  next
    case (Cons c cs)
    then show ?case
      by (cases "cs = []"; cases "butlast cs = []") (auto simp: join_Cons)
  qed
  with g show ?thesis
    by (auto simp: good_parts_def spell_def dest: in_set_butlastD)
qed simp

lemma split_path_spell:
  assumes "good_parts cs" and "cs \<noteq> []"
  shows "split_path (spell cs) = Inr (spell (butlast cs), last cs)"
proof -
  have clean: "\<forall>c \<in> set cs. c \<noteq> [] \<and> CHR ''/'' \<notin> set c"
    by (rule good_parts_clean [OF assms(1)])
  have "spell cs \<noteq> ''/''" using clean assms(2) by (simp add: spell_eq_root)
  moreover have "length cs = 1 \<Longrightarrow> butlast cs = [] \<and> hd cs = last cs"
    by (cases cs) auto
  ultimately show ?thesis
    using assms
    by (auto simp: split_path_def normalize_path_spell path_parts_spell [OF clean] Let_def spell_fold)
qed

lemma split_path_eq:
  "normalize_path p = Inr q \<Longrightarrow> split_path p = split_path q"
proof -
  assume q: "normalize_path p = Inr q"
  with normalize_path_InrD [OF q] have "normalize_path q = Inr q"
    by (simp add: normalize_path_spell)
  with q show ?thesis by (simp add: split_path_def)
qed

section \<open>Properties\<close>

text \<open>
  C39.  Normalisation is total on well-formed absolute paths and canonical: it returns the
  path spelled by its nonempty components, a second pass changes nothing, and two paths with
  the same components have the same normal form.
\<close>

theorem normalize_path_canonical:
  assumes "normalize_path p = Inr q"
  shows "q = spell (path_parts p) \<and> normalize_path q = Inr q \<and> path_components q = Inr (path_parts p)"
proof -
  from normalize_path_InrD [OF assms] have g: "good_parts (path_parts p)" and q: "q = spell (path_parts p)"
    by auto
  then show ?thesis by (simp add: normalize_path_spell path_components_spell)
qed

theorem normalize_path_canonical_witness:
  "''/data/files'' = spell (path_parts ''//data//files//'') \<and>
   normalize_path ''/data/files'' = Inr ''/data/files'' \<and>
   path_components ''/data/files'' = Inr (path_parts ''//data//files//'')"
  by (rule normalize_path_canonical)
     (simp add: normalize_path_def path_parts_def check_parts_def starts_with_def
        MAX_PATH_LENGTH_def MAX_FILENAME_LENGTH_def)

lemma split_path_roundtrip_aux:
  assumes "split_path p = Inr (parent, name)"
  shows "\<exists>cs. path_components parent = Inr cs \<and> normalize_path parent = Inr parent \<and>
    path_components p = Inr (cs @ [name]) \<and> good_part name"
proof -
  obtain q where q: "normalize_path p = Inr q"
    using assms by (auto simp: split_path_def split: sum.splits)
  from normalize_path_InrD [OF q] have g: "good_parts (path_parts p)" and qs: "q = spell (path_parts p)"
    by auto
  have ne: "path_parts p \<noteq> []"
    using assms q qs by (auto simp: split_path_def)
  have "split_path p = Inr (spell (butlast (path_parts p)), last (path_parts p))"
    using split_path_eq [OF q] split_path_spell [OF g ne] qs by simp
  with assms have par: "parent = spell (butlast (path_parts p))" and nm: "name = last (path_parts p)"
    by auto
  have gb: "good_parts (butlast (path_parts p))" by (rule good_parts_butlast [OF g])
  have "good_part name" using g ne by (simp add: nm good_parts_def)
  then show ?thesis
    using gb ne q by (auto simp: par nm path_components_spell normalize_path_spell
        path_components_eq [of p])
qed

text \<open>
  Splitting is the inverse of appending a component: the parent and the file name that
  \<open>split_path\<close> returns spell the normal form of the path again, the parent is itself in
  normal form, and the name is a single component.
\<close>

theorem split_path_roundtrip:
  assumes "split_path p = Inr (parent, name)"
  shows "\<exists>cs. path_components parent = Inr cs \<and> normalize_path parent = Inr parent \<and>
    path_components p = Inr (cs @ [name]) \<and> good_part name"
  using assms by (rule split_path_roundtrip_aux)

theorem split_path_roundtrip_witness:
  "\<exists>cs. path_components ''/data'' = Inr cs \<and> normalize_path ''/data'' = Inr ''/data'' \<and>
    path_components ''/data//x/'' = Inr (cs @ [''x'']) \<and> good_part ''x''"
  by (rule split_path_roundtrip)
     (simp add: split_path_def normalize_path_def path_parts_def check_parts_def starts_with_def
        MAX_PATH_LENGTH_def MAX_FILENAME_LENGTH_def)

text \<open>
  Exactly which paths are refused: \<open>normalize_path\<close> succeeds if and only if the path is
  absolute, has no NUL byte, is at most 4096 bytes long and has no component longer than 255
  bytes.
\<close>

theorem normalize_path_accepts:
  "(\<exists>q. normalize_path p = Inr q) \<longleftrightarrow>
     starts_with ''/'' p \<and> CHR 0x00 \<notin> set p \<and> length p \<le> 4096 \<and>
     list_all (\<lambda>c. length c \<le> 255) (path_parts p)"
proof (cases "check_parts (path_parts p)")
  case (Inl e)
  then have "\<not> list_all (\<lambda>c. length c \<le> 255) (path_parts p)"
    using check_parts_Inr [of "path_parts p" "()"] by (auto simp: list_all_iff MAX_FILENAME_LENGTH_def)
  moreover have "p \<noteq> ''/''" using Inl by (auto simp: check_parts_def path_parts_def)
  ultimately show ?thesis using Inl by (auto simp: normalize_path_def)
next
  case (Inr u)
  then have "list_all (\<lambda>c. length c \<le> 255) (path_parts p)"
    using check_parts_Inr [of "path_parts p" u] by (auto simp: list_all_iff MAX_FILENAME_LENGTH_def)
  moreover have "starts_with ''/'' p \<Longrightarrow> p \<noteq> []" by (auto simp: starts_with_def)
  ultimately show ?thesis using Inr by (auto simp: normalize_path_def MAX_PATH_LENGTH_def)
qed

end
