(* ===== verification/RustText.thy ===== *)
theory RustText
  imports Prelude
begin

text \<open>
  The text functions of the Rust standard library that detection and copy-on-write rely on:
  UTF-8 validation (\<open>str::from_utf8\<close>), lossy decoding (\<open>String::from_utf8_lossy\<close>), the scalar
  values of a string (\<open>chars\<close>, \<open>len_utf8\<close>) and \<open>lines\<close>.  Validation follows the table of
  well-formed byte sequences of the Unicode standard, and an ill-formed sequence is skipped by
  its maximal well-formed prefix, as the library documents.
\<close>

section \<open>UTF-8\<close>

definition is_cont :: "char \<Rightarrow> bool" where
  "is_cont b \<longleftrightarrow> 0x80 \<le> (of_char b :: nat) \<and> (of_char b :: nat) < 0xC0"

text \<open>The admissible second byte after a first byte of a sequence of three or four.\<close>

definition second_ok :: "char \<Rightarrow> char \<Rightarrow> bool" where
  "second_ok a b =
     (let x = (of_char a :: nat); y = (of_char b :: nat) in
      if x = 0xE0 then 0xA0 \<le> y \<and> y < 0xC0
      else if x = 0xED then 0x80 \<le> y \<and> y < 0xA0
      else if x = 0xF0 then 0x90 \<le> y \<and> y < 0xC0
      else if x = 0xF4 then 0x80 \<le> y \<and> y < 0x90
      else 0x80 \<le> y \<and> y < 0xC0)"

text \<open>\<open>utf8_width\<close>: the length announced by a first byte, 0 when it cannot be one.\<close>

definition utf8_width :: "char \<Rightarrow> nat" where
  "utf8_width a =
     (let x = (of_char a :: nat) in
      if x < 0x80 then 1
      else if 0xC2 \<le> x \<and> x < 0xE0 then 2
      else if 0xE0 \<le> x \<and> x < 0xF0 then 3
      else if 0xF0 \<le> x \<and> x < 0xF5 then 4
      else 0)"

text \<open>The bytes after the first that continue it, and whether the sequence is complete.\<close>

fun utf8_step :: "bytes \<Rightarrow> bool \<times> nat" where
  "utf8_step [] = (False, 0)"
| "utf8_step (a # bs) =
     (let w = utf8_width a in
      if w = 1 then (True, 1)
      else if w = 0 then (False, 1)
      else case bs of
        [] \<Rightarrow> (False, 1)
      | b # cs \<Rightarrow>
          if \<not> second_ok a b then (False, 1)
          else if w = 2 then (True, 2)
          else case cs of
            [] \<Rightarrow> (False, 2)
          | c # ds \<Rightarrow>
              if \<not> is_cont c then (False, 2)
              else if w = 3 then (True, 3)
              else case ds of
                [] \<Rightarrow> (False, 3)
              | d # es \<Rightarrow> if is_cont d then (True, 4) else (False, 3))"

lemma utf8_step_pos: "bs \<noteq> [] \<Longrightarrow> 0 < snd (utf8_step bs)"
  by (cases bs) (auto simp: Let_def split: list.splits)

lemma utf8_step_le: "snd (utf8_step bs) \<le> length bs"
  by (cases bs) (auto simp: Let_def split: list.splits)

function is_utf8 :: "bytes \<Rightarrow> bool" where
  "is_utf8 bs =
     (if bs = [] then True
      else fst (utf8_step bs) \<and> is_utf8 (drop (snd (utf8_step bs)) bs))"
  by pat_completeness auto
termination
  by (relation "measure length") (simp_all add: utf8_step_pos)

definition replacement :: bytes where
  "replacement = [CHR 0xEF, CHR 0xBF, CHR 0xBD]"

function from_utf8_lossy :: "bytes \<Rightarrow> str" where
  "from_utf8_lossy bs =
     (if bs = [] then []
      else (if fst (utf8_step bs) then take (snd (utf8_step bs)) bs else replacement) @
        from_utf8_lossy (drop (snd (utf8_step bs)) bs))"
  by pat_completeness auto
termination
  by (relation "measure length") (simp_all add: utf8_step_pos)

declare is_utf8.simps [simp del] from_utf8_lossy.simps [simp del]

text \<open>The scalar value of a well-formed sequence, and the scalar values of a string.\<close>

fun scalar_of :: "bytes \<Rightarrow> nat" where
  "scalar_of [a] = of_char a"
| "scalar_of [a, b] = (of_char a - 0xC0) * 64 + (of_char b - 0x80)"
| "scalar_of [a, b, c] = (of_char a - 0xE0) * 4096 + (of_char b - 0x80) * 64 + (of_char c - 0x80)"
| "scalar_of [a, b, c, d] =
     (of_char a - 0xF0) * 262144 + (of_char b - 0x80) * 4096 + (of_char c - 0x80) * 64 + (of_char d - 0x80)"
| "scalar_of _ = 0"

function chars :: "str \<Rightarrow> nat list" where
  "chars s =
     (if s = [] then []
      else scalar_of (take (snd (utf8_step s)) s) # chars (drop (snd (utf8_step s)) s))"
  by pat_completeness auto
termination
  by (relation "measure length") (simp_all add: utf8_step_pos)

declare chars.simps [simp del]

definition len_utf8 :: "nat \<Rightarrow> nat" where
  "len_utf8 c = (if c < 0x80 then 1 else if c < 0x800 then 2 else if c < 0x10000 then 3 else 4)"

text \<open>\<open>str::from_utf8\<close>: the same bytes, or an error.\<close>

definition from_utf8 :: "bytes \<Rightarrow> str option" where
  "from_utf8 bs = (if is_utf8 bs then Some bs else None)"

text \<open>The number of scalar values of a string, which is what \<open>VARCHAR(n)\<close> bounds.\<close>

definition char_count :: "str \<Rightarrow> nat" where
  "char_count s = length (filter (\<lambda>b. \<not> is_cont b) s)"

lemma char_count_le: "char_count s \<le> length s"
  by (simp add: char_count_def)

lemma is_utf8_Nil [simp]: "is_utf8 []"
  by (simp add: is_utf8.simps)

lemma is_utf8_step: "bs \<noteq> [] \<Longrightarrow> is_utf8 bs \<longleftrightarrow> fst (utf8_step bs) \<and> is_utf8 (drop (snd (utf8_step bs)) bs)"
  by (subst is_utf8.simps) simp

lemma lossy_Nil [simp]: "from_utf8_lossy [] = []"
  by (simp add: from_utf8_lossy.simps)

lemma lossy_step:
  "bs \<noteq> [] \<Longrightarrow> from_utf8_lossy bs =
     (if fst (utf8_step bs) then take (snd (utf8_step bs)) bs else replacement) @
     from_utf8_lossy (drop (snd (utf8_step bs)) bs)"
  by (subst from_utf8_lossy.simps) simp

lemma lossy_valid [simp]: "is_utf8 bs \<Longrightarrow> from_utf8_lossy bs = bs"
proof (induction bs rule: length_induct)
  case (1 bs)
  show ?case
  proof (cases "bs = []")
    case False
    then have "length (drop (snd (utf8_step bs)) bs) < length bs"
      using utf8_step_pos by simp
    with 1 False show ?thesis by (simp add: lossy_step is_utf8_step)
  qed simp
qed

text \<open>A complete first sequence is decided by its own bytes, whatever follows.\<close>

lemma utf8_step_prefix:
  assumes "utf8_step bs = (True, w)"
  shows "utf8_step (take w bs @ rest) = (True, w)"
  using assms
  by (cases bs; cases "tl bs"; cases "tl (tl bs)"; cases "tl (tl (tl bs))")
     (auto simp: Let_def split: if_splits)

lemma utf8_step_append:
  "utf8_step bs = (True, w) \<Longrightarrow> utf8_step (bs @ rest) = (True, w)"
  using utf8_step_prefix [of bs w "drop w bs @ rest"] by (simp only: append_take_drop_id append_assoc [symmetric])

lemma is_utf8_append:
  "is_utf8 xs \<Longrightarrow> is_utf8 (xs @ ys) \<longleftrightarrow> is_utf8 ys"
proof (induction xs rule: length_induct)
  case (1 xs)
  show ?case
  proof (cases "xs = []")
    case False
    define w where "w = snd (utf8_step xs)"
    from False "1.prems" have step: "utf8_step xs = (True, w)" and rest: "is_utf8 (drop w xs)"
      by (auto simp: is_utf8_step w_def prod_eq_iff)
    have w: "0 < w" "w \<le> length xs"
      using False utf8_step_pos [of xs] utf8_step_le [of xs] by (simp_all add: w_def)
    then have "length (drop w xs) < length xs" using False by simp
    with "1.IH" rest have "is_utf8 (drop w xs @ ys) \<longleftrightarrow> is_utf8 ys" by blast
    moreover have "is_utf8 (xs @ ys) \<longleftrightarrow> is_utf8 (drop w xs @ ys)"
      using False w utf8_step_append [OF step, of ys] by (simp add: is_utf8_step)
    ultimately show ?thesis by simp
  qed simp
qed

lemma is_utf8_replacement: "is_utf8 replacement"
  by (simp add: replacement_def is_utf8_step utf8_width_def second_ok_def is_cont_def Let_def)

lemma is_utf8_lossy: "is_utf8 (from_utf8_lossy bs)"
proof (induction bs rule: length_induct)
  case (1 bs)
  show ?case
  proof (cases "bs = []")
    case False
    define w where "w = snd (utf8_step bs)"
    have w: "0 < w" "w \<le> length bs"
      using False utf8_step_pos [of bs] utf8_step_le [of bs] by (simp_all add: w_def)
    then have IH: "is_utf8 (from_utf8_lossy (drop w bs))"
      using 1 False by simp
    show ?thesis
    proof (cases "fst (utf8_step bs)")
      case True
      then have "utf8_step (take w bs) = (True, w)"
        using utf8_step_prefix [of bs w "[]"] by (simp add: w_def prod_eq_iff)
      moreover have "take w bs \<noteq> []" using False w by simp
      ultimately have "is_utf8 (take w bs)"
        using w by (simp add: is_utf8_step)
      with True False IH show ?thesis by (simp add: lossy_step is_utf8_append w_def)
    next
      case False
      with \<open>bs \<noteq> []\<close> IH show ?thesis
        by (simp add: lossy_step is_utf8_append is_utf8_replacement w_def)
    qed
  qed simp
qed

definition is_ascii :: "char \<Rightarrow> bool" where
  "is_ascii b \<longleftrightarrow> (of_char b :: nat) < 0x80"

lemma utf8_step_ascii: "is_ascii b \<Longrightarrow> utf8_step (b # bs) = (True, 1)"
  by (simp add: is_ascii_def utf8_width_def)

lemma is_utf8_ascii_Cons: "is_ascii b \<Longrightarrow> is_utf8 (b # bs) \<longleftrightarrow> is_utf8 bs"
  using utf8_step_ascii [of b bs] by (simp add: is_utf8_step del: utf8_step.simps)

lemma is_utf8_all_ascii: "list_all is_ascii bs \<Longrightarrow> is_utf8 bs"
  by (induction bs) (simp_all add: is_utf8_ascii_Cons)

text \<open>An ASCII byte is never inside a longer sequence, so a string splits at it.\<close>

lemma utf8_step_stops_at_ascii:
  assumes "utf8_step (xs @ b # ys) = (True, w)" and "is_ascii b" and "xs \<noteq> []"
  shows "w \<le> length xs"
  using assms
  by (cases xs; cases "tl xs"; cases "tl (tl xs)"; cases "tl (tl (tl xs))")
     (auto simp: Let_def is_ascii_def is_cont_def second_ok_def split: if_splits list.splits)

lemma is_utf8_split_ascii:
  "is_utf8 (xs @ b # ys) \<Longrightarrow> is_ascii b \<Longrightarrow> is_utf8 xs \<and> is_utf8 ys"
proof (induction xs rule: length_induct)
  case (1 xs)
  show ?case
  proof (cases "xs = []")
    case True
    with 1 show ?thesis by (simp add: is_utf8_ascii_Cons)
  next
    case False
    define w where "w = snd (utf8_step (xs @ b # ys))"
    have step: "utf8_step (xs @ b # ys) = (True, w)"
      and rest: "is_utf8 (drop w (xs @ b # ys))"
      using "1.prems"(1) by (auto simp: is_utf8_step w_def prod_eq_iff)
    have le: "w \<le> length xs"
      by (rule utf8_step_stops_at_ascii [OF step "1.prems"(2) False])
    have pos: "0 < w" using utf8_step_pos [of "xs @ b # ys"] by (simp add: w_def)
    have "is_utf8 (drop w xs @ b # ys)" using rest le by simp
    moreover have "length (drop w xs) < length xs" using pos False by simp
    ultimately have parts: "is_utf8 (drop w xs) \<and> is_utf8 ys"
      using "1.IH" "1.prems"(2) by blast
    have "utf8_step xs = (True, w)"
      using utf8_step_prefix [OF step, of "drop w xs"] le by (simp del: utf8_step.simps)
    with parts False show ?thesis by (simp add: is_utf8_step del: utf8_step.simps)
  qed
qed

lemma is_utf8_split_on:
  assumes "is_ascii c" and "is_utf8 s"
  shows "\<forall>p \<in> set (split_on c s). is_utf8 p"
proof -
  have "is_utf8 (join [c] ps) \<Longrightarrow> p \<in> set ps \<Longrightarrow> is_utf8 p" for ps p
  proof (induction ps)
    case (Cons q qs)
    show ?case
    proof (cases "qs = []")
      case True
      with Cons.prems show ?thesis by simp
    next
      case False
      with Cons.prems(1) have "is_utf8 (q @ c # join [c] qs)" by (simp add: join_Cons)
      then have both: "is_utf8 q \<and> is_utf8 (join [c] qs)"
        using assms(1) by (rule is_utf8_split_ascii)
      show ?thesis
      proof (cases "p = q")
        case True
        with both show ?thesis by blast
      next
        case False
        with Cons.prems(2) have "p \<in> set qs" by simp
        with both show ?thesis by (blast intro: Cons.IH)
      qed
    qed
  qed simp
  from this [of "split_on c s"] assms(2) show ?thesis by simp
qed

lemma is_utf8_join: "is_ascii c \<Longrightarrow> \<forall>p \<in> set ps. is_utf8 p \<Longrightarrow> is_utf8 (join [c] ps)"
  by (induction "[c]" ps rule: join.induct) (simp_all add: is_utf8_append is_utf8_ascii_Cons)

section \<open>Lines\<close>

abbreviation NL :: char where "NL \<equiv> CHR 0x0A"
abbreviation CR :: char where "CR \<equiv> CHR 0x0D"

definition strip_cr :: "str \<Rightarrow> str" where
  "strip_cr l = (if l \<noteq> [] \<and> last l = CR then butlast l else l)"

text \<open>
  \<open>lines\<close>: the text is cut after each \<open>\n\<close>; a piece that ends in \<open>\n\<close> loses it together with
  a \<open>\r\<close> before it; a last piece without \<open>\n\<close> is kept as it is, if it is not empty.
\<close>

definition lines :: "str \<Rightarrow> str list" where
  "lines s = (let ps = split_on NL s in
     map strip_cr (butlast ps) @ (if last ps = [] then [] else [last ps]))"

definition ends_with_nl :: "str \<Rightarrow> bool" where
  "ends_with_nl s \<longleftrightarrow> s \<noteq> [] \<and> last s = NL"

text \<open>The text with every \<open>\r\n\<close> replaced by \<open>\n\<close>.\<close>

fun crlf_to_lf :: "str \<Rightarrow> str" where
  "crlf_to_lf [] = []"
| "crlf_to_lf (x # xs) =
     (if x = CR \<and> xs \<noteq> [] \<and> hd xs = NL then NL # crlf_to_lf (tl xs) else x # crlf_to_lf xs)"

lemma crlf_to_lf_no_nl: "NL \<notin> set p \<Longrightarrow> crlf_to_lf p = p"
proof (induction p)
  case (Cons x p)
  then show ?case by (cases p) auto
qed simp

lemma crlf_to_lf_line: "NL \<notin> set p \<Longrightarrow> crlf_to_lf (p @ NL # r) = strip_cr p @ NL # crlf_to_lf r"
proof (induction p)
  case Nil
  then show ?case by (simp add: strip_cr_def)
next
  case (Cons x p)
  then show ?case by (cases p) (auto simp: strip_cr_def)
qed

lemma crlf_to_lf_join:
  "ps \<noteq> [] \<Longrightarrow> \<forall>p \<in> set ps. NL \<notin> set p \<Longrightarrow>
   crlf_to_lf (join [NL] ps) = join [NL] (map strip_cr (butlast ps) @ [last ps])"
proof (induction ps)
  case (Cons p ps)
  show ?case
  proof (cases "ps = []")
    case True
    with Cons.prems show ?thesis by (simp add: crlf_to_lf_no_nl)
  next
    case False
    with Cons show ?thesis by (simp add: join_Cons crlf_to_lf_line)
  qed
qed simp

lemma crlf_to_lf_split:
  "crlf_to_lf s = join [NL] (map strip_cr (butlast (split_on NL s)) @ [last (split_on NL s)])"
  using crlf_to_lf_join [of "split_on NL s"] by (auto dest: split_on_no_sep)

lemma join_snoc_Nil: "ps \<noteq> [] \<Longrightarrow> join sep (ps @ [[]]) = join sep ps @ sep"
  by (induction sep ps rule: join.induct) auto

lemma split_on_single: "tl (split_on c s) = [] \<longleftrightarrow> c \<notin> set s"
  by (induction s) (auto split: list.splits)

lemma last_split_on: "last (split_on c s) = [] \<longleftrightarrow> s = [] \<or> last s = c"
proof (induction s)
  case (Cons x xs)
  obtain p ps where ss: "split_on c xs = p # ps" by (cases "split_on c xs") auto
  have single: "ps = [] \<longleftrightarrow> c \<notin> set xs" using split_on_single [of c xs] by (simp add: ss)
  show ?case
  proof (cases "x = c")
    case True
    with Cons ss show ?thesis by auto
  next
    case False
    with Cons ss single last_in_set [of xs] show ?thesis by (cases "xs = []") auto
  qed
qed simp

lemma butlast_split_on_Nil: "butlast (split_on c s) = [] \<longleftrightarrow> c \<notin> set s"
  using split_on_single [of c s] by (cases "split_on c s") auto

text \<open>
  Storing the lines of a text and joining them with \<open>\n\<close> gives back the text with its line
  ends normalised, except that a text that is one empty line comes back empty.
\<close>

definition unlines :: "str list \<Rightarrow> bool \<Rightarrow> str" where
  "unlines ls trailing =
     (let r = join [NL] ls in if trailing \<and> r \<noteq> [] then r @ [NL] else r)"

lemma unlines_lines:
  "unlines (lines s) (ends_with_nl s) =
     (if s = [NL] \<or> s = [CR, NL] then [] else crlf_to_lf s)"
proof (cases "last (split_on NL s) = []")
  case False
  then have "\<not> ends_with_nl s" "s \<noteq> [NL]" "s \<noteq> [CR, NL]"
    using last_split_on [of NL s] by (auto simp: ends_with_nl_def)
  with False show ?thesis
    by (simp add: unlines_def lines_def Let_def crlf_to_lf_split)
next
  case True
  show ?thesis
  proof (cases "s = []")
    case True
    then show ?thesis by (simp add: unlines_def lines_def Let_def)
  next
    case ne: False
    with True have nl: "ends_with_nl s" using last_split_on [of NL s] by (simp add: ends_with_nl_def)
    then have some: "butlast (split_on NL s) \<noteq> []"
      by (auto simp: butlast_split_on_Nil ends_with_nl_def dest: last_in_set)
    let ?ls = "map strip_cr (butlast (split_on NL s))"
    have conv: "crlf_to_lf s = join [NL] ?ls @ [NL]"
      using True some by (simp add: crlf_to_lf_split join_snoc_Nil)
    have "join [NL] ?ls = [] \<longleftrightarrow> s = [NL] \<or> s = [CR, NL]"
    proof
      assume "join [NL] ?ls = []"
      with some obtain p where p: "butlast (split_on NL s) = [p]" "strip_cr p = []"
        by (auto simp: join_eq_Nil map_eq_Cons_conv)
      then have "p = [] \<or> p = [CR]"
        by (cases p rule: rev_cases) (auto simp: strip_cr_def split: if_splits)
      moreover have "split_on NL s = [p, []]"
        using p(1) True by (metis append_Cons append_Nil append_butlast_last_id split_on_not_Nil)
      then have "s = p @ [NL]" using join_split_on [of NL s] by simp
      ultimately show "s = [NL] \<or> s = [CR, NL]" by auto
    next
      assume "s = [NL] \<or> s = [CR, NL]"
      then show "join [NL] ?ls = []" by (auto simp: strip_cr_def)
    qed
    with True nl conv show ?thesis by (auto simp: unlines_def lines_def Let_def)
  qed
qed

lemma crlf_to_lf_id: "(\<forall>xs ys. s \<noteq> xs @ [CR, NL] @ ys) \<Longrightarrow> crlf_to_lf s = s"
proof (induction s)
  case (Cons x xs)
  have "\<not> (x = CR \<and> xs \<noteq> [] \<and> hd xs = NL)"
  proof
    assume "x = CR \<and> xs \<noteq> [] \<and> hd xs = NL"
    then have "x # xs = [] @ [CR, NL] @ tl xs" by (cases xs) auto
    with Cons.prems show False by blast
  qed
  moreover have "\<forall>as bs. xs \<noteq> as @ [CR, NL] @ bs"
    using Cons.prems by (metis append_Cons)
  ultimately show ?case using Cons.IH by simp
qed simp

lemma crlf_to_lf_no_cr: "CR \<notin> set s \<Longrightarrow> crlf_to_lf s = s"
  by (induction s) auto

lemma is_utf8_strip_cr: "is_utf8 p \<Longrightarrow> is_utf8 (strip_cr p)"
proof (cases p rule: rev_cases)
  case (snoc xs x)
  assume "is_utf8 p"
  with snoc show ?thesis
    using is_utf8_split_ascii [of xs x "[]"] by (auto simp: strip_cr_def is_ascii_def)
qed (simp add: strip_cr_def)

lemma in_set_butlast_last: "xs \<noteq> [] \<Longrightarrow> set xs = insert (last xs) (set (butlast xs))"
  by (cases xs rule: rev_cases) auto

lemma is_utf8_lines: "is_utf8 s \<Longrightarrow> l \<in> set (lines s) \<Longrightarrow> is_utf8 l"
  using is_utf8_split_on [of NL s] in_set_butlast_last [of "split_on NL s"]
  by (auto simp: lines_def Let_def is_ascii_def is_utf8_strip_cr split: if_splits)

lemma is_utf8_unlines:
  assumes "\<And>l. l \<in> set ls \<Longrightarrow> is_utf8 l"
  shows "is_utf8 (unlines ls t)"
proof -
  have "is_utf8 (join [NL] ls)" using assms by (intro is_utf8_join) (auto simp: is_ascii_def)
  moreover have "is_utf8 [NL]" by (simp add: is_utf8_ascii_Cons is_ascii_def)
  ultimately show ?thesis by (simp add: unlines_def Let_def is_utf8_append)
qed

lemma lines_no_nl: "l \<in> set (lines s) \<Longrightarrow> NL \<notin> set l"
proof -
  assume l: "l \<in> set (lines s)"
  have "NL \<notin> set p" if "p \<in> set (butlast (split_on NL s))" for p
    using in_set_butlastD [OF that] by (rule split_on_no_sep)
  moreover have "NL \<notin> set (last (split_on NL s))"
    by (rule split_on_no_sep [where s = s]) simp
  ultimately show ?thesis
    using l by (auto simp: lines_def Let_def strip_cr_def split: if_splits dest: in_set_butlastD)
qed

end
