(* ===== verification/Database.thy ===== *)
theory Database
  imports Models RustText
begin

text \<open>
  The PostgreSQL database behind the repositories, as the migrations under \<open>src/migrations\<close>
  declare it: the tables as lists of rows in insertion order, the sequence of inode numbers,
  the clock, and the source of random UUIDs.  The cascades of the foreign keys and the two
  triggers that the code relies on (statistics of a layer, reference count of a text block)
  are part of the deletions and insertions below.  Every statement is its own transaction,
  as the code issues them, unless the code opens one explicitly.
\<close>

record db =
  d_tenants :: "tenant list"
  d_inodes :: "inode list"
  d_blocks :: "data_block list"
  d_layers :: "layer list"
  d_entries :: "layer_entry list"
  d_current :: "tenant_current_layer list"
  d_text_blocks :: "text_block list"
  d_text_meta :: "text_file_metadata list"
  d_text_lines :: "text_line_map list"
  d_mounts :: "mount_row list"
  d_published :: "published_row list"
  d_inode_seq :: int
  d_clock :: timestamp
  d_entropy :: "nat \<Rightarrow> uuid"
  d_draws :: nat

text \<open>The database as the migrations leave it, with a given stream of random identifiers.\<close>

definition empty_db :: "(nat \<Rightarrow> uuid) \<Rightarrow> db" where
  "empty_db entropy =
     \<lparr>d_tenants = [], d_inodes = [], d_blocks = [], d_layers = [], d_entries = [], d_current = [],
      d_text_blocks = [], d_text_meta = [], d_text_lines = [], d_mounts = [], d_published = [],
      d_inode_seq = 1, d_clock = 0, d_entropy = entropy, d_draws = 0\<rparr>"

text \<open>An operation on the database; a storage failure is its error.\<close>

type_synonym 'a db_op = "(db, db_error, 'a) op"

text \<open>
  Code that is not in the repository: the BLAKE3 digest in hexadecimal, the standard
  library's \<open>DefaultHasher\<close> (whose algorithm is unspecified), the diff of the crate
  \<open>similar\<close>, the textual form of UUIDs, the JSON parser and printer, the collation by
  which the database orders names, the text of its errors, and what the driver makes of a
  column of type TIMESTAMP (without time zone) that the code reads as \<open>DateTime<Utc>\<close>: a time,
  or a decoding error; the RFC 3339 form of a time, and the text with which serde refuses a
  text as a value of a type.  The model takes them as one argument.
\<close>

datatype change_tag = Equal | DeleteTag | InsertTag

record ext =
  blake3_hex :: "bytes \<Rightarrow> str"
  default_hasher :: "str \<Rightarrow> nat"
  text_diff :: "str list \<Rightarrow> str list \<Rightarrow> change_tag list"
  uuid_to_string :: "uuid \<Rightarrow> str"
  uuid_parse :: "str \<Rightarrow> uuid option"
  json_parse :: "str \<Rightarrow> json option"
  json_pretty :: "json \<Rightarrow> str"
  collate_le :: "str \<Rightarrow> str \<Rightarrow> bool"
  show_db_error :: "db_error \<Rightarrow> str"
  decode_timestamp :: "timestamp \<Rightarrow> timestamp option"
  show_time :: "timestamp \<Rightarrow> str"
  json_error :: "str \<Rightarrow> str \<Rightarrow> str"

text \<open>\<open>Uuid::new_v4()\<close> and the current time.\<close>

definition new_v4 :: "(db, 'e, uuid) op" where
  "new_v4 = (\<lambda>d. (Inr (d_entropy d (d_draws d)), d\<lparr>d_draws := Suc (d_draws d)\<rparr>))"

definition now :: "(db, 'e, timestamp) op" where
  "now = (\<lambda>d. (Inr (d_clock d), d\<lparr>d_clock := Suc (d_clock d)\<rparr>))"

text \<open>\<open>ORDER BY\<close> a text column, with the database's collation.\<close>

fun insert_by :: "('r \<Rightarrow> 'r \<Rightarrow> bool) \<Rightarrow> 'r \<Rightarrow> 'r list \<Rightarrow> 'r list" where
  "insert_by le x [] = [x]"
| "insert_by le x (y # ys) = (if le x y then x # y # ys else y # insert_by le x ys)"

definition sort_by :: "('r \<Rightarrow> 'r \<Rightarrow> bool) \<Rightarrow> 'r list \<Rightarrow> 'r list" where
  "sort_by le xs = foldr (insert_by le) xs []"

text \<open>\<open>VARCHAR(n)\<close> counts characters.\<close>

definition varchar :: "nat \<Rightarrow> str \<Rightarrow> bool" where
  "varchar n s \<longleftrightarrow> char_count s \<le> n"

section \<open>Keys\<close>

definition inode_key :: "inode \<Rightarrow> uuid \<times> int" where
  "inode_key i = (ino_tenant_id i, ino_id i)"

definition block_key :: "data_block \<Rightarrow> uuid \<times> int \<times> int" where
  "block_key b = (blk_tenant_id b, blk_inode_id b, blk_index b)"

definition meta_key :: "text_file_metadata \<Rightarrow> uuid \<times> int \<times> uuid" where
  "meta_key m = (tm_tenant_id m, tm_inode_id m, tm_layer_id m)"

definition line_file_key :: "text_line_map \<Rightarrow> uuid \<times> int \<times> uuid" where
  "line_file_key l = (tl_tenant_id l, tl_inode_id l, tl_layer_id l)"

section \<open>Triggers and cascades\<close>

text \<open>\<open>manage_text_block_refcount\<close>, on insertion and on deletion of a line mapping.\<close>

definition line_inserted :: "timestamp \<Rightarrow> uuid \<Rightarrow> text_block list \<Rightarrow> text_block list" where
  "line_inserted t b = update_rows (\<lambda>r. tb_id r = b)
     (\<lambda>r. r\<lparr>tb_ref_count := tb_ref_count r + 1, tb_last_accessed_at := t\<rparr>)"

definition line_deleted :: "text_line_map \<Rightarrow> text_block list \<Rightarrow> text_block list" where
  "line_deleted l = update_rows (\<lambda>r. tb_id r = tl_block_id l)
     (\<lambda>r. r\<lparr>tb_ref_count := max (tb_ref_count r - 1) 0\<rparr>)"

definition delete_text_lines :: "(text_line_map \<Rightarrow> bool) \<Rightarrow> db \<Rightarrow> db" where
  "delete_text_lines P d =
     d\<lparr>d_text_lines := delete_rows P (d_text_lines d),
       d_text_blocks := fold line_deleted (filter P (d_text_lines d)) (d_text_blocks d)\<rparr>"

definition delete_text_meta :: "(text_file_metadata \<Rightarrow> bool) \<Rightarrow> db \<Rightarrow> db" where
  "delete_text_meta P d =
     (let gone = map meta_key (filter P (d_text_meta d)) in
      delete_text_lines (\<lambda>l. line_file_key l \<in> set gone)
        (d\<lparr>d_text_meta := delete_rows P (d_text_meta d)\<rparr>))"

text \<open>\<open>update_layer_stats\<close>, for an entry that goes away.\<close>

definition size_of :: "int option \<Rightarrow> int" where
  "size_of x = (case x of None \<Rightarrow> 0 | Some n \<Rightarrow> n)"

definition entry_deleted :: "layer_entry \<Rightarrow> layer list \<Rightarrow> layer list" where
  "entry_deleted e = update_rows (\<lambda>l. ly_id l = le_layer_id e)
     (\<lambda>l. l\<lparr>ly_file_count := max (ly_file_count l - 1) 0,
            ly_total_size := max (ly_total_size l - size_of (le_size_delta e)) 0\<rparr>)"

definition entry_inserted :: "layer_entry \<Rightarrow> layer list \<Rightarrow> layer list" where
  "entry_inserted e = update_rows (\<lambda>l. ly_id l = le_layer_id e)
     (\<lambda>l. l\<lparr>ly_file_count := ly_file_count l + 1,
            ly_total_size := ly_total_size l + size_of (le_size_delta e)\<rparr>)"

definition entry_updated :: "layer_entry \<Rightarrow> layer_entry \<Rightarrow> layer list \<Rightarrow> layer list" where
  "entry_updated old new = update_rows (\<lambda>l. ly_id l = le_layer_id new)
     (\<lambda>l. l\<lparr>ly_total_size := ly_total_size l - size_of (le_size_delta old) + size_of (le_size_delta new)\<rparr>)"

definition delete_entries :: "(layer_entry \<Rightarrow> bool) \<Rightarrow> db \<Rightarrow> db" where
  "delete_entries P d =
     d\<lparr>d_entries := delete_rows P (d_entries d),
       d_layers := fold entry_deleted (filter P (d_entries d)) (d_layers d)\<rparr>"

text \<open>\<open>DELETE FROM inodes\<close>: the subtree goes too, with everything that refers to its inodes.\<close>

fun subtree_ids :: "nat \<Rightarrow> inode list \<Rightarrow> uuid \<Rightarrow> int list \<Rightarrow> int list" where
  "subtree_ids 0 is t ids = ids"
| "subtree_ids (Suc n) is t ids =
     (let kids = map ino_id (filter (\<lambda>i. ino_tenant_id i = t \<and>
                   (case ino_parent_id i of None \<Rightarrow> False | Some p \<Rightarrow> p \<in> set ids)) is)
      in if kids = [] then ids else ids @ subtree_ids n is t kids)"

definition delete_inode_rows :: "uuid \<Rightarrow> int \<Rightarrow> db \<Rightarrow> db" where
  "delete_inode_rows t i d =
     (let ids = (if exists_row (\<lambda>r. inode_key r = (t, i)) (d_inodes d)
                 then subtree_ids (length (d_inodes d)) (d_inodes d) t [i] else []);
          d1 = d\<lparr>d_inodes := delete_rows (\<lambda>r. ino_tenant_id r = t \<and> ino_id r \<in> set ids) (d_inodes d),
                 d_blocks := delete_rows (\<lambda>b. blk_tenant_id b = t \<and> blk_inode_id b \<in> set ids) (d_blocks d)\<rparr>;
          d2 = delete_entries (\<lambda>e. le_tenant_id e = t \<and> le_inode_id e \<in> set ids) d1
      in delete_text_meta (\<lambda>m. tm_tenant_id m = t \<and> tm_inode_id m \<in> set ids) d2)"

text \<open>\<open>DELETE FROM layers\<close>: entries and text metadata cascade, references from mounts are cleared.\<close>

definition delete_layer_rows :: "(layer \<Rightarrow> bool) \<Rightarrow> db \<Rightarrow> db" where
  "delete_layer_rows P d =
     (let gone = map ly_id (filter P (d_layers d));
          d1 = d\<lparr>d_layers := delete_rows P (d_layers d),
                 d_mounts := update_rows
                   (\<lambda>m. case mr_current_layer_id m of None \<Rightarrow> False | Some l \<Rightarrow> l \<in> set gone)
                   (\<lambda>m. m\<lparr>mr_current_layer_id := None\<rparr>) (d_mounts d)\<rparr>;
          d2 = delete_entries (\<lambda>e. le_layer_id e \<in> set gone) d1
      in delete_text_meta (\<lambda>m. tm_layer_id m \<in> set gone) d2)"

text \<open>
  \<open>DELETE FROM mount_entries\<close>: publications and layers of the mounts cascade.  The statement is
  refused when a remaining mount names a deleted one as its source, or when a deleted layer is
  the parent of a remaining layer or the current layer of a tenant.
\<close>

definition on_mount :: "uuid set \<Rightarrow> layer \<Rightarrow> bool" where
  "on_mount ms l \<longleftrightarrow> (case ly_mount_entry_id l of None \<Rightarrow> False | Some m \<Rightarrow> m \<in> ms)"

definition delete_mount_rows :: "(mount_row \<Rightarrow> bool) \<Rightarrow> db \<Rightarrow> db" where
  "delete_mount_rows P d =
     (let gone = set (map mr_id (filter P (d_mounts d))) in
      delete_layer_rows (on_mount gone)
        (d\<lparr>d_mounts := delete_rows P (d_mounts d),
           d_published := delete_rows (\<lambda>p. pr_mount_entry_id p \<in> gone) (d_published d)\<rparr>))"

definition delete_mounts :: "(mount_row \<Rightarrow> bool) \<Rightarrow> nat db_op" where
  "delete_mounts P = (\<lambda>d.
     let gone = set (map mr_id (filter P (d_mounts d)));
         layers = set (map ly_id (filter (on_mount gone) (d_layers d)))
     in if exists_row (\<lambda>m. \<not> P m \<and> (case mr_source_mount_id m of None \<Rightarrow> False | Some s \<Rightarrow> s \<in> gone)) (d_mounts d)
          then (Inl ForeignKeyViolation, d)
        else if exists_row (\<lambda>l. \<not> on_mount gone l \<and>
                  (case ly_parent_id l of None \<Rightarrow> False | Some p \<Rightarrow> p \<in> layers)) (d_layers d)
          then (Inl ForeignKeyViolation, d)
        else if exists_row (\<lambda>c. tcl_layer_id c \<in> layers) (d_current d) then (Inl ForeignKeyViolation, d)
        else (Inr (length (filter P (d_mounts d))), delete_mount_rows P d))"

text \<open>
  An explicit transaction: an error rolls the tables back, but neither the clock nor the random
  identifiers nor the sequence of inode numbers.
\<close>

definition transaction :: "(db, 'e, 'a) op \<Rightarrow> (db, 'e, 'a) op" where
  "transaction m = (\<lambda>d.
     case m d of
       (Inr a, d') \<Rightarrow> (Inr a, d')
     | (Inl e, d') \<Rightarrow>
         (Inl e, d\<lparr>d_clock := d_clock d', d_draws := d_draws d', d_inode_seq := d_inode_seq d'\<rparr>))"

section \<open>Lemmas\<close>

lemma new_v4_apply [simp]: "new_v4 d = (Inr (d_entropy d (d_draws d)), d\<lparr>d_draws := Suc (d_draws d)\<rparr>)"
  by (simp add: new_v4_def)

lemma now_apply [simp]: "now d = (Inr (d_clock d), d\<lparr>d_clock := Suc (d_clock d)\<rparr>)"
  by (simp add: now_def)

lemma bindE_new_v4 [simp]:
  "bindE new_v4 f d = f (d_entropy d (d_draws d)) (d\<lparr>d_draws := Suc (d_draws d)\<rparr>)"
  by (simp add: bindE_def)

lemma bindE_now [simp]: "bindE now f d = f (d_clock d) (d\<lparr>d_clock := Suc (d_clock d)\<rparr>)"
  by (simp add: bindE_def)

lemma set_insert_by [simp]: "set (insert_by le x xs) = insert x (set xs)"
  by (induction xs) auto

lemma set_sort_by [simp]: "set (sort_by le xs) = set xs"
  unfolding sort_by_def by (induction xs) auto

lemma sort_by_eq_Nil [simp]: "sort_by le xs = [] \<longleftrightarrow> xs = []"
  by (metis set_empty set_sort_by)

lemma varchar_short: "length s \<le> n \<Longrightarrow> varchar n s"
  using char_count_le [of s] by (simp add: varchar_def)

text \<open>What the compound deletions leave alone.\<close>

lemma delete_text_lines_frame [simp]:
  "d_tenants (delete_text_lines P d) = d_tenants d" "d_inodes (delete_text_lines P d) = d_inodes d"
  "d_blocks (delete_text_lines P d) = d_blocks d" "d_layers (delete_text_lines P d) = d_layers d"
  "d_entries (delete_text_lines P d) = d_entries d" "d_current (delete_text_lines P d) = d_current d"
  "d_text_meta (delete_text_lines P d) = d_text_meta d" "d_mounts (delete_text_lines P d) = d_mounts d"
  "d_published (delete_text_lines P d) = d_published d" "d_inode_seq (delete_text_lines P d) = d_inode_seq d"
  "d_clock (delete_text_lines P d) = d_clock d" "d_entropy (delete_text_lines P d) = d_entropy d"
  "d_draws (delete_text_lines P d) = d_draws d"
  "d_text_lines (delete_text_lines P d) = delete_rows P (d_text_lines d)"
  by (simp_all add: delete_text_lines_def)

lemma delete_text_meta_frame [simp]:
  "d_tenants (delete_text_meta P d) = d_tenants d" "d_inodes (delete_text_meta P d) = d_inodes d"
  "d_blocks (delete_text_meta P d) = d_blocks d" "d_layers (delete_text_meta P d) = d_layers d"
  "d_entries (delete_text_meta P d) = d_entries d" "d_current (delete_text_meta P d) = d_current d"
  "d_mounts (delete_text_meta P d) = d_mounts d" "d_published (delete_text_meta P d) = d_published d"
  "d_inode_seq (delete_text_meta P d) = d_inode_seq d" "d_clock (delete_text_meta P d) = d_clock d"
  "d_entropy (delete_text_meta P d) = d_entropy d" "d_draws (delete_text_meta P d) = d_draws d"
  "d_text_meta (delete_text_meta P d) = delete_rows P (d_text_meta d)"
  by (simp_all add: delete_text_meta_def Let_def)

lemma delete_entries_frame [simp]:
  "d_tenants (delete_entries P d) = d_tenants d" "d_inodes (delete_entries P d) = d_inodes d"
  "d_blocks (delete_entries P d) = d_blocks d" "d_current (delete_entries P d) = d_current d"
  "d_text_blocks (delete_entries P d) = d_text_blocks d" "d_text_meta (delete_entries P d) = d_text_meta d"
  "d_text_lines (delete_entries P d) = d_text_lines d" "d_mounts (delete_entries P d) = d_mounts d"
  "d_published (delete_entries P d) = d_published d" "d_inode_seq (delete_entries P d) = d_inode_seq d"
  "d_clock (delete_entries P d) = d_clock d" "d_entropy (delete_entries P d) = d_entropy d"
  "d_draws (delete_entries P d) = d_draws d"
  "d_entries (delete_entries P d) = delete_rows P (d_entries d)"
  by (simp_all add: delete_entries_def)

lemma delete_inode_rows_frame [simp]:
  "d_tenants (delete_inode_rows t i d) = d_tenants d"
  "d_current (delete_inode_rows t i d) = d_current d" "d_mounts (delete_inode_rows t i d) = d_mounts d"
  "d_published (delete_inode_rows t i d) = d_published d"
  "d_inode_seq (delete_inode_rows t i d) = d_inode_seq d"
  by (simp_all add: delete_inode_rows_def Let_def)

lemma delete_layer_rows_frame [simp]:
  "d_tenants (delete_layer_rows P d) = d_tenants d" "d_inodes (delete_layer_rows P d) = d_inodes d"
  "d_blocks (delete_layer_rows P d) = d_blocks d" "d_current (delete_layer_rows P d) = d_current d"
  "d_published (delete_layer_rows P d) = d_published d" "d_inode_seq (delete_layer_rows P d) = d_inode_seq d"
  "d_clock (delete_layer_rows P d) = d_clock d" "d_entropy (delete_layer_rows P d) = d_entropy d"
  "d_draws (delete_layer_rows P d) = d_draws d"
  by (simp_all add: delete_layer_rows_def Let_def)

text \<open>The statistics triggers change no identity of a layer.\<close>

definition layer_shape :: "layer \<Rightarrow> uuid \<times> uuid \<times> uuid option \<times> str \<times> bool" where
  "layer_shape l = (ly_id l, ly_tenant_id l, ly_parent_id l, ly_name l, ly_is_readonly l)"

lemma map_shape_entry_deleted: "map layer_shape (fold entry_deleted es ls) = map layer_shape ls"
proof (induction es arbitrary: ls)
  case (Cons e es)
  have "map layer_shape (entry_deleted e ls) = map layer_shape ls"
    unfolding entry_deleted_def by (rule map_update_rows_same) (simp add: layer_shape_def)
  with Cons show ?case by simp
qed simp

lemma map_shape_entry_inserted [simp]: "map layer_shape (entry_inserted e ls) = map layer_shape ls"
  unfolding entry_inserted_def by (rule map_update_rows_same) (simp add: layer_shape_def)

lemma map_shape_entry_updated [simp]: "map layer_shape (entry_updated e e' ls) = map layer_shape ls"
  unfolding entry_updated_def by (rule map_update_rows_same) (simp add: layer_shape_def)

lemma map_shape_delete_entries [simp]:
  "map layer_shape (d_layers (delete_entries P d)) = map layer_shape (d_layers d)"
  by (simp add: delete_entries_def map_shape_entry_deleted)

lemma map_shape_delete_layer_rows [simp]:
  "map layer_shape (d_layers (delete_layer_rows P d)) = map layer_shape (delete_rows P (d_layers d))"
  by (simp add: delete_layer_rows_def Let_def)

text \<open>The reference-count triggers keep identity and content of a block.\<close>

definition block_shape :: "text_block \<Rightarrow> uuid \<times> str \<times> str" where
  "block_shape b = (tb_id b, tb_content_hash b, tb_content b)"

lemma map_block_shape_line_deleted [simp]: "map block_shape (fold line_deleted ls bs) = map block_shape bs"
proof (induction ls arbitrary: bs)
  case (Cons l ls)
  have "map block_shape (line_deleted l bs) = map block_shape bs"
    unfolding line_deleted_def by (rule map_update_rows_same) (simp add: block_shape_def)
  with Cons show ?case by simp
qed simp

lemma map_block_shape_line_inserted [simp]: "map block_shape (line_inserted t b bs) = map block_shape bs"
  unfolding line_inserted_def by (rule map_update_rows_same) (simp add: block_shape_def)

lemma map_block_shape_delete_text_lines [simp]:
  "map block_shape (d_text_blocks (delete_text_lines P d)) = map block_shape (d_text_blocks d)"
  by (simp add: delete_text_lines_def)

lemma map_block_shape_delete_text_meta [simp]:
  "map block_shape (d_text_blocks (delete_text_meta P d)) = map block_shape (d_text_blocks d)"
  by (simp add: delete_text_meta_def Let_def)

section \<open>The constraints of the schema\<close>

text \<open>
  The primary keys and unique constraints of all tables, the fact that the sequence is
  ahead of every inode number, and that the root of a tenant has no parent.  Every operation of the development keeps them.
\<close>

definition layer_name_key :: "layer \<Rightarrow> uuid \<times> str" where
  "layer_name_key l = (ly_tenant_id l, ly_name l)"

definition entry_key :: "layer_entry \<Rightarrow> uuid \<times> str" where
  "entry_key e = (le_layer_id e, le_path e)"

definition line_key :: "text_line_map \<Rightarrow> (uuid \<times> int \<times> uuid) \<times> int" where
  "line_key l = (line_file_key l, tl_line_number l)"

definition sibling_key :: "inode \<Rightarrow> uuid \<times> int \<times> str" where
  "sibling_key i = (ino_tenant_id i, the (ino_parent_id i), ino_name i)"

definition children_only :: "inode list \<Rightarrow> inode list" where
  "children_only is = filter (\<lambda>i. ino_parent_id i \<noteq> None) is"

definition mount_name_key :: "mount_row \<Rightarrow> uuid \<times> str" where
  "mount_name_key m = (mr_tenant_id m, mr_name m)"

definition mount_path_key :: "mount_row \<Rightarrow> uuid \<times> str" where
  "mount_path_key m = (mr_tenant_id m, mr_virtual_path m)"

definition parent_below :: "int \<Rightarrow> inode \<Rightarrow> bool" where
  "parent_below n i \<longleftrightarrow> (case ino_parent_id i of None \<Rightarrow> True | Some p \<Rightarrow> p < n)"

lemma parent_below_iff [simp]: "parent_below n i \<longleftrightarrow> (\<forall>p. ino_parent_id i = Some p \<longrightarrow> p < n)"
  by (simp add: parent_below_def split: option.split)

definition wf_inodes :: "db \<Rightarrow> bool" where
  "wf_inodes d \<longleftrightarrow>
     distinct (map inode_key (d_inodes d)) \<and>
     distinct (map sibling_key (children_only (d_inodes d))) \<and>
     (\<forall>i \<in> set (d_inodes d). ino_id i < d_inode_seq d \<and> parent_below (d_inode_seq d) i) \<and>
     (\<forall>r \<in> set (d_tenants d). tn_root_inode_id r < d_inode_seq d \<and>
        (\<forall>i \<in> set (d_inodes d). inode_key i = (tn_id r, tn_root_inode_id r) \<longrightarrow> ino_parent_id i = None)) \<and>
     distinct (map tn_id (d_tenants d)) \<and> distinct (map tn_name (d_tenants d))"

definition wf_files :: "db \<Rightarrow> bool" where
  "wf_files d \<longleftrightarrow>
     distinct (map block_key (d_blocks d)) \<and>
     distinct (map tb_id (d_text_blocks d)) \<and>
     distinct (map tb_content_hash (d_text_blocks d)) \<and>
     distinct (map meta_key (d_text_meta d)) \<and>
     distinct (map line_key (d_text_lines d)) \<and>
     (\<forall>l \<in> set (d_text_lines d). line_file_key l \<in> set (map meta_key (d_text_meta d)))"

definition wf_layers :: "db \<Rightarrow> bool" where
  "wf_layers d \<longleftrightarrow>
     distinct (map ly_id (d_layers d)) \<and>
     distinct (map layer_name_key (d_layers d)) \<and>
     distinct (map entry_key (d_entries d)) \<and>
     distinct (map tcl_tenant_id (d_current d))"

definition wf_mounts :: "db \<Rightarrow> bool" where
  "wf_mounts d \<longleftrightarrow>
     distinct (map mr_id (d_mounts d)) \<and>
     distinct (map mount_name_key (d_mounts d)) \<and>
     distinct (map mount_path_key (d_mounts d)) \<and>
     distinct (map pr_id (d_published d)) \<and>
     distinct (map pr_name (d_published d)) \<and>
     distinct (map pr_mount_entry_id (d_published d))"

definition wf_db :: "db \<Rightarrow> bool" where
  "wf_db d \<longleftrightarrow> wf_inodes d \<and> wf_files d \<and> wf_layers d \<and> wf_mounts d"

lemmas wf_parts = wf_inodes_def wf_files_def wf_layers_def wf_mounts_def

lemma map_via_shape:
  "map layer_shape ls = map layer_shape ls' \<Longrightarrow>
   map ly_id ls = map ly_id ls' \<and> map layer_name_key ls = map layer_name_key ls' \<and>
   map ly_parent_id ls = map ly_parent_id ls' \<and> map ly_tenant_id ls = map ly_tenant_id ls'"
proof -
  assume eq: "map layer_shape ls = map layer_shape ls'"
  have p: "ly_id = fst \<circ> layer_shape" "ly_tenant_id = fst \<circ> snd \<circ> layer_shape"
    "ly_parent_id = fst \<circ> snd \<circ> snd \<circ> layer_shape"
    "layer_name_key = (\<lambda>s. (fst (snd s), fst (snd (snd (snd s))))) \<circ> layer_shape"
    by (auto simp: layer_shape_def layer_name_key_def)
  show ?thesis by (simp only: p map_map [symmetric] eq o_assoc [symmetric])
qed

lemma map_via_block_shape:
  "map block_shape bs = map block_shape bs' \<Longrightarrow>
   map tb_id bs = map tb_id bs' \<and> map tb_content_hash bs = map tb_content_hash bs'"
proof -
  assume eq: "map block_shape bs = map block_shape bs'"
  have p: "tb_id = fst \<circ> block_shape" "tb_content_hash = fst \<circ> snd \<circ> block_shape"
    by (auto simp: block_shape_def)
  show ?thesis by (simp only: p map_map [symmetric] eq o_assoc [symmetric])
qed

lemma map_delete_rows_cong:
  "map f xs = map f ys \<Longrightarrow> (\<And>x. P x = Q (f x)) \<Longrightarrow> map f (delete_rows P xs) = map f (delete_rows P ys)"
proof (induction xs arbitrary: ys)
  case (Cons x xs)
  then show ?case by (cases ys) (auto simp: delete_rows_def)
qed (simp add: delete_rows_def)

lemma wf_delete_text_meta:
  assumes "wf_files d"
  shows "wf_files (delete_text_meta P d)"
proof -
  have m: "map tb_id (d_text_blocks (delete_text_meta P d)) = map tb_id (d_text_blocks d)"
    "map tb_content_hash (d_text_blocks (delete_text_meta P d)) = map tb_content_hash (d_text_blocks d)"
    using map_via_block_shape [OF map_block_shape_delete_text_meta] by simp_all
  have l: "d_text_lines (delete_text_meta P d) =
      delete_rows (\<lambda>l. line_file_key l \<in> set (map meta_key (filter P (d_text_meta d)))) (d_text_lines d)"
    by (simp add: delete_text_meta_def Let_def)
  show ?thesis
    using assms unfolding wf_files_def m l
    by (auto simp: distinct_map_delete_rows)
qed

lemma wf_delete_entries: "wf_layers d \<Longrightarrow> wf_layers (delete_entries P d)"
  using map_via_shape [OF map_shape_delete_entries [of P d]]
  by (simp add: wf_layers_def distinct_map_delete_rows)

lemma wf_parts_frame:
  "d_inodes d' = d_inodes d \<Longrightarrow> d_inode_seq d' = d_inode_seq d \<Longrightarrow> d_tenants d' = d_tenants d \<Longrightarrow>
     wf_inodes d' = wf_inodes d"
  "d_mounts d' = d_mounts d \<Longrightarrow> d_published d' = d_published d \<Longrightarrow> wf_mounts d' = wf_mounts d"
  by (simp_all add: wf_inodes_def wf_mounts_def)

lemma wf_delete_inode_rows:
  assumes "wf_db d"
  shows "wf_db (delete_inode_rows t i d)"
proof -
  have ch: "distinct (map sibling_key (children_only (delete_rows P (d_inodes d))))" for P
  proof -
    have "children_only (delete_rows P (d_inodes d)) = delete_rows P (children_only (d_inodes d))"
      by (simp add: children_only_def filter_delete_rows)
    then show ?thesis using assms by (simp add: wf_db_def wf_inodes_def distinct_map_delete_rows)
  qed
  have "wf_files (d\<lparr>d_inodes := xs, d_blocks := delete_rows Q (d_blocks d)\<rparr>)" for xs Q
    using assms by (simp add: wf_db_def wf_files_def distinct_map_delete_rows)
  then have f: "wf_files (delete_entries R (d\<lparr>d_inodes := xs, d_blocks := delete_rows Q (d_blocks d)\<rparr>))"
    for xs Q R by (simp add: wf_files_def)
  have "wf_layers (d\<lparr>d_inodes := xs, d_blocks := ys\<rparr>)" for xs ys
    using assms by (simp add: wf_db_def wf_layers_def)
  from wf_delete_entries [OF this]
  have l: "wf_layers (delete_entries R (d\<lparr>d_inodes := xs, d_blocks := ys\<rparr>))" for R xs ys .
  have "wf_layers (delete_text_meta P e) = wf_layers e" for P e by (simp add: wf_layers_def)
  with l f ch assms show ?thesis
    by (auto simp: wf_db_def delete_inode_rows_def Let_def wf_delete_text_meta wf_inodes_def
        distinct_map_delete_rows wf_mounts_def)
qed

lemma wf_delete_layer_rows:
  assumes "wf_db d"
  shows "wf_db (delete_layer_rows P d)"
proof -
  let ?m = "update_rows
     (\<lambda>m. case mr_current_layer_id m of None \<Rightarrow> False | Some l \<Rightarrow> l \<in> set (map ly_id (filter P (d_layers d))))
     (\<lambda>m. m\<lparr>mr_current_layer_id := None\<rparr>) (d_mounts d)"
  let ?d1 = "d\<lparr>d_layers := delete_rows P (d_layers d), d_mounts := ?m\<rparr>"
  have mk: "map mr_id ?m = map mr_id (d_mounts d)" "map mount_name_key ?m = map mount_name_key (d_mounts d)"
    "map mount_path_key ?m = map mount_path_key (d_mounts d)"
    by (rule map_update_rows_same; simp add: mount_name_key_def mount_path_key_def)+
  have "wf_layers ?d1"
    using assms by (simp add: wf_db_def wf_layers_def distinct_map_delete_rows)
  then have l: "wf_layers (delete_entries Q ?d1)" for Q by (rule wf_delete_entries)
  have f: "wf_files (delete_entries Q ?d1)" for Q
    using assms by (simp add: wf_db_def wf_files_def)
  have "wf_layers (delete_text_meta Q e) = wf_layers e" for Q e by (simp add: wf_layers_def)
  moreover have "wf_mounts (delete_layer_rows P d)"
    using assms mk by (simp add: wf_db_def wf_mounts_def delete_layer_rows_def Let_def)
  moreover have "wf_inodes (delete_layer_rows P d)"
    using assms by (simp add: wf_db_def wf_inodes_def)
  ultimately show ?thesis
    using l f by (simp add: wf_db_def delete_layer_rows_def Let_def wf_delete_text_meta del: set_map)
qed

lemma preserves_wf_new_v4 [preserves_rules]: "preserves wf_db new_v4"
  by (rule preservesI) (simp add: wf_db_def wf_parts)

lemma preserves_wf_now [preserves_rules]: "preserves wf_db now"
  by (rule preservesI) (simp add: wf_db_def wf_parts)

section \<open>Random identifiers\<close>

text \<open>
  Version 4 UUIDs are assumed not to repeat: the draws are distinct, and every generated
  identifier in the database has been drawn before.
\<close>

definition db_ids :: "db \<Rightarrow> uuid set" where
  "db_ids d = blk_id ` set (d_blocks d) \<union> tb_id ` set (d_text_blocks d) \<union>
     le_id ` set (d_entries d) \<union> ly_id ` set (d_layers d) \<union>
     mr_id ` set (d_mounts d) \<union> pr_id ` set (d_published d)"

definition ids_drawn :: "db \<Rightarrow> bool" where
  "ids_drawn d \<longleftrightarrow> inj (d_entropy d) \<and> db_ids d \<subseteq> d_entropy d ` {..<d_draws d}"

lemma ids_drawn_fresh: "ids_drawn d \<Longrightarrow> d_entropy d (d_draws d) \<notin> db_ids d"
proof
  assume d: "ids_drawn d" and "d_entropy d (d_draws d) \<in> db_ids d"
  then have "d_entropy d (d_draws d) \<in> d_entropy d ` {..<d_draws d}"
    unfolding ids_drawn_def by blast
  then obtain n where n: "n < d_draws d" "d_entropy d (d_draws d) = d_entropy d n" by auto
  from d have "inj (d_entropy d)" by (simp add: ids_drawn_def)
  from injD [OF this n(2)] n(1) show False by simp
qed

lemma ids_drawn_new:
  assumes "ids_drawn d"
  shows "r1 \<in> set (d_blocks d) \<Longrightarrow> blk_id r1 \<noteq> d_entropy d (d_draws d)"
    and "r2 \<in> set (d_text_blocks d) \<Longrightarrow> tb_id r2 \<noteq> d_entropy d (d_draws d)"
    and "r3 \<in> set (d_entries d) \<Longrightarrow> le_id r3 \<noteq> d_entropy d (d_draws d)"
    and "r4 \<in> set (d_layers d) \<Longrightarrow> ly_id r4 \<noteq> d_entropy d (d_draws d)"
    and "r5 \<in> set (d_mounts d) \<Longrightarrow> mr_id r5 \<noteq> d_entropy d (d_draws d)"
    and "r6 \<in> set (d_published d) \<Longrightarrow> pr_id r6 \<noteq> d_entropy d (d_draws d)"
  using ids_drawn_fresh [OF assms] unfolding db_ids_def by (metis UnI1 UnI2 imageI)+

lemma ids_drawn_step:
  assumes "ids_drawn d" "d_entropy d' = d_entropy d" "d_draws d \<le> d_draws d'"
    and "db_ids d' \<subseteq> db_ids d \<union> d_entropy d ` {d_draws d..<d_draws d'}"
  shows "ids_drawn d'"
proof -
  have "db_ids d \<union> d_entropy d ` {d_draws d..<d_draws d'}
      \<subseteq> d_entropy d ` {..<d_draws d} \<union> d_entropy d ` {d_draws d..<d_draws d'}"
    using assms(1) unfolding ids_drawn_def by blast
  also have "\<dots> = d_entropy d ` {..<d_draws d'}"
    unfolding image_Un [symmetric] using assms(3) by (simp add: ivl_disj_un_one(2))
  finally have "db_ids d' \<subseteq> d_entropy d ` {..<d_draws d'}" using assms(4) by (rule order_trans [rotated])
  with assms(1,2) show ?thesis unfolding ids_drawn_def by simp
qed

lemma wf_empty_db [simp]: "wf_db (empty_db e)"
  by (simp add: empty_db_def wf_db_def wf_parts children_only_def)

lemma ids_drawn_empty_db: "inj e \<Longrightarrow> ids_drawn (empty_db e)"
  by (simp add: empty_db_def ids_drawn_def db_ids_def)

end
