(* ===== verification/LayerRepo.thy ===== *)
theory LayerRepo
  imports Database
begin

text \<open>
  The repository of layers and layer entries: \<open>src/src/storage/layer.rs\<close>.  The recursive
  query of \<open>get_layer_chain\<close> follows parents until a layer has none (or its parent is not a
  layer of the tenant); the fuel is one more than the number of layers, and running out of
  it (the error \<open>Diverges\<close>) is excluded for every reachable database.
\<close>

definition layer_create :: "create_layer_input \<Rightarrow> layer db_op" where
  "layer_create inp =
     bindE new_v4 (\<lambda>layer_id. bindE now (\<lambda>t d.
       let row = \<lparr>ly_id = layer_id, ly_tenant_id = cl_tenant_id inp, ly_parent_id = cl_parent_id inp,
                  ly_name = cl_name inp, ly_description = cl_description inp,
                  ly_file_count = 0, ly_total_size = 0, ly_status = Active, ly_is_readonly = False,
                  ly_tags = cl_tags inp, ly_created_at = t, ly_created_by = cl_created_by inp,
                  ly_mount_entry_id = cl_mount_entry_id inp, ly_is_working = cl_is_working inp\<rparr>
       in if \<not> varchar 255 (cl_name inp) \<or> \<not> varchar 255 (cl_created_by inp) then (Inl ValueTooLong, d)
          else if exists_row (\<lambda>l. ly_id l = layer_id) (d_layers d) then (Inl UniqueViolation, d)
          else if exists_row (\<lambda>l. layer_name_key l = layer_name_key row) (d_layers d)
            then (Inl UniqueViolation, d)
          else if cl_is_working inp \<and> cl_mount_entry_id inp \<noteq> None \<and>
                  exists_row (\<lambda>l. ly_is_working l \<and> ly_mount_entry_id l = cl_mount_entry_id inp) (d_layers d)
            then (Inl UniqueViolation, d)
          else if \<not> exists_row (\<lambda>r. tn_id r = cl_tenant_id inp) (d_tenants d) then (Inl ForeignKeyViolation, d)
          else if (case cl_parent_id inp of None \<Rightarrow> False
                   | Some p \<Rightarrow> \<not> exists_row (\<lambda>l. ly_id l = p) (d_layers d)) then (Inl ForeignKeyViolation, d)
          else if (case cl_mount_entry_id inp of None \<Rightarrow> False
                   | Some m \<Rightarrow> \<not> exists_row (\<lambda>r. mr_id r = m) (d_mounts d)) then (Inl ForeignKeyViolation, d)
          else (Inr row, d\<lparr>d_layers := d_layers d @ [row]\<rparr>)))"

definition layer_get :: "uuid \<Rightarrow> uuid \<Rightarrow> layer option db_op" where
  "layer_get t l = gets (\<lambda>d. find (\<lambda>r. ly_tenant_id r = t \<and> ly_id r = l) (d_layers d))"

definition layer_list :: "uuid \<Rightarrow> layer list db_op" where
  "layer_list t = gets (\<lambda>d. rev (sort_key ly_created_at (filter (\<lambda>r. ly_tenant_id r = t) (d_layers d))))"

text \<open>The recursive query: the layer itself, then the chain of its parent.\<close>

fun layer_chain_from :: "nat \<Rightarrow> layer list \<Rightarrow> uuid \<Rightarrow> uuid \<Rightarrow> layer list option" where
  "layer_chain_from 0 ls t l = None"
| "layer_chain_from (Suc n) ls t l =
     (case find (\<lambda>r. ly_id r = l \<and> ly_tenant_id r = t) ls of
        None \<Rightarrow> Some []
      | Some r \<Rightarrow>
          (case ly_parent_id r of
             None \<Rightarrow> Some [r]
           | Some p \<Rightarrow> map_option (\<lambda>c. r # c) (layer_chain_from n ls t p)))"

definition layer_get_layer_chain :: "uuid \<Rightarrow> uuid \<Rightarrow> layer list db_op" where
  "layer_get_layer_chain t l = (\<lambda>d.
     case layer_chain_from (Suc (length (d_layers d))) (d_layers d) t l of
       None \<Rightarrow> (Inl Diverges, d)
     | Some chain \<Rightarrow> (Inr chain, d))"

text \<open>
  A layer that is the parent of another layer or the current layer of a tenant cannot be
  deleted (\<open>ON DELETE RESTRICT\<close>).
\<close>

definition layer_delete :: "uuid \<Rightarrow> uuid \<Rightarrow> bool db_op" where
  "layer_delete t l = (\<lambda>d.
     if \<not> exists_row (\<lambda>r. ly_tenant_id r = t \<and> ly_id r = l) (d_layers d) then (Inr False, d)
     else if exists_row (\<lambda>r. ly_parent_id r = Some l) (d_layers d) then (Inl ForeignKeyViolation, d)
     else if exists_row (\<lambda>c. tcl_layer_id c = l) (d_current d) then (Inl ForeignKeyViolation, d)
     else (Inr True, delete_layer_rows (\<lambda>r. ly_tenant_id r = t \<and> ly_id r = l) d))"

definition layer_add_entry :: "create_layer_entry_input \<Rightarrow> layer_entry db_op" where
  "layer_add_entry inp =
     bindE new_v4 (\<lambda>entry_id. bindE now (\<lambda>t d.
       let row = \<lparr>le_id = entry_id, le_layer_id = ce_layer_id inp, le_tenant_id = ce_tenant_id inp,
                  le_inode_id = ce_inode_id inp, le_path = ce_path inp,
                  le_change_type = ce_change_type inp, le_size_delta = ce_size_delta inp,
                  le_text_changes = ce_text_changes inp, le_created_at = t\<rparr>
       in if exists_row (\<lambda>e. le_id e = entry_id) (d_entries d) then (Inl UniqueViolation, d)
          else case find (\<lambda>e. entry_key e = (ce_layer_id inp, ce_path inp)) (d_entries d) of
            Some old \<Rightarrow>
              (let upd = (\<lambda>e. e\<lparr>le_change_type := ce_change_type inp, le_size_delta := ce_size_delta inp,
                               le_text_changes := ce_text_changes inp, le_created_at := t\<rparr>)
               in (Inr (upd old),
                   d\<lparr>d_entries := update_rows (\<lambda>e. entry_key e = (ce_layer_id inp, ce_path inp)) upd (d_entries d),
                     d_layers := entry_updated old (upd old) (d_layers d)\<rparr>))
          | None \<Rightarrow>
              if \<not> exists_row (\<lambda>r. ly_id r = ce_layer_id inp) (d_layers d) then (Inl ForeignKeyViolation, d)
              else if \<not> exists_row (\<lambda>r. inode_key r = (ce_tenant_id inp, ce_inode_id inp)) (d_inodes d)
                then (Inl ForeignKeyViolation, d)
              else (Inr row, d\<lparr>d_entries := d_entries d @ [row],
                              d_layers := entry_inserted row (d_layers d)\<rparr>)))"

definition layer_list_entries :: "uuid \<Rightarrow> uuid \<Rightarrow> layer_entry list db_op" where
  "layer_list_entries t l = gets (\<lambda>d. sort_key le_created_at
     (filter (\<lambda>e. le_tenant_id e = t \<and> le_layer_id e = l) (d_entries d)))"

definition layer_get_current_layer :: "uuid \<Rightarrow> uuid option db_op" where
  "layer_get_current_layer t =
     gets (\<lambda>d. map_option tcl_layer_id (find (\<lambda>c. tcl_tenant_id c = t) (d_current d)))"

definition layer_set_current_layer :: "uuid \<Rightarrow> uuid \<Rightarrow> unit db_op" where
  "layer_set_current_layer t l =
     bindE now (\<lambda>now d.
       if \<not> exists_row (\<lambda>r. ly_id r = l) (d_layers d) then (Inl ForeignKeyViolation, d)
       else if exists_row (\<lambda>c. tcl_tenant_id c = t) (d_current d)
         then (Inr (), d\<lparr>d_current := update_rows (\<lambda>c. tcl_tenant_id c = t)
                  (\<lambda>c. c\<lparr>tcl_layer_id := l, tcl_updated_at := now\<rparr>) (d_current d)\<rparr>)
       else if \<not> exists_row (\<lambda>r. tn_id r = t) (d_tenants d) then (Inl ForeignKeyViolation, d)
       else (Inr (), d\<lparr>d_current := d_current d @
                  [\<lparr>tcl_tenant_id = t, tcl_layer_id = l, tcl_updated_at = now\<rparr>]\<rparr>))"

section \<open>Layer chains of mounts\<close>

definition layer_create_initial_layers :: "ext \<Rightarrow> uuid \<Rightarrow> uuid \<Rightarrow> (layer \<times> layer) db_op" where
  "layer_create_initial_layers x t m =
     bindE (layer_create \<lparr>cl_tenant_id = t, cl_parent_id = None,
              cl_name = ''base-'' @ uuid_to_string x m, cl_description = Some ''Initial base layer'',
              cl_tags = None, cl_created_by = ''system'', cl_mount_entry_id = Some m,
              cl_is_working = False\<rparr>) (\<lambda>base.
     bindE (layer_create \<lparr>cl_tenant_id = t, cl_parent_id = Some (ly_id base),
              cl_name = ''working-'' @ uuid_to_string x m, cl_description = Some ''Working layer'',
              cl_tags = None, cl_created_by = ''system'', cl_mount_entry_id = Some m,
              cl_is_working = True\<rparr>) (\<lambda>working.
     ret (base, working)))"

definition layer_get_mount_layers :: "uuid \<Rightarrow> layer list db_op" where
  "layer_get_mount_layers m =
     gets (\<lambda>d. sort_key ly_created_at (filter (\<lambda>r. ly_mount_entry_id r = Some m) (d_layers d)))"

definition layer_get_working_layer :: "uuid \<Rightarrow> layer option db_op" where
  "layer_get_working_layer m =
     gets (\<lambda>d. find (\<lambda>r. ly_mount_entry_id r = Some m \<and> ly_is_working r) (d_layers d))"

text \<open>The \<open>UPDATE\<close> of \<open>create_snapshot\<close>: the working layer becomes the named snapshot.\<close>

definition layer_freeze_working :: "uuid \<Rightarrow> str \<Rightarrow> str option \<Rightarrow> unit db_op" where
  "layer_freeze_working l name descr = (\<lambda>d.
     let upd = (\<lambda>r. r\<lparr>ly_is_working := False, ly_name := name, ly_description := descr\<rparr>) in
     if \<not> varchar 255 name then (Inl ValueTooLong, d)
     else if exists_row (\<lambda>r. ly_id r = l \<and>
               exists_row (\<lambda>r'. ly_id r' \<noteq> l \<and> layer_name_key r' = (ly_tenant_id r, name)) (d_layers d)) (d_layers d)
       then (Inl UniqueViolation, d)
     else (Inr (), d\<lparr>d_layers := update_rows (\<lambda>r. ly_id r = l) upd (d_layers d)\<rparr>))"

definition layer_create_snapshot :: "ext \<Rightarrow> uuid \<Rightarrow> str \<Rightarrow> str option \<Rightarrow> layer db_op" where
  "layer_create_snapshot x m name descr =
     bindE (layer_get_working_layer m) (\<lambda>w.
     bindE (ok_or (Message ''Working layer not found for mount'') w) (\<lambda>working.
     bindE (layer_freeze_working (ly_id working) name descr) (\<lambda>_.
       layer_create \<lparr>cl_tenant_id = ly_tenant_id working, cl_parent_id = Some (ly_id working),
              cl_name = ''working-'' @ uuid_to_string x m, cl_description = Some ''Working layer'',
              cl_tags = None, cl_created_by = ''system'', cl_mount_entry_id = Some m,
              cl_is_working = True\<rparr>)))"

text \<open>
  \<open>batch_snapshot\<close> first reads the id and the current layer of each mount.  It decodes the
  nullable column \<open>current_layer_id\<close> as a plain UUID, so a mount whose current layer is
  NULL gives a decoding error, which is reported as a skipped mount.
\<close>

record snapshot_result =
  sr_mount_name :: str
  sr_layer_id :: "uuid option"
  sr_skipped :: bool
  sr_reason :: "str option"

text \<open>\<open>format!("{}", e)\<close>: an error of the code's own shows its message.\<close>

definition db_error_text :: "ext \<Rightarrow> db_error \<Rightarrow> str" where
  "db_error_text x e = (case e of Message m \<Rightarrow> m | _ \<Rightarrow> show_db_error x e)"

definition mount_ref :: "uuid \<Rightarrow> str \<Rightarrow> (uuid \<times> uuid) option db_op" where
  "mount_ref t name = (\<lambda>d.
     case find (\<lambda>m. mr_tenant_id m = t \<and> mr_name m = name) (d_mounts d) of
       None \<Rightarrow> (Inr None, d)
     | Some m \<Rightarrow> (case mr_current_layer_id m of
           None \<Rightarrow> (Inl DecodeError, d)
         | Some l \<Rightarrow> (Inr (Some (mr_id m, l)), d)))"

definition snapshot_mount :: "ext \<Rightarrow> uuid \<Rightarrow> str \<Rightarrow> bool \<Rightarrow> str \<Rightarrow> snapshot_result db_op" where
  "snapshot_mount x t name skip_unchanged mount_name =
     bindE (attempt (mount_ref t mount_name)) (\<lambda>r.
       case r of
         Inr (Some (mount_entry_id, _)) \<Rightarrow>
           bindE (if skip_unchanged then layer_get_working_layer mount_entry_id else ret None) (\<lambda>w.
             if (case w of None \<Rightarrow> False | Some l \<Rightarrow> ly_file_count l = 0)
             then ret \<lparr>sr_mount_name = mount_name, sr_layer_id = None, sr_skipped = True,
                       sr_reason = Some ''No changes''\<rparr>
             else bindE (attempt (layer_create_snapshot x mount_entry_id name None)) (\<lambda>s.
               case s of
                 Inr l \<Rightarrow> ret \<lparr>sr_mount_name = mount_name, sr_layer_id = Some (ly_id l),
                                sr_skipped = False, sr_reason = None\<rparr>
               | Inl e \<Rightarrow> ret \<lparr>sr_mount_name = mount_name, sr_layer_id = None, sr_skipped = True,
                                sr_reason = Some (''Error: '' @ db_error_text x e)\<rparr>))
       | Inr None \<Rightarrow> ret \<lparr>sr_mount_name = mount_name, sr_layer_id = None, sr_skipped = True,
                           sr_reason = Some ''Mount not found''\<rparr>
       | Inl e \<Rightarrow> ret \<lparr>sr_mount_name = mount_name, sr_layer_id = None, sr_skipped = True,
                        sr_reason = Some (''Database error: '' @ db_error_text x e)\<rparr>)"

definition layer_batch_snapshot ::
  "ext \<Rightarrow> uuid \<Rightarrow> str list \<Rightarrow> str \<Rightarrow> bool \<Rightarrow> snapshot_result list db_op" where
  "layer_batch_snapshot x t mount_names name skip_unchanged =
     mapE (snapshot_mount x t name skip_unchanged) mount_names"

section \<open>The constraints hold after every operation\<close>

lemmas layer_reads = layer_get_def layer_list_def layer_list_entries_def layer_get_current_layer_def
  layer_get_mount_layers_def layer_get_working_layer_def

text \<open>
  The part of the database on which the shape of the layer graph depends: identities, parents
  and write protection of the layers, and the current layer of each tenant.
\<close>

definition layer_view :: "db \<Rightarrow> (uuid \<times> uuid \<times> uuid option \<times> str \<times> bool) list \<times> tenant_current_layer list" where
  "layer_view d = (map layer_shape (d_layers d), d_current d)"

lemma layer_create_InrD:
  assumes "layer_create inp d = (Inr r, d')"
  shows "r = \<lparr>ly_id = d_entropy d (d_draws d), ly_tenant_id = cl_tenant_id inp, ly_parent_id = cl_parent_id inp,
             ly_name = cl_name inp, ly_description = cl_description inp,
             ly_file_count = 0, ly_total_size = 0, ly_status = Active, ly_is_readonly = False,
             ly_tags = cl_tags inp, ly_created_at = d_clock d, ly_created_by = cl_created_by inp,
             ly_mount_entry_id = cl_mount_entry_id inp, ly_is_working = cl_is_working inp\<rparr>"
    and "d' = d\<lparr>d_draws := Suc (d_draws d), d_clock := Suc (d_clock d), d_layers := d_layers d @ [r]\<rparr>"
    and "ly_id r \<notin> ly_id ` set (d_layers d)"
    and "layer_name_key r \<notin> layer_name_key ` set (d_layers d)"
    and "\<forall>p. cl_parent_id inp = Some p \<longrightarrow> p \<in> ly_id ` set (d_layers d)"
  using assms by (auto simp: layer_create_def Let_def split: if_splits option.splits)

lemma layer_create_InlD:
  "layer_create inp d = (Inl e, d') \<Longrightarrow> d' = d\<lparr>d_draws := Suc (d_draws d), d_clock := Suc (d_clock d)\<rparr>"
  by (auto simp: layer_create_def Let_def split: if_splits)

lemma preserves_wf_layer_create [preserves_rules]: "preserves wf_db (layer_create inp)"
proof (rule preservesI)
  fix d assume wf: "wf_db d"
  show "wf_db (snd (layer_create inp d))"
  proof (cases "layer_create inp d")
    case (Pair r d')
    show ?thesis
    proof (cases r)
      case (Inl e)
      with Pair have "d' = d\<lparr>d_draws := Suc (d_draws d), d_clock := Suc (d_clock d)\<rparr>"
        using layer_create_InlD by simp
      with wf Pair show ?thesis by (simp add: wf_db_def wf_parts)
    next
      case (Inr row)
      note D = layer_create_InrD [of inp d row d']
      from Pair Inr have c: "layer_create inp d = (Inr row, d')" by simp
      from D(3) [OF c] D(4) [OF c] wf show ?thesis
        by (auto simp: Pair D(2) [OF c] wf_db_def wf_parts)
    qed
  qed
qed

lemma preserves_wf_layer_delete [preserves_rules]: "preserves wf_db (layer_delete t l)"
  by (rule preservesI) (simp add: layer_delete_def wf_delete_layer_rows)

lemma map_via_entry_updated:
  "map ly_id (entry_updated e e' ls) = map ly_id ls"
  "map layer_name_key (entry_updated e e' ls) = map layer_name_key ls"
  "map ly_id (entry_inserted e ls) = map ly_id ls"
  "map layer_name_key (entry_inserted e ls) = map layer_name_key ls"
  using map_via_shape [OF map_shape_entry_updated [of e e' ls]]
    map_via_shape [OF map_shape_entry_inserted [of e ls]] by auto

lemma preserves_wf_layer_add_entry [preserves_rules]: "preserves wf_db (layer_add_entry inp)"
proof (rule preservesI)
  fix d assume wf: "wf_db d"
  let ?P = "\<lambda>e. entry_key e = (ce_layer_id inp, ce_path inp)"
  have "map entry_key (update_rows ?P (\<lambda>e. e\<lparr>le_change_type := ce_change_type inp,
        le_size_delta := ce_size_delta inp, le_text_changes := ce_text_changes inp,
        le_created_at := d_clock d\<rparr>) (d_entries d)) = map entry_key (d_entries d)"
    by (rule map_update_rows_same) (simp add: entry_key_def)
  with wf show "wf_db (snd (layer_add_entry inp d))"
    by (auto simp: layer_add_entry_def Let_def wf_db_def wf_parts map_via_entry_updated entry_key_def
        split: option.splits)
qed

lemma preserves_wf_layer_set_current_layer [preserves_rules]:
  "preserves wf_db (layer_set_current_layer t l)"
proof (rule preservesI)
  fix d assume wf: "wf_db d"
  have "map tcl_tenant_id (update_rows (\<lambda>c. tcl_tenant_id c = t)
      (\<lambda>c. c\<lparr>tcl_layer_id := l, tcl_updated_at := d_clock d\<rparr>) (d_current d)) = map tcl_tenant_id (d_current d)"
    by (rule map_update_rows_same) simp
  with wf show "wf_db (snd (layer_set_current_layer t l d))"
    by (auto simp: layer_set_current_layer_def wf_db_def wf_parts)
qed

interpretation layer_tbl: keyed_table ly_id d_layers wf_db
  by unfold_locales (simp add: wf_db_def wf_layers_def)

interpretation entry_tbl: keyed_table entry_key d_entries wf_db
  by unfold_locales (simp add: wf_db_def wf_layers_def)

interpretation current_tbl: keyed_table tcl_tenant_id d_current wf_db
  by unfold_locales (simp add: wf_db_def wf_layers_def)

lemma layer_get_iff:
  "wf_db d \<Longrightarrow> layer_get t l d = (Inr (Some r), d) \<longleftrightarrow>
     r \<in> set (d_layers d) \<and> ly_tenant_id r = t \<and> ly_id r = l"
  unfolding layer_get_def
  by (auto dest: find_SomeD intro: layer_tbl.lookup_by)

lemma layer_current_iff:
  "wf_db d \<Longrightarrow> layer_get_current_layer t d = (Inr (Some l), d) \<longleftrightarrow>
     (\<exists>c \<in> set (d_current d). tcl_tenant_id c = t \<and> tcl_layer_id c = l)"
  using current_tbl.lookup_iff [of d t] by (auto simp: layer_get_current_layer_def)

section \<open>The forest of layers\<close>

text \<open>
  The parent of a layer is an older layer of the same tenant, and the current layer of a
  tenant is one of its own layers.
\<close>

fun rooted :: "(uuid \<times> uuid) set \<Rightarrow> (uuid \<times> uuid \<times> uuid option \<times> str \<times> bool) list \<Rightarrow> bool" where
  "rooted S [] \<longleftrightarrow> True"
| "rooted S ((i, t, p, _) # r) \<longleftrightarrow>
     (case p of None \<Rightarrow> True | Some q \<Rightarrow> (q, t) \<in> S) \<and> rooted (insert (i, t) S) r"

definition layer_ref :: "layer \<Rightarrow> uuid \<times> uuid" where
  "layer_ref l = (ly_id l, ly_tenant_id l)"

definition layer_inv :: "db \<Rightarrow> bool" where
  "layer_inv d \<longleftrightarrow> rooted {} (map layer_shape (d_layers d)) \<and>
     (\<forall>c \<in> set (d_current d). (tcl_layer_id c, tcl_tenant_id c) \<in> layer_ref ` set (d_layers d))"

lemma layer_ref_eq: "layer_ref a = layer_ref b \<longleftrightarrow> ly_id a = ly_id b \<and> ly_tenant_id a = ly_tenant_id b"
  by (simp add: layer_ref_def)

lemma layer_ref_via_shape:
  assumes "map layer_shape ls = map layer_shape ls'"
  shows "layer_ref ` set ls = layer_ref ` set ls'"
proof -
  have "layer_ref ` set xs = (\<lambda>(i, t, _). (i, t)) ` set (map layer_shape xs)" for xs
    by (simp add: layer_ref_def layer_shape_def image_image)
  then show ?thesis by (simp only: assms)
qed

lemma layer_inv_via_view:
  assumes "layer_view d' = layer_view d"
  shows "layer_inv d' = layer_inv d"
  using assms layer_ref_via_shape [of "d_layers d'" "d_layers d"]
  by (simp add: layer_inv_def layer_view_def)

lemma rooted_append:
  "rooted S (xs @ ys) \<longleftrightarrow> rooted S xs \<and> rooted (S \<union> (\<lambda>(i, t, _). (i, t)) ` set xs) ys"
proof (induction xs arbitrary: S)
  case (Cons x xs)
  then show ?case by (cases x) auto
qed simp

lemma rooted_layers_append:
  "rooted S (map layer_shape (xs @ ys)) \<longleftrightarrow>
     rooted S (map layer_shape xs) \<and> rooted (S \<union> layer_ref ` set xs) (map layer_shape ys)"
proof -
  have "(\<lambda>(i, t, _). (i, t)) ` set (map layer_shape xs) = layer_ref ` set xs"
    by (auto simp: layer_ref_def layer_shape_def image_image)
  then show ?thesis by (simp only: map_append rooted_append)
qed

lemma rooted_layer_Cons:
  "rooted S (map layer_shape (l # ls)) \<longleftrightarrow>
     (\<forall>q. ly_parent_id l = Some q \<longrightarrow> (q, ly_tenant_id l) \<in> S) \<and>
     rooted (insert (layer_ref l) S) (map layer_shape ls)"
  by (simp add: layer_shape_def layer_ref_def split: option.splits)

lemma rooted_filter:
  assumes "rooted S (map layer_shape ls)"
    and "\<And>l q. l \<in> set ls \<Longrightarrow> layer_ref l \<notin> gone \<Longrightarrow> ly_parent_id l = Some q \<Longrightarrow> (q, ly_tenant_id l) \<notin> gone"
  shows "rooted (S - gone) (map layer_shape (filter (\<lambda>l. layer_ref l \<notin> gone) ls))"
  using assms
proof (induction ls arbitrary: S)
  case (Cons l ls)
  have ins: "insert (layer_ref l) S - gone = (if layer_ref l \<in> gone then S - gone else insert (layer_ref l) (S - gone))"
    by auto
  have "rooted (insert (layer_ref l) S - gone) (map layer_shape (filter (\<lambda>l. layer_ref l \<notin> gone) ls))"
    using Cons.prems by (intro Cons.IH) (simp_all add: rooted_layer_Cons del: list.map)
  moreover have "\<forall>q. ly_parent_id l = Some q \<longrightarrow> (q, ly_tenant_id l) \<in> S - gone" if "layer_ref l \<notin> gone"
    using Cons.prems that by (simp add: rooted_layer_Cons del: list.map)
  ultimately show ?case
    unfolding ins filter.simps by (simp add: rooted_layer_Cons del: list.map split: if_splits)
qed simp

text \<open>Creating, deleting and selecting layers keep the forest.\<close>

lemma layer_inv_create:
  assumes "layer_inv d"
    and "\<And>p. cl_parent_id inp = Some p \<Longrightarrow> (p, cl_tenant_id inp) \<in> layer_ref ` set (d_layers d)"
  shows "layer_inv (snd (layer_create inp d))"
proof (cases "layer_create inp d")
  case (Pair r d')
  show ?thesis
  proof (cases r)
    case (Inl e)
    with Pair have "d' = d\<lparr>d_draws := Suc (d_draws d), d_clock := Suc (d_clock d)\<rparr>"
      using layer_create_InlD by simp
    with assms(1) Pair show ?thesis by (simp add: layer_inv_def)
  next
    case (Inr row)
    note D = layer_create_InrD [of inp d row d']
    from Pair Inr have c: "layer_create inp d = (Inr row, d')" by simp
    have "rooted (layer_ref ` set (d_layers d)) (map layer_shape [row])"
      using assms(2) by (auto simp: D(1) [OF c] layer_shape_def split: option.splits)
    then have "rooted {} (map layer_shape (d_layers d @ [row]))"
      using assms(1) by (simp only: rooted_layers_append layer_inv_def) simp
    with assms(1) show ?thesis
      by (auto simp: Pair D(2) [OF c] layer_inv_def)
  qed
qed

lemma layer_inv_set_current:
  assumes "layer_inv d" and "(l, t) \<in> layer_ref ` set (d_layers d)"
  shows "layer_inv (snd (layer_set_current_layer t l d))"
  using assms by (auto simp: layer_set_current_layer_def layer_inv_def set_update_rows)

lemma layer_view_delete_rows:
  "layer_view (delete_layer_rows P d) = (map layer_shape (delete_rows P (d_layers d)), d_current d)"
  by (simp add: layer_view_def)

lemma layer_inv_delete:
  assumes "layer_inv d"
  shows "layer_inv (snd (layer_delete t l d))"
proof (cases "\<exists>r \<in> set (d_layers d). ly_parent_id r = Some l")
  case True
  with assms show ?thesis by (auto simp: layer_delete_def)
next
  case False
  let ?Q = "\<lambda>r. ly_tenant_id r = t \<and> ly_id r = l"
  have f: "delete_rows ?Q (d_layers d) = filter (\<lambda>r. layer_ref r \<notin> {(l, t)}) (d_layers d)"
    by (auto simp: delete_rows_def layer_ref_def intro: filter_cong)
  have "rooted ({} - {(l, t)}) (map layer_shape (filter (\<lambda>r. layer_ref r \<notin> {(l, t)}) (d_layers d)))"
    using assms False by (intro rooted_filter) (auto simp: layer_inv_def)
  moreover have "layer_inv (delete_layer_rows ?Q d)"
    if "\<not> (\<exists>c \<in> set (d_current d). tcl_layer_id c = l)" "rooted {} (map layer_shape (delete_rows ?Q (d_layers d)))"
  proof -
    have "layer_ref ` set (d_layers (delete_layer_rows ?Q d)) = layer_ref ` set (delete_rows ?Q (d_layers d))"
      by (rule layer_ref_via_shape) simp
    moreover have "(tcl_layer_id c, tcl_tenant_id c) \<in> layer_ref ` set (delete_rows ?Q (d_layers d))"
      if c: "c \<in> set (d_current d)" for c
    proof -
      from assms c obtain r where "r \<in> set (d_layers d)" "layer_ref r = (tcl_layer_id c, tcl_tenant_id c)"
        by (auto simp: layer_inv_def)
      with that(1) c show ?thesis
        using \<open>\<not> (\<exists>c \<in> set (d_current d). tcl_layer_id c = l)\<close> by (force simp: layer_ref_def image_iff)
    qed
    ultimately show ?thesis using that(2) by (simp add: layer_inv_def)
  qed
  ultimately show ?thesis
    using assms f by (auto simp: layer_delete_def)
qed

lemma layer_view_add_entry: "layer_view (snd (layer_add_entry inp d)) = layer_view d"
  by (simp add: layer_add_entry_def Let_def layer_view_def split: option.splits)

lemma layer_inv_add_entry: "layer_inv d \<Longrightarrow> layer_inv (snd (layer_add_entry inp d))"
  using layer_inv_via_view [OF layer_view_add_entry] by blast

section \<open>The chain of a layer\<close>

fun linked :: "layer list \<Rightarrow> bool" where
  "linked [] \<longleftrightarrow> True"
| "linked [r] \<longleftrightarrow> ly_parent_id r = None"
| "linked (r # r' # c) \<longleftrightarrow> ly_parent_id r = Some (ly_id r') \<and> linked (r' # c)"

lemma linked_Cons: "c \<noteq> [] \<Longrightarrow> linked (r # c) \<longleftrightarrow> ly_parent_id r = Some (ly_id (hd c)) \<and> linked c"
  by (cases c) auto

lemma chain_of_rooted:
  assumes "rooted {} (map layer_shape ls)" "distinct (map ly_id ls)"
    and "ls = xs @ r # ys" and "length xs < n"
  shows "\<exists>c. layer_chain_from n ls (ly_tenant_id r) (ly_id r) = Some (r # c) \<and> linked (r # c) \<and>
     set c \<subseteq> {l \<in> set xs. ly_tenant_id l = ly_tenant_id r} \<and> distinct (r # c)"
  using assms(3,4)
proof (induction n arbitrary: xs r ys)
  case 0
  then show ?case by simp
next
  case (Suc n)
  have new: "r \<notin> set xs" using assms(2) Suc.prems(1) by auto
  have f: "find (\<lambda>x. ly_id x = ly_id r \<and> ly_tenant_id x = ly_tenant_id r) ls = Some r"
    using Suc.prems(1) by (intro find_keyed [OF assms(2)]) auto
  show ?case
  proof (cases "ly_parent_id r")
    case None
    with f show ?thesis by simp
  next
    case (Some p)
    have "rooted (layer_ref ` set xs) (map layer_shape (r # ys))"
      using assms(1) unfolding Suc.prems(1) by (simp only: rooted_layers_append) simp
    with Some have "(p, ly_tenant_id r) \<in> layer_ref ` set xs" by (simp add: layer_shape_def)
    then obtain q where q: "q \<in> set xs" "ly_id q = p" "ly_tenant_id q = ly_tenant_id r"
      by (auto simp: layer_ref_def)
    then obtain xs1 xs2 where xs: "xs = xs1 @ q # xs2" by (meson split_list)
    have ls: "ls = xs1 @ q # (xs2 @ r # ys)" by (simp add: Suc.prems(1) xs)
    have "length xs1 < n" using Suc.prems(2) xs by simp
    from Suc.IH [OF ls this] obtain c where c:
      "layer_chain_from n ls (ly_tenant_id r) p = Some (q # c)" "linked (q # c)"
      "set c \<subseteq> {l \<in> set xs1. ly_tenant_id l = ly_tenant_id r}" "distinct (q # c)"
      unfolding q(2,3) by blast
    have "layer_chain_from (Suc n) ls (ly_tenant_id r) (ly_id r) = Some (r # q # c)"
      using f Some c(1) by simp
    moreover have "linked (r # q # c)" using Some q(2) c(2) by simp
    moreover have "set (q # c) \<subseteq> {l \<in> set xs. ly_tenant_id l = ly_tenant_id r}"
      using c(3) q xs by auto
    moreover have "distinct (r # q # c)" using c(4) new calculation(3) by auto
    ultimately show ?thesis by blast
  qed
qed

lemma layer_chain_exists:
  assumes "wf_db d" "layer_inv d" "r \<in> set (d_layers d)"
  shows "\<exists>c. layer_get_layer_chain (ly_tenant_id r) (ly_id r) d = (Inr (r # c), d) \<and> linked (r # c) \<and>
     set c \<subseteq> {l \<in> set (d_layers d). ly_tenant_id l = ly_tenant_id r} \<and> distinct (r # c)"
proof -
  from assms(3) obtain xs ys where ls: "d_layers d = xs @ r # ys" by (meson split_list)
  have 1: "rooted {} (map layer_shape (d_layers d))" using assms(2) by (simp add: layer_inv_def)
  have 2: "distinct (map ly_id (d_layers d))" using assms(1) by (simp add: wf_db_def wf_layers_def)
  have 3: "length xs < Suc (length (d_layers d))" by (simp add: ls)
  have sub: "set xs \<subseteq> set (d_layers d)" by (auto simp: ls)
  from chain_of_rooted [OF 1 2 ls 3] obtain c where c:
    "layer_chain_from (Suc (length (d_layers d))) (d_layers d) (ly_tenant_id r) (ly_id r) = Some (r # c)"
    "linked (r # c)" "set c \<subseteq> {l \<in> set xs. ly_tenant_id l = ly_tenant_id r}" "distinct (r # c)"
    by blast
  from c(3) sub have "set c \<subseteq> {l \<in> set (d_layers d). ly_tenant_id l = ly_tenant_id r}" by blast
  with c show ?thesis unfolding layer_get_layer_chain_def c(1) by auto
qed

section \<open>Snapshots\<close>

lemma rooted_update:
  assumes "\<And>l. P l \<Longrightarrow> layer_ref (f l) = layer_ref l \<and> ly_parent_id (f l) = ly_parent_id l"
  shows "rooted S (map layer_shape (update_rows P f ls)) \<longleftrightarrow> rooted S (map layer_shape ls)"
proof (induction ls arbitrary: S)
  case (Cons l ls)
  have u: "update_rows P f (l # ls) = (if P l then f l else l) # update_rows P f ls"
    by (simp add: update_rows_def)
  have "ly_tenant_id (f l) = ly_tenant_id l" if "P l"
    using assms [OF that] by (simp add: layer_ref_def)
  then show ?case
    unfolding u rooted_layer_Cons Cons.IH using assms [of l] by simp
qed (simp add: update_rows_def)

lemma layer_ref_update:
  assumes "\<And>l. P l \<Longrightarrow> layer_ref (f l) = layer_ref l"
  shows "layer_ref ` set (update_rows P f ls) = layer_ref ` set ls"
  unfolding set_update_rows image_image using assms by (intro image_cong) auto

lemma preserves_wf_freeze [preserves_rules]: "preserves wf_db (layer_freeze_working l n descr)"
proof (rule preservesI)
  fix d assume wf: "wf_db d"
  let ?upd = "\<lambda>r. r\<lparr>ly_is_working := False, ly_name := n, ly_description := descr\<rparr>"
  let ?ls = "update_rows (\<lambda>r. ly_id r = l) ?upd (d_layers d)"
  have ids: "distinct (map ly_id (d_layers d))" using wf by (simp add: wf_db_def wf_layers_def)
  have "map ly_id ?ls = map ly_id (d_layers d)" by (rule map_update_rows_same) simp
  moreover have "distinct (map layer_name_key ?ls)"
    if fresh: "\<not> (\<exists>r \<in> set (d_layers d). ly_id r = l \<and>
          (\<exists>r' \<in> set (d_layers d). ly_id r' \<noteq> l \<and> layer_name_key r' = (ly_tenant_id r, n)))"
  proof (rule distinct_map_update_one)
    show "distinct (map layer_name_key (d_layers d))" using wf by (simp add: wf_db_def wf_layers_def)
    show "r = r'" if "r \<in> set (d_layers d)" "r' \<in> set (d_layers d)" "ly_id r = l" "ly_id r' = l" for r r'
      using layer_tbl.lookup_unique [OF wf] that by blast
    show "layer_name_key r' \<noteq> layer_name_key (?upd r)"
      if "r \<in> set (d_layers d)" "r' \<in> set (d_layers d)" "ly_id r = l" "ly_id r' \<noteq> l" for r r'
      using fresh that by (auto simp: layer_name_key_def)
  qed
  ultimately have "wf_db (d\<lparr>d_layers := ?ls\<rparr>)"
    if "\<not> (\<exists>r \<in> set (d_layers d). ly_id r = l \<and>
          (\<exists>r' \<in> set (d_layers d). ly_id r' \<noteq> l \<and> layer_name_key r' = (ly_tenant_id r, n)))"
    using wf that by (simp add: wf_db_def wf_parts)
  with wf show "wf_db (snd (layer_freeze_working l n descr d))"
    by (simp add: layer_freeze_working_def Let_def)
qed

lemma layer_inv_freeze: "layer_inv d \<Longrightarrow> layer_inv (snd (layer_freeze_working l n descr d))"
  by (simp add: layer_freeze_working_def Let_def layer_inv_def rooted_update layer_ref_update layer_ref_eq)

lemma layer_refs_freeze:
  "layer_ref ` set (d_layers (snd (layer_freeze_working l n descr d))) = layer_ref ` set (d_layers d)"
  by (simp add: layer_freeze_working_def Let_def layer_ref_update layer_ref_eq)

text \<open>Each operation on the layer chain of a mount keeps both invariants.\<close>

definition layers_ok :: "db \<Rightarrow> bool" where
  "layers_ok d \<longleftrightarrow> wf_db d \<and> layer_inv d"

lemma triple_layer_create:
  "triple (\<lambda>d. layers_ok d \<and> (\<forall>p. cl_parent_id inp = Some p \<longrightarrow> (p, cl_tenant_id inp) \<in> layer_ref ` set (d_layers d)))
     (layer_create inp)
     (\<lambda>r d. layers_ok d \<and> r \<in> set (d_layers d) \<and> ly_tenant_id r = cl_tenant_id inp) layers_ok"
proof (rule tripleI)
  fix d e d'
  assume P: "layers_ok d \<and> (\<forall>p. cl_parent_id inp = Some p \<longrightarrow> (p, cl_tenant_id inp) \<in> layer_ref ` set (d_layers d))"
    and c: "layer_create inp d = (Inl e, d')"
  show "layers_ok d'"
    using P layer_inv_create [of d inp] preservesD [OF preserves_wf_layer_create, of d inp] c
    by (auto simp: layers_ok_def)
next
  fix d r d'
  assume P: "layers_ok d \<and> (\<forall>p. cl_parent_id inp = Some p \<longrightarrow> (p, cl_tenant_id inp) \<in> layer_ref ` set (d_layers d))"
    and c: "layer_create inp d = (Inr r, d')"
  have "layers_ok d'"
    using P layer_inv_create [of d inp] preservesD [OF preserves_wf_layer_create, of d inp] c
    by (auto simp: layers_ok_def)
  moreover have "r \<in> set (d_layers d')" by (simp add: layer_create_InrD(2) [OF c])
  moreover have "ly_tenant_id r = cl_tenant_id inp" by (simp add: layer_create_InrD(1) [OF c])
  ultimately show "layers_ok d' \<and> r \<in> set (d_layers d') \<and> ly_tenant_id r = cl_tenant_id inp"
    by blast
qed

lemma preserves_layers_ok_initial [preserves_rules]: "preserves layers_ok (layer_create_initial_layers x t m)"
  unfolding preserves_triple layer_create_initial_layers_def
  by (rule triple_bindE, rule triple_weaken [OF triple_layer_create], simp, assumption, assumption,
      rule triple_bindE, rule triple_weaken [OF triple_layer_create],
      force simp: layer_ref_def, assumption, assumption, rule triple_ret, blast)

lemma preserves_layers_ok_snapshot [preserves_rules]: "preserves layers_ok (layer_create_snapshot x m n descr)"
  unfolding preserves_triple layer_create_snapshot_def layer_get_working_layer_def
proof (rule triple_bindE [OF triple_gets])
  fix w
  show "triple (\<lambda>d. layers_ok d \<and> w = find (\<lambda>r. ly_mount_entry_id r = Some m \<and> ly_is_working r) (d_layers d))
    (bindE (ok_or (Message ''Working layer not found for mount'') w) (\<lambda>working.
     bindE (layer_freeze_working (ly_id working) n descr) (\<lambda>_.
       layer_create \<lparr>cl_tenant_id = ly_tenant_id working, cl_parent_id = Some (ly_id working),
              cl_name = ''working-'' @ uuid_to_string x m, cl_description = Some ''Working layer'',
              cl_tags = None, cl_created_by = ''system'', cl_mount_entry_id = Some m,
              cl_is_working = True\<rparr>))) (\<lambda>_. layers_ok) layers_ok"
  proof (cases w)
    case None
    then show ?thesis by (simp, intro triple_raise) simp
  next
    case (Some l)
    have freeze: "triple (\<lambda>d. layers_ok d \<and> layer_ref l \<in> layer_ref ` set (d_layers d))
        (layer_freeze_working (ly_id l) n descr)
        (\<lambda>_ d. layers_ok d \<and> layer_ref l \<in> layer_ref ` set (d_layers d)) layers_ok"
      using layer_inv_freeze [of _ "ly_id l" n descr] preservesD [OF preserves_wf_freeze, of _ "ly_id l" n descr]
        layer_refs_freeze [of "ly_id l" n descr]
      by (intro tripleI) (metis layers_ok_def snd_conv)+
    have found: "triple (\<lambda>d. layers_ok d \<and> w = find (\<lambda>r. ly_mount_entry_id r = Some m \<and> ly_is_working r) (d_layers d))
        (layer_freeze_working (ly_id l) n descr)
        (\<lambda>_ d. layers_ok d \<and> layer_ref l \<in> layer_ref ` set (d_layers d)) layers_ok"
      by (rule triple_weaken [OF freeze]) (use Some in \<open>auto dest!: find_SomeD [OF sym]\<close>)
    have new: "triple (\<lambda>d. layers_ok d \<and> layer_ref l \<in> layer_ref ` set (d_layers d))
        (layer_create \<lparr>cl_tenant_id = ly_tenant_id l, cl_parent_id = Some (ly_id l),
              cl_name = ''working-'' @ uuid_to_string x m, cl_description = Some ''Working layer'',
              cl_tags = None, cl_created_by = ''system'', cl_mount_entry_id = Some m,
              cl_is_working = True\<rparr>) (\<lambda>_. layers_ok) layers_ok"
      by (rule triple_weaken [OF triple_layer_create]) (auto simp: layer_ref_def)
    show ?thesis
      using triple_bindE [OF found new] Some by simp
  qed
qed

lemma preserves_layers_ok_batch [preserves_rules]:
  "preserves layers_ok (layer_batch_snapshot x t ms n skip_unchanged)"
proof -
  have "preserves layers_ok (mount_ref t m)" for m
    by (rule preservesI) (simp add: mount_ref_def split: option.split)
  then show ?thesis
    unfolding layer_batch_snapshot_def snapshot_mount_def layer_get_working_layer_def
    by (intro preserves_rules) (auto intro!: preserves_rules split: sum.split option.split)
qed

end
