(* ===== verification/Inodes.thy ===== *)
theory Inodes
  imports Database
begin

text \<open>
  The repositories of tenants, inodes and data blocks: \<open>src/src/storage/tenant.rs\<close>,
  \<open>src/src/storage/inode.rs\<close>, \<open>src/src/storage/block.rs\<close>.  Each definition is one method: its
  SQL statement with the constraints of the schema, the row it returns, and the effect on
  the tables.
\<close>

section \<open>Inodes\<close>

definition inode_create :: "create_inode_input \<Rightarrow> inode db_op" where
  "inode_create inp = (\<lambda>d.
     let i = d_inode_seq d; t = d_clock d;
         row = \<lparr>ino_id = i, ino_tenant_id = ci_tenant_id inp, ino_parent_id = ci_parent_id inp,
                ino_name = ci_name inp, ino_type = ci_type inp, ino_mode = ci_mode inp,
                ino_uid = ci_uid inp, ino_gid = ci_gid inp, ino_size = 0,
                ino_atime = t, ino_mtime = t, ino_ctime = t\<rparr>;
         d1 = d\<lparr>d_inode_seq := i + 1, d_clock := Suc t\<rparr>
     in if \<not> varchar 255 (ci_name inp) then (Inl ValueTooLong, d1)
        else if exists_row (\<lambda>r. inode_key r = inode_key row) (d_inodes d) then (Inl UniqueViolation, d1)
        else if ci_parent_id inp \<noteq> None \<and>
                exists_row (\<lambda>r. ino_parent_id r \<noteq> None \<and> sibling_key r = sibling_key row) (d_inodes d)
          then (Inl UniqueViolation, d1)
        else if \<not> exists_row (\<lambda>t. tn_id t = ci_tenant_id inp) (d_tenants d) then (Inl ForeignKeyViolation, d1)
        else if (case ci_parent_id inp of None \<Rightarrow> False
                 | Some p \<Rightarrow> \<not> exists_row (\<lambda>r. inode_key r = (ci_tenant_id inp, p)) (d_inodes d))
          then (Inl ForeignKeyViolation, d1)
        else (Inr row, d1\<lparr>d_inodes := d_inodes d @ [row]\<rparr>))"

definition inode_get :: "uuid \<Rightarrow> int \<Rightarrow> inode option db_op" where
  "inode_get t i = gets (\<lambda>d. find (\<lambda>r. ino_tenant_id r = t \<and> ino_id r = i) (d_inodes d))"

definition inode_get_by_parent_and_name :: "uuid \<Rightarrow> int \<Rightarrow> str \<Rightarrow> inode option db_op" where
  "inode_get_by_parent_and_name t p n =
     gets (\<lambda>d. find (\<lambda>r. ino_tenant_id r = t \<and> ino_parent_id r = Some p \<and> ino_name r = n) (d_inodes d))"

text \<open>
  \<open>update\<close> builds its statement from the fields that are given.  With no field given it names
  a parameter for \<open>ctime\<close> that is then never bound (the test \<open>updates.is_empty()\<close> guarding the
  \<open>bind\<close> runs after the push), so the statement is rejected.
\<close>

definition apply_update :: "update_inode_input \<Rightarrow> inode \<Rightarrow> inode" where
  "apply_update u r =
     r\<lparr>ino_size := case_option (ino_size r) id (ui_size u),
       ino_mode := case_option (ino_mode r) id (ui_mode u),
       ino_uid := case_option (ino_uid r) id (ui_uid u),
       ino_gid := case_option (ino_gid r) id (ui_gid u),
       ino_atime := case_option (ino_atime r) id (ui_atime u),
       ino_mtime := case_option (ino_mtime r) id (ui_mtime u),
       ino_ctime := case_option (ino_ctime r) id (ui_ctime u)\<rparr>"

definition no_updates :: "update_inode_input \<Rightarrow> bool" where
  "no_updates u \<longleftrightarrow> ui_size u = None \<and> ui_mode u = None \<and> ui_uid u = None \<and> ui_gid u = None \<and>
     ui_atime u = None \<and> ui_mtime u = None \<and> ui_ctime u = None"

definition inode_update :: "uuid \<Rightarrow> int \<Rightarrow> update_inode_input \<Rightarrow> inode db_op" where
  "inode_update t i u = (\<lambda>d.
     if no_updates u then (Inl BindMismatch, d)
     else case find (\<lambda>r. ino_tenant_id r = t \<and> ino_id r = i) (d_inodes d) of
       None \<Rightarrow> (Inl RowNotFound, d)
     | Some r \<Rightarrow> (Inr (apply_update u r),
         d\<lparr>d_inodes := update_rows (\<lambda>r. ino_tenant_id r = t \<and> ino_id r = i) (apply_update u) (d_inodes d)\<rparr>))"

definition inode_delete :: "uuid \<Rightarrow> int \<Rightarrow> bool db_op" where
  "inode_delete t i = (\<lambda>d.
     (Inr (exists_row (\<lambda>r. inode_key r = (t, i)) (d_inodes d)), delete_inode_rows t i d))"

definition inode_list_children :: "ext \<Rightarrow> uuid \<Rightarrow> int \<Rightarrow> inode list db_op" where
  "inode_list_children x t p = gets (\<lambda>d.
     sort_by (\<lambda>a b. collate_le x (ino_name a) (ino_name b))
       (filter (\<lambda>r. ino_tenant_id r = t \<and> ino_parent_id r = Some p) (d_inodes d)))"

section \<open>Data blocks\<close>

definition block_create :: "ext \<Rightarrow> create_block_input \<Rightarrow> data_block db_op" where
  "block_create x inp =
     bindE new_v4 (\<lambda>block_id. bindE now (\<lambda>t d.
       let row = \<lparr>blk_id = block_id, blk_tenant_id = cb_tenant_id inp, blk_inode_id = cb_inode_id inp,
                  blk_index = cb_index inp, blk_data = cb_data inp,
                  blk_size = as_i32 (length (cb_data inp)),
                  blk_content_hash = blake3_hex x (cb_data inp), blk_created_at = t\<rparr>
       in if exists_row (\<lambda>b. blk_id b = block_id) (d_blocks d) then (Inl UniqueViolation, d)
          else if exists_row (\<lambda>b. block_key b = block_key row) (d_blocks d) then (Inl UniqueViolation, d)
          else if \<not> exists_row (\<lambda>r. inode_key r = (cb_tenant_id inp, cb_inode_id inp)) (d_inodes d)
            then (Inl ForeignKeyViolation, d)
          else (Inr row, d\<lparr>d_blocks := d_blocks d @ [row]\<rparr>)))"

definition block_get :: "uuid \<Rightarrow> int \<Rightarrow> int \<Rightarrow> data_block option db_op" where
  "block_get t i k = gets (\<lambda>d. find (\<lambda>b. block_key b = (t, i, k)) (d_blocks d))"

definition block_get_by_id :: "uuid \<Rightarrow> data_block option db_op" where
  "block_get_by_id b = gets (\<lambda>d. find (\<lambda>r. blk_id r = b) (d_blocks d))"

definition block_list :: "uuid \<Rightarrow> int \<Rightarrow> data_block list db_op" where
  "block_list t i = gets (\<lambda>d. sort_key blk_index
     (filter (\<lambda>b. blk_tenant_id b = t \<and> blk_inode_id b = i) (d_blocks d)))"

definition block_delete :: "uuid \<Rightarrow> int \<Rightarrow> nat db_op" where
  "block_delete t i = (\<lambda>d.
     (Inr (length (filter (\<lambda>b. blk_tenant_id b = t \<and> blk_inode_id b = i) (d_blocks d))),
      d\<lparr>d_blocks := delete_rows (\<lambda>b. blk_tenant_id b = t \<and> blk_inode_id b = i) (d_blocks d)\<rparr>))"

definition block_delete_block :: "uuid \<Rightarrow> int \<Rightarrow> int \<Rightarrow> bool db_op" where
  "block_delete_block t i k = (\<lambda>d.
     (Inr (exists_row (\<lambda>b. block_key b = (t, i, k)) (d_blocks d)),
      d\<lparr>d_blocks := delete_rows (\<lambda>b. block_key b = (t, i, k)) (d_blocks d)\<rparr>))"

section \<open>Tenants\<close>

text \<open>
  \<open>create\<close> runs in one transaction: the tenant with a placeholder root, the root inode, and
  the update that links them.  The second and third statements cannot fail once the first
  has succeeded, so a refused first statement is the only rollback.
\<close>

definition tenant_create :: "str \<Rightarrow> tenant db_op" where
  "tenant_create name =
     bindE new_v4 (\<lambda>tenant_id. bindE now (\<lambda>t d.
       if \<not> varchar 253 name then (Inl ValueTooLong, d)
       else if exists_row (\<lambda>r. tn_id r = tenant_id) (d_tenants d) then (Inl UniqueViolation, d)
       else if exists_row (\<lambda>r. tn_name r = name) (d_tenants d) then (Inl UniqueViolation, d)
       else let root = d_inode_seq d;
                inode = \<lparr>ino_id = root, ino_tenant_id = tenant_id, ino_parent_id = None, ino_name = ''/'',
                         ino_type = Dir, ino_mode = 493, ino_uid = 0, ino_gid = 0, ino_size = 4096,
                         ino_atime = t, ino_mtime = t, ino_ctime = t\<rparr>;
                tenant = \<lparr>tn_id = tenant_id, tn_name = name, tn_root_inode_id = root,
                          tn_created_at = t, tn_updated_at = t\<rparr>
            in (Inr tenant,
                d\<lparr>d_tenants := d_tenants d @ [tenant], d_inodes := d_inodes d @ [inode],
                  d_inode_seq := root + 1\<rparr>)))"

definition tenant_get_by_id :: "uuid \<Rightarrow> tenant option db_op" where
  "tenant_get_by_id t = gets (\<lambda>d. find (\<lambda>r. tn_id r = t) (d_tenants d))"

definition tenant_get_by_name :: "str \<Rightarrow> tenant option db_op" where
  "tenant_get_by_name n = gets (\<lambda>d. find (\<lambda>r. tn_name r = n) (d_tenants d))"

definition tenant_list :: "tenant list db_op" where
  "tenant_list = gets (\<lambda>d. rev (sort_key tn_created_at (d_tenants d)))"

section \<open>Lemmas\<close>

lemmas inode_reads = inode_get_def inode_get_by_parent_and_name_def inode_list_children_def
lemmas block_reads = block_get_def block_get_by_id_def block_list_def
lemmas tenant_reads = tenant_get_by_id_def tenant_get_by_name_def tenant_list_def

lemma sibling_distinct_snoc:
  "distinct (map sibling_key (children_only (is @ [r]))) \<longleftrightarrow>
   distinct (map sibling_key (children_only is)) \<and>
   (ino_parent_id r \<noteq> None \<longrightarrow> sibling_key r \<notin> sibling_key ` set (children_only is))"
  by (auto simp: children_only_def)

lemma inode_create_InrD:
  assumes "inode_create inp d = (Inr row, d')"
  shows "row = \<lparr>ino_id = d_inode_seq d, ino_tenant_id = ci_tenant_id inp, ino_parent_id = ci_parent_id inp,
                ino_name = ci_name inp, ino_type = ci_type inp, ino_mode = ci_mode inp,
                ino_uid = ci_uid inp, ino_gid = ci_gid inp, ino_size = 0,
                ino_atime = d_clock d, ino_mtime = d_clock d, ino_ctime = d_clock d\<rparr>"
    and "d' = d\<lparr>d_inode_seq := d_inode_seq d + 1, d_clock := Suc (d_clock d),
               d_inodes := d_inodes d @ [row]\<rparr>"
  using assms by (auto simp: inode_create_def Let_def split: if_splits)

lemma inode_create_InlD:
  "inode_create inp d = (Inl e, d') \<Longrightarrow> d' = d\<lparr>d_inode_seq := d_inode_seq d + 1, d_clock := Suc (d_clock d)\<rparr>"
  by (auto simp: inode_create_def Let_def split: if_splits)

lemma preserves_wf_inode_create [preserves_rules]: "preserves wf_db (inode_create inp)"
proof (rule preservesI)
  fix d assume wf: "wf_db d"
  then have seq: "\<forall>i \<in> set (d_inodes d). ino_id i < d_inode_seq d"
    by (simp add: wf_db_def wf_inodes_def)
  have base: "wf_db (d\<lparr>d_inode_seq := d_inode_seq d + 1, d_clock := Suc (d_clock d)\<rparr>)"
    using wf by (auto simp: wf_db_def wf_parts intro: less_trans)
  show "wf_db (snd (inode_create inp d))"
  proof (cases "inode_create inp d")
    case (Pair r d')
    show ?thesis
    proof (cases r)
      case (Inl e)
      with Pair base show ?thesis using inode_create_InlD [of inp d e d'] by simp
    next
      case (Inr row)
      have d': "d' = d\<lparr>d_inode_seq := d_inode_seq d + 1, d_clock := Suc (d_clock d),
               d_inodes := d_inodes d @ [row]\<rparr>" and id: "ino_id row = d_inode_seq d"
        using inode_create_InrD [of inp d row d'] Pair Inr by auto
      have "inode_key row \<notin> inode_key ` set (d_inodes d)"
        using seq id by (auto simp: inode_key_def)
      moreover have "ino_parent_id row \<noteq> None \<Longrightarrow> sibling_key row \<notin> sibling_key ` set (children_only (d_inodes d))"
        using Pair Inr inode_create_InrD(1) [of inp d row d']
        by (auto simp: inode_create_def Let_def children_only_def split: if_splits)
      moreover have "p < d_inode_seq d" if "ino_parent_id row = Some p" for p
      proof -
        have "\<exists>q \<in> set (d_inodes d). inode_key q = (ci_tenant_id inp, p)"
          using Pair Inr inode_create_InrD(1) [of inp d row d'] that
          by (auto simp: inode_create_def Let_def split: if_splits)
        with seq show ?thesis by (auto simp: inode_key_def)
      qed
      moreover have "inode_key row \<noteq> (tn_id q, tn_root_inode_id q)" if "q \<in> set (d_tenants d)" for q
        using wf that id by (auto simp: inode_key_def wf_db_def wf_inodes_def)
      ultimately show ?thesis
        using Pair base wf id seq
        by (auto simp: d' wf_db_def wf_inodes_def sibling_distinct_snoc wf_files_def wf_layers_def
            wf_mounts_def)
    qed
  qed
qed

lemma apply_update_keys [simp]:
  "ino_id (apply_update u r) = ino_id r" "ino_tenant_id (apply_update u r) = ino_tenant_id r"
  "ino_parent_id (apply_update u r) = ino_parent_id r" "ino_name (apply_update u r) = ino_name r"
  "ino_type (apply_update u r) = ino_type r"
  by (simp_all add: apply_update_def)

lemma preserves_wf_inode_update [preserves_rules]: "preserves wf_db (inode_update t i u)"
proof (rule preservesI)
  fix d assume wf: "wf_db d"
  let ?new = "update_rows (\<lambda>r. ino_tenant_id r = t \<and> ino_id r = i) (apply_update u) (d_inodes d)"
  have "map inode_key ?new = map inode_key (d_inodes d)"
    by (rule map_update_rows_same) (simp add: inode_key_def)
  moreover have "children_only ?new =
      update_rows (\<lambda>r. ino_tenant_id r = t \<and> ino_id r = i) (apply_update u) (children_only (d_inodes d))"
    unfolding children_only_def by (rule filter_update_rows) simp
  moreover have "map sibling_key (update_rows (\<lambda>r. ino_tenant_id r = t \<and> ino_id r = i) (apply_update u)
      (children_only (d_inodes d))) = map sibling_key (children_only (d_inodes d))"
    by (rule map_update_rows_same) (simp add: sibling_key_def)
  moreover have "\<forall>r \<in> set ?new. ino_id r < d_inode_seq d \<and>
      (\<forall>p. ino_parent_id r = Some p \<longrightarrow> p < d_inode_seq d)"
    using wf by (auto simp: set_update_rows wf_db_def wf_inodes_def)
  moreover have "\<forall>q \<in> set (d_tenants d). \<forall>r \<in> set ?new.
      inode_key r = (tn_id q, tn_root_inode_id q) \<longrightarrow> ino_parent_id r = None"
    using wf by (auto simp: set_update_rows wf_db_def wf_inodes_def inode_key_def)
  ultimately have "wf_db (d\<lparr>d_inodes := ?new\<rparr>)"
    using wf by (simp add: wf_db_def wf_parts)
  then show "wf_db (snd (inode_update t i u d))"
    using wf by (simp add: inode_update_def split: option.splits)
qed

lemma preserves_wf_inode_delete [preserves_rules]: "preserves wf_db (inode_delete t i)"
  by (rule preservesI) (simp add: inode_delete_def wf_delete_inode_rows)

lemma preserves_wf_block_delete [preserves_rules]: "preserves wf_db (block_delete t i)"
  by (rule preservesI)
     (simp add: block_delete_def wf_db_def wf_parts distinct_map_delete_rows)

lemma preserves_wf_block_create [preserves_rules]: "preserves wf_db (block_create x inp)"
  by (rule preservesI)
     (auto simp: block_create_def Let_def wf_db_def wf_parts)

lemma preserves_wf_tenant_create [preserves_rules]: "preserves wf_db (tenant_create n)"
proof (rule preservesI)
  fix d assume wf: "wf_db d"
  then have seq: "\<forall>i \<in> set (d_inodes d). ino_id i < d_inode_seq d"
    by (simp add: wf_db_def wf_inodes_def)
  then have "(\<And>t. (t, d_inode_seq d) \<notin> inode_key ` set (d_inodes d))"
    by (auto simp: inode_key_def)
  then show "wf_db (snd (tenant_create n d))"
    using wf seq
    by (auto simp: tenant_create_def Let_def wf_db_def wf_parts sibling_distinct_snoc inode_key_def
        intro: less_trans)
qed

text \<open>The tables of inodes and of blocks are keyed tables.\<close>

interpretation inode_tbl: keyed_table inode_key d_inodes wf_db
  by unfold_locales (simp add: wf_db_def wf_inodes_def)

interpretation sibling_tbl: keyed_table sibling_key "\<lambda>d. children_only (d_inodes d)" wf_db
  by unfold_locales (simp add: wf_db_def wf_inodes_def)

interpretation block_tbl: keyed_table block_key d_blocks wf_db
  by unfold_locales (simp add: wf_db_def wf_files_def)

interpretation tenant_tbl: keyed_table tn_id d_tenants wf_db
  by unfold_locales (simp add: wf_db_def wf_inodes_def)

text \<open>Lookups by key, as the repositories write them.\<close>

lemma inode_get_iff:
  "wf_db d \<Longrightarrow> inode_get t i d = (Inr (Some r), d) \<longleftrightarrow>
     r \<in> set (d_inodes d) \<and> ino_tenant_id r = t \<and> ino_id r = i"
  using inode_tbl.lookup_iff [of d "(t, i)" r] by (simp add: inode_get_def inode_key_def)

lemma inode_by_name_iff:
  assumes "wf_db d"
  shows "inode_get_by_parent_and_name t p n d = (Inr (Some r), d) \<longleftrightarrow>
     r \<in> set (d_inodes d) \<and> ino_tenant_id r = t \<and> ino_parent_id r = Some p \<and> ino_name r = n"
proof -
  have "find (\<lambda>r. ino_tenant_id r = t \<and> ino_parent_id r = Some p \<and> ino_name r = n) (d_inodes d) =
      find (\<lambda>r. sibling_key r = (t, p, n)) (children_only (d_inodes d))"
    unfolding children_only_def find_filter_and
    by (rule find_cong_set) (auto simp: sibling_key_def)
  then show ?thesis
    using sibling_tbl.lookup_iff [OF assms, of "(t, p, n)" r]
    by (auto simp: inode_get_by_parent_and_name_def children_only_def sibling_key_def)
qed

end
