(* ===== verification/Manager.thy ===== *)
theory Manager
  imports LayerRepo Inodes
begin

text \<open>
  The layer manager: \<open>src/src/layer/manager.rs\<close>.  Its operations are sequences of repository
  statements, each committed on its own; an error keeps the effects of the statements
  before it.
\<close>

type_synonym 'a lm_op = "(db, layer_manager_error, 'a) op"

definition storage :: "'a db_op \<Rightarrow> 'a lm_op" where
  "storage = map_err LayerStorage"

definition lm_get_current_layer :: "uuid \<Rightarrow> layer lm_op" where
  "lm_get_current_layer t =
     bindE (storage (layer_get_current_layer t)) (\<lambda>c.
     bindE (ok_or NoCurrentLayer c) (\<lambda>layer_id.
     bindE (storage (layer_get t layer_id)) (\<lambda>l.
       ok_or (LayerNotFound layer_id) l)))"

definition lm_get_current_layer_id :: "uuid \<Rightarrow> uuid option lm_op" where
  "lm_get_current_layer_id t = storage (layer_get_current_layer t)"

definition base_layer_input :: "uuid \<Rightarrow> create_layer_input" where
  "base_layer_input t = \<lparr>cl_tenant_id = t, cl_parent_id = None, cl_name = ''base'',
     cl_description = Some ''Initial base layer'', cl_tags = None, cl_created_by = ''system'',
     cl_mount_entry_id = None, cl_is_working = False\<rparr>"

definition lm_initialize_base_layer :: "uuid \<Rightarrow> layer lm_op" where
  "lm_initialize_base_layer t =
     bindE (storage (layer_get_current_layer t)) (\<lambda>c.
     bindE (case c of None \<Rightarrow> ret None | Some layer_id \<Rightarrow> storage (layer_get t layer_id)) (\<lambda>found.
       case found of
         Some layer \<Rightarrow> ret layer
       | None \<Rightarrow>
           bindE (storage (layer_create (base_layer_input t))) (\<lambda>layer.
           bindE (storage (layer_set_current_layer t (ly_id layer))) (\<lambda>_. ret layer))))"

definition lm_list_layers :: "uuid \<Rightarrow> layer list lm_op" where
  "lm_list_layers t = storage (layer_list t)"

definition lm_get_layer_chain :: "uuid \<Rightarrow> uuid \<Rightarrow> layer list lm_op" where
  "lm_get_layer_chain t l = storage (layer_get_layer_chain t l)"

text \<open>\<open>get_future_layers\<close>: the layers with the given one in their chain, itself excluded.\<close>

definition count_depth_from :: "uuid \<Rightarrow> uuid \<Rightarrow> nat" where
  "count_depth_from from to = 0"

fun future_among :: "uuid \<Rightarrow> uuid \<Rightarrow> layer list \<Rightarrow> layer list lm_op" where
  "future_among t l [] = ret []"
| "future_among t l (layer # rest) =
     (if ly_id layer = l then future_among t l rest
      else if ly_parent_id layer \<noteq> None then
        bindE (lm_get_layer_chain t (ly_id layer)) (\<lambda>chain.
        bindE (future_among t l rest) (\<lambda>fs.
          ret (if list_ex (\<lambda>c. ly_id c = l) chain then layer # fs else fs)))
      else future_among t l rest)"

definition lm_get_future_layers :: "uuid \<Rightarrow> uuid \<Rightarrow> layer list lm_op" where
  "lm_get_future_layers t l =
     bindE (lm_list_layers t) (\<lambda>all_layers.
     bindE (future_among t l all_layers) (\<lambda>future_layers.
       ret (sort_key (\<lambda>a. count_depth_from (ly_id a) l) future_layers)))"

definition lm_set_layer_readonly :: "uuid \<Rightarrow> uuid \<Rightarrow> bool \<Rightarrow> unit lm_op" where
  "lm_set_layer_readonly t l readonly = modify (\<lambda>d.
     d\<lparr>d_layers := update_rows (\<lambda>r. ly_tenant_id r = t \<and> ly_id r = l)
        (\<lambda>r. r\<lparr>ly_is_readonly := readonly\<rparr>) (d_layers d)\<rparr>)"

definition checkpoint_input :: "uuid \<Rightarrow> uuid \<Rightarrow> str \<Rightarrow> str option \<Rightarrow> create_layer_input" where
  "checkpoint_input t current name descr =
     \<lparr>cl_tenant_id = t, cl_parent_id = Some current, cl_name = name, cl_description = descr,
      cl_tags = None, cl_created_by = ''user'', cl_mount_entry_id = None, cl_is_working = False\<rparr>"

text \<open>
  \<open>create_checkpoint_with_confirm\<close>: the guards, the confirmed deletion of the future layers
  (the list reversed), and the new layer on top of the current one, which becomes readonly.
\<close>

definition lm_delete_futures :: "uuid \<Rightarrow> layer list \<Rightarrow> unit lm_op" where
  "lm_delete_futures t future_layers =
     forE (rev future_layers) (\<lambda>layer. bindE (storage (layer_delete t (ly_id layer))) (\<lambda>_. ret ()))"

definition lm_push_layer :: "uuid \<Rightarrow> uuid \<Rightarrow> str \<Rightarrow> str option \<Rightarrow> layer lm_op" where
  "lm_push_layer t current_layer_id name descr =
     bindE (lm_set_layer_readonly t current_layer_id True) (\<lambda>_.
     bindE (storage (layer_create (checkpoint_input t current_layer_id name descr))) (\<lambda>new_layer.
     bindE (storage (layer_set_current_layer t (ly_id new_layer))) (\<lambda>_.
       ret new_layer)))"

definition lm_checkpoint_from :: "uuid \<Rightarrow> uuid \<Rightarrow> str \<Rightarrow> str option \<Rightarrow> bool \<Rightarrow> layer lm_op" where
  "lm_checkpoint_from t current_layer_id name descr confirm_delete_future =
     bindE (lm_get_future_layers t current_layer_id) (\<lambda>future_layers.
       if future_layers \<noteq> [] \<and> \<not> confirm_delete_future
       then raise (HistoricalLayerNeedsConfirmation current_layer_id future_layers)
       else
         bindE (if future_layers \<noteq> [] \<and> confirm_delete_future
                then lm_delete_futures t future_layers else ret ()) (\<lambda>_.
           lm_push_layer t current_layer_id name descr))"

definition lm_create_checkpoint_with_confirm :: "uuid \<Rightarrow> str \<Rightarrow> str option \<Rightarrow> bool \<Rightarrow> layer lm_op" where
  "lm_create_checkpoint_with_confirm t name descr confirm_delete_future =
     bindE (storage (layer_get_current_layer t)) (\<lambda>c.
     bindE (ok_or NoCurrentLayer c) (\<lambda>current_layer_id.
     bindE (storage (layer_get t current_layer_id)) (\<lambda>l.
     bindE (ok_or (LayerNotFound current_layer_id) l) (\<lambda>_.
       lm_checkpoint_from t current_layer_id name descr confirm_delete_future))))"

definition lm_create_checkpoint :: "uuid \<Rightarrow> str \<Rightarrow> str option \<Rightarrow> layer lm_op" where
  "lm_create_checkpoint t name descr = lm_create_checkpoint_with_confirm t name descr False"

definition lm_switch_to_layer :: "uuid \<Rightarrow> uuid \<Rightarrow> layer lm_op" where
  "lm_switch_to_layer t target =
     bindE (storage (layer_get t target)) (\<lambda>l.
     bindE (ok_or (LayerNotFound target) l) (\<lambda>target_layer.
     bindE (storage (layer_set_current_layer t target)) (\<lambda>_.
       ret target_layer)))"

definition lm_delete_layer :: "uuid \<Rightarrow> uuid \<Rightarrow> unit lm_op" where
  "lm_delete_layer t layer_id =
     bindE (storage (layer_get t layer_id)) (\<lambda>l.
     bindE (ok_or (LayerNotFound layer_id) l) (\<lambda>layer.
     bindE (lm_get_future_layers t layer_id) (\<lambda>future_layers.
       if future_layers \<noteq> [] then raise (HasChildLayers layer_id)
       else
         bindE (storage (layer_get_current_layer t)) (\<lambda>current.
         bindE (if current = Some layer_id
                then (case ly_parent_id layer of
                        Some parent_id \<Rightarrow> storage (layer_set_current_layer t parent_id)
                      | None \<Rightarrow> raise (InvalidLayerChain ''Cannot delete base layer''))
                else ret ()) (\<lambda>_.
         bindE (storage (layer_delete t layer_id)) (\<lambda>_. ret ()))))))"

definition lm_get_layer :: "uuid \<Rightarrow> uuid \<Rightarrow> layer option lm_op" where
  "lm_get_layer t l = storage (layer_get t l)"

definition lm_record_change ::
  "uuid \<Rightarrow> int \<Rightarrow> str \<Rightarrow> change_type \<Rightarrow> int option \<Rightarrow> json option \<Rightarrow> unit lm_op" where
  "lm_record_change t i path change size_delta text_changes =
     bindE (storage (layer_get_current_layer t)) (\<lambda>c.
     bindE (ok_or NoCurrentLayer c) (\<lambda>current_layer_id.
     bindE (storage (layer_get t current_layer_id)) (\<lambda>l.
     bindE (ok_or (LayerNotFound current_layer_id) l) (\<lambda>layer.
       if ly_is_readonly layer then raise (ReadonlyLayer current_layer_id)
       else
         bindE (storage (layer_add_entry
                  \<lparr>ce_layer_id = current_layer_id, ce_tenant_id = t, ce_inode_id = i, ce_path = path,
                   ce_change_type = change, ce_size_delta = size_delta,
                   ce_text_changes = text_changes\<rparr>)) (\<lambda>_. ret ())))))"

definition lm_get_layer_entries :: "uuid \<Rightarrow> uuid \<Rightarrow> layer_entry list lm_op" where
  "lm_get_layer_entries t l = storage (layer_list_entries t l)"

definition lm_is_at_historical_position :: "uuid \<Rightarrow> bool lm_op" where
  "lm_is_at_historical_position t =
     bindE (lm_get_current_layer_id t) (\<lambda>c.
       case c of
         Some current_id \<Rightarrow>
           bindE (lm_get_future_layers t current_id) (\<lambda>future_layers. ret (future_layers \<noteq> []))
       | None \<Rightarrow> ret False)"

section \<open>Queries do not write\<close>

lemma storage_apply:
  "storage m d = (case m d of (Inl e, d') \<Rightarrow> (Inl (LayerStorage e), d') | (Inr a, d') \<Rightarrow> (Inr a, d'))"
  by (simp add: storage_def map_err_def)

lemma storage_gets [simp]: "storage (gets f) = gets f"
  by (simp add: storage_def)

lemma preserves_storage [preserves_rules]: "preserves P m \<Longrightarrow> preserves P (storage m)"
  by (simp add: storage_def preserves_map_err)

lemma triple_storage [triple_rules]: "triple P m Q E \<Longrightarrow> triple P (storage m) Q E"
  by (simp add: storage_def triple_map_err)

definition reads :: "('s, 'e, 'a) op \<Rightarrow> bool" where
  "reads m \<longleftrightarrow> (\<forall>s. snd (m s) = s)"

lemma readsD: "reads m \<Longrightarrow> m s = (r, s') \<Longrightarrow> s' = s"
  by (metis reads_def snd_conv)

lemma reads_preserves: "reads m \<Longrightarrow> preserves P m"
  by (simp add: reads_def preserves_def)

lemma reads_bindE: "reads m \<Longrightarrow> (\<And>a. reads (f a)) \<Longrightarrow> reads (bindE m f)"
  by (auto simp: reads_def bindE_def split: prod.split sum.split) (metis snd_conv)+

lemma reads_chain: "reads (lm_get_layer_chain t l)"
  by (simp add: reads_def lm_get_layer_chain_def storage_apply layer_get_layer_chain_def
      split: option.split)

lemma reads_basic: "reads (ret a)" "reads (raise e)" "reads (gets f)"
  by (simp_all add: reads_def)

lemma reads_future_among: "reads (future_among t l ls)"
proof (induction ls)
  case Nil
  show ?case unfolding future_among.simps by (rule reads_basic)
next
  case (Cons a ls)
  then show ?case
    unfolding future_among.simps by (auto intro!: reads_bindE reads_basic reads_chain simp del: ret_apply)
qed

lemma reads_future: "reads (lm_get_future_layers t l)"
  unfolding lm_get_future_layers_def lm_list_layers_def layer_list_def
  by (auto intro!: reads_bindE reads_basic reads_future_among simp del: ret_apply)

section \<open>The manager keeps the forest\<close>

lemma preserves_layers_ok_delete [preserves_rules]: "preserves layers_ok (layer_delete t l)"
  using layer_inv_delete preservesD [OF preserves_wf_layer_delete]
  by (auto intro!: preservesI simp: layers_ok_def)

lemma preserves_layers_ok_add_entry [preserves_rules]: "preserves layers_ok (layer_add_entry inp)"
  using layer_inv_add_entry preservesD [OF preserves_wf_layer_add_entry]
  by (auto intro!: preservesI simp: layers_ok_def)

lemma triple_set_current:
  "triple (\<lambda>d. layers_ok d \<and> (l, t) \<in> layer_ref ` set (d_layers d)) (layer_set_current_layer t l)
     (\<lambda>_. layers_ok) layers_ok"
  using layer_inv_set_current preservesD [OF preserves_wf_layer_set_current_layer]
  by (intro tripleI) (metis layers_ok_def snd_conv)+

lemma set_readonly_eq:
  "lm_set_layer_readonly t l b d = (Inr (), d\<lparr>d_layers := update_rows (\<lambda>r. ly_tenant_id r = t \<and> ly_id r = l)
     (\<lambda>r. r\<lparr>ly_is_readonly := b\<rparr>) (d_layers d)\<rparr>)"
  by (simp add: lm_set_layer_readonly_def)

lemma refs_set_readonly:
  "layer_ref ` set (d_layers (snd (lm_set_layer_readonly t l b d))) = layer_ref ` set (d_layers d)"
  by (simp add: set_readonly_eq layer_ref_update layer_ref_eq)

lemma layers_ok_set_readonly:
  assumes "layers_ok d"
  shows "layers_ok (snd (lm_set_layer_readonly t l b d))"
proof -
  let ?ls = "update_rows (\<lambda>r. ly_tenant_id r = t \<and> ly_id r = l) (\<lambda>r. r\<lparr>ly_is_readonly := b\<rparr>) (d_layers d)"
  have "map ly_id ?ls = map ly_id (d_layers d)" "map layer_name_key ?ls = map layer_name_key (d_layers d)"
    by (rule map_update_rows_same; simp add: layer_name_key_def)+
  with assms have "wf_db (d\<lparr>d_layers := ?ls\<rparr>)"
    by (simp add: layers_ok_def wf_db_def wf_parts)
  moreover have "layer_inv (d\<lparr>d_layers := ?ls\<rparr>)"
    using assms by (simp add: layers_ok_def layer_inv_def rooted_update layer_ref_update layer_ref_eq)
  ultimately show ?thesis by (simp add: set_readonly_eq layers_ok_def)
qed

lemma preserves_layers_ok_readonly [preserves_rules]: "preserves layers_ok (lm_set_layer_readonly t l b)"
  by (rule preservesI) (rule layers_ok_set_readonly)

lemma preserves_layers_ok_future [preserves_rules]: "preserves layers_ok (lm_get_future_layers t l)"
  by (rule reads_preserves [OF reads_future])

lemma triple_gets_keep: "(\<And>s. P s \<Longrightarrow> Q (f s) s) \<Longrightarrow> triple P (gets f) Q E"
  by (rule tripleI) auto

text \<open>The read of a layer by its id, as the manager's operations start.\<close>

definition has_layer :: "uuid \<Rightarrow> uuid \<Rightarrow> db \<Rightarrow> bool" where
  "has_layer t l d \<longleftrightarrow> (l, t) \<in> layer_ref ` set (d_layers d)"

lemma has_layerI: "r \<in> set (d_layers d) \<Longrightarrow> has_layer (ly_tenant_id r) (ly_id r) d"
  by (auto simp: has_layer_def layer_ref_def)

lemma find_has_layer:
  "find (\<lambda>r. ly_tenant_id r = t \<and> ly_id r = l) (d_layers d) = Some r \<Longrightarrow> has_layer t l d"
  by (auto dest!: find_SomeD intro: has_layerI)

text \<open>The manager's guard: the current layer of the tenant, which must exist.\<close>

lemma lm_current_cases:
  assumes "layers_ok d"
  obtains (none) "layer_get_current_layer t d = (Inr None, d)"
    | (current) l r where "layer_get_current_layer t d = (Inr (Some l), d)"
        "layer_get t l d = (Inr (Some r), d)" "r \<in> set (d_layers d)" "ly_tenant_id r = t" "ly_id r = l"
proof (cases "find (\<lambda>c. tcl_tenant_id c = t) (d_current d)")
  case None
  then show ?thesis using none by (simp add: layer_get_current_layer_def)
next
  case (Some c)
  then have c: "c \<in> set (d_current d)" "tcl_tenant_id c = t" by (auto dest: find_SomeD)
  with assms have "(tcl_layer_id c, t) \<in> layer_ref ` set (d_layers d)"
    by (auto simp: layers_ok_def layer_inv_def)
  then obtain r where r: "r \<in> set (d_layers d)" "ly_tenant_id r = t" "ly_id r = tcl_layer_id c"
    by (auto simp: layer_ref_def)
  then have "layer_get t (tcl_layer_id c) d = (Inr (Some r), d)"
    using assms by (simp add: layer_get_iff layers_ok_def)
  with r Some show ?thesis using current [of "tcl_layer_id c" r] by (simp add: layer_get_current_layer_def)
qed

lemma preserves_layers_ok_init [preserves_rules]: "preserves layers_ok (lm_initialize_base_layer t)"
proof -
  have 1: "triple layers_ok (storage (layer_create (base_layer_input t)))
      (\<lambda>r d. layers_ok d \<and> r \<in> set (d_layers d) \<and> ly_tenant_id r = t) layers_ok"
    by (rule triple_storage, rule triple_weaken [OF triple_layer_create]) (simp_all add: base_layer_input_def)
  have 2: "triple (\<lambda>d. layers_ok d \<and> r \<in> set (d_layers d) \<and> ly_tenant_id r = t)
      (storage (layer_set_current_layer t (ly_id r))) (\<lambda>_. layers_ok) layers_ok" for r
    by (rule triple_storage, rule triple_weaken [OF triple_set_current]) (auto simp: layer_ref_def)
  have "preserves layers_ok (bindE (storage (layer_create (base_layer_input t))) (\<lambda>layer.
           bindE (storage (layer_set_current_layer t (ly_id layer))) (\<lambda>_. ret layer)))"
    unfolding preserves_triple
    by (rule triple_bindE [OF 1], rule triple_bindE [OF 2], rule triple_ret)
  then show ?thesis
    unfolding lm_initialize_base_layer_def layer_get_current_layer_def layer_get_def storage_gets
    by (auto intro!: preserves_rules simp del: ret_apply)
qed

lemma preserves_layers_ok_switch [preserves_rules]: "preserves layers_ok (lm_switch_to_layer t l)"
proof (rule preservesI)
  fix d assume ok: "layers_ok d"
  show "layers_ok (snd (lm_switch_to_layer t l d))"
  proof (cases "find (\<lambda>r. ly_tenant_id r = t \<and> ly_id r = l) (d_layers d)")
    case None
    with ok show ?thesis by (simp add: lm_switch_to_layer_def layer_get_def del: find_None_conv)
  next
    case (Some r)
    then have "(l, t) \<in> layer_ref ` set (d_layers d)" using find_has_layer by (simp add: has_layer_def)
    with ok have "layers_ok (snd (layer_set_current_layer t l d))"
      using triple_snd [OF triple_set_current] by blast
    then have "layers_ok (snd (bindE (storage (layer_set_current_layer t l)) (\<lambda>_. ret r) d))"
      by (auto simp: bindE_def storage_apply split: prod.splits sum.splits)
    with Some show ?thesis by (simp add: lm_switch_to_layer_def layer_get_def)
  qed
qed

lemma preserves_layers_ok_record [preserves_rules]:
  "preserves layers_ok (lm_record_change t i p c sd tc)"
  unfolding lm_record_change_def layer_get_current_layer_def layer_get_def storage_gets
  by (intro preserves_rules)

lemma forE_preserves: "(\<And>x. x \<in> set xs \<Longrightarrow> preserves P (f x)) \<Longrightarrow> preserves P (forE xs f)"
  by (induction xs) (auto intro: preserves_rules simp del: ret_apply)

text \<open>Deleting layers below the current one keeps the current one, since a tenant refers to it.\<close>

lemma delete_keeps_current:
  assumes "(\<exists>c \<in> set (d_current d). tcl_layer_id c = k \<and> tcl_tenant_id c = t) \<and> has_layer t k d"
  shows "(\<exists>c \<in> set (d_current (snd (layer_delete t l d))). tcl_layer_id c = k \<and> tcl_tenant_id c = t) \<and>
     has_layer t k (snd (layer_delete t l d))"
proof (cases "l = k")
  case True
  with assms show ?thesis by (auto simp: layer_delete_def)
next
  case False
  have "layer_ref ` set (d_layers (delete_layer_rows P d)) = layer_ref ` set (delete_rows P (d_layers d))" for P
    by (rule layer_ref_via_shape) simp
  with assms False show ?thesis by (auto simp: layer_delete_def has_layer_def layer_ref_def)
qed

definition at_layer :: "uuid \<Rightarrow> uuid \<Rightarrow> db \<Rightarrow> bool" where
  "at_layer t l d \<longleftrightarrow> layers_ok d \<and>
     (\<exists>c \<in> set (d_current d). tcl_layer_id c = l \<and> tcl_tenant_id c = t) \<and> has_layer t l d"

lemma preserves_at_layer_delete: "preserves (at_layer t l) (layer_delete t k)"
  using delete_keeps_current preservesD [OF preserves_layers_ok_delete]
  unfolding at_layer_def by (intro preservesI) blast

lemma triple_push_layer: "triple (at_layer t l) (lm_push_layer t l n descr) (\<lambda>_. layers_ok) layers_ok"
proof -
  have upd: "triple (at_layer t l) (lm_set_layer_readonly t l True) (\<lambda>_ d. layers_ok d \<and> has_layer t l d) layers_ok"
    using layers_ok_set_readonly refs_set_readonly [of t l True]
    by (intro tripleI) (metis at_layer_def has_layer_def snd_conv)+
  have new: "triple (\<lambda>d. layers_ok d \<and> has_layer t l d) (storage (layer_create (checkpoint_input t l n descr)))
      (\<lambda>r d. layers_ok d \<and> r \<in> set (d_layers d) \<and> ly_tenant_id r = t) layers_ok"
    by (rule triple_storage, rule triple_weaken [OF triple_layer_create])
       (simp_all add: checkpoint_input_def has_layer_def)
  have cur: "triple (\<lambda>d. layers_ok d \<and> q \<in> set (d_layers d) \<and> ly_tenant_id q = t)
      (storage (layer_set_current_layer t (ly_id q))) (\<lambda>_. layers_ok) layers_ok" for q
    by (rule triple_storage, rule triple_weaken [OF triple_set_current]) (auto simp: layer_ref_def)
  show ?thesis
    unfolding lm_push_layer_def
    by (rule triple_bindE [OF upd], rule triple_bindE [OF new], rule triple_bindE [OF cur], rule triple_ret)
qed

lemma triple_at_layer:
  "preserves (at_layer t l) m \<Longrightarrow> triple (at_layer t l) m (\<lambda>_. at_layer t l) layers_ok"
  unfolding preserves_triple by (erule triple_weaken) (simp_all add: at_layer_def)

lemma triple_checkpoint_from:
  "triple (at_layer t l) (lm_checkpoint_from t l n descr confirm) (\<lambda>_. layers_ok) layers_ok"
proof -
  have del: "preserves (at_layer t l) (if b then lm_delete_futures t fs else ret ())" for b fs
    unfolding lm_delete_futures_def
    by (intro preserves_If preserves_forE preserves_bindE preserves_storage preserves_at_layer_delete preserves_ret)
  have get: "preserves (at_layer t l) (lm_get_future_layers t l)"
    by (rule reads_preserves [OF reads_future])
  have stop: "triple (at_layer t l) (raise e) (\<lambda>_. layers_ok) layers_ok" for e
    by (rule triple_raise) (simp add: at_layer_def)
  show ?thesis
    unfolding lm_checkpoint_from_def
    by (rule triple_bindE [OF triple_at_layer [OF get]], rule triple_If, rule stop,
        rule triple_bindE [OF triple_at_layer [OF del] triple_push_layer])
qed

lemma checkpoint_at_current:
  assumes "layer_get_current_layer t d = (Inr (Some l), d)" "layer_get t l d = (Inr (Some r), d)"
  shows "lm_create_checkpoint_with_confirm t n descr confirm d = lm_checkpoint_from t l n descr confirm d"
  unfolding lm_create_checkpoint_with_confirm_def
  by (simp add: bindE_Inr [where m = "storage (layer_get_current_layer t)", of d "Some l" d]
      bindE_Inr [where m = "storage (layer_get t l)", of d "Some r" d] storage_apply assms)

lemma preserves_layers_ok_checkpoint [preserves_rules]:
  "preserves layers_ok (lm_create_checkpoint_with_confirm t n descr confirm)"
proof (rule preservesI)
  fix d assume ok: "layers_ok d"
  show "layers_ok (snd (lm_create_checkpoint_with_confirm t n descr confirm d))"
  proof (rule lm_current_cases [OF ok, of t])
    assume "layer_get_current_layer t d = (Inr None, d)"
    with ok show ?thesis
      by (simp add: lm_create_checkpoint_with_confirm_def bindE_def storage_apply)
  next
    fix l r assume current: "layer_get_current_layer t d = (Inr (Some l), d)"
      "layer_get t l d = (Inr (Some r), d)" "r \<in> set (d_layers d)" "ly_tenant_id r = t" "ly_id r = l"
    have "wf_db d" using ok by (simp add: layers_ok_def)
    with current ok have "at_layer t l d"
      using has_layerI [of r d] by (auto simp: at_layer_def layer_current_iff)
    then show ?thesis
      unfolding checkpoint_at_current [OF current(1,2)] by (rule triple_snd [OF triple_checkpoint_from])
  qed
qed

lemma rooted_parent:
  "rooted S (map layer_shape ls) \<Longrightarrow> r \<in> set ls \<Longrightarrow> ly_parent_id r = Some p \<Longrightarrow>
   (p, ly_tenant_id r) \<in> S \<union> layer_ref ` set ls"
proof (induction ls arbitrary: S)
  case (Cons a ls)
  from Cons.prems(1) have a: "\<forall>q. ly_parent_id a = Some q \<longrightarrow> (q, ly_tenant_id a) \<in> S"
    "rooted (insert (layer_ref a) S) (map layer_shape ls)"
    unfolding rooted_layer_Cons by blast+
  show ?case
  proof (cases "r = a")
    case True
    with a(1) Cons.prems(3) show ?thesis by simp
  next
    case False
    with Cons.prems(2) have "r \<in> set ls" by simp
    from Cons.IH [OF a(2) this Cons.prems(3)] show ?thesis by auto
  qed
qed simp

lemma parent_has_layer:
  "layer_inv d \<Longrightarrow> r \<in> set (d_layers d) \<Longrightarrow> ly_parent_id r = Some p \<Longrightarrow> has_layer (ly_tenant_id r) p d"
  using rooted_parent [of "{}" "d_layers d" r p] by (simp add: layer_inv_def has_layer_def)

lemma preserves_layers_ok_delete_layer [preserves_rules]: "preserves layers_ok (lm_delete_layer t l)"
proof (rule preservesI)
  fix d assume ok: "layers_ok d"
  show "layers_ok (snd (lm_delete_layer t l d))"
  proof (cases "find (\<lambda>r. ly_tenant_id r = t \<and> ly_id r = l) (d_layers d)")
    case None
    with ok show ?thesis by (simp add: lm_delete_layer_def layer_get_def del: find_None_conv)
  next
    case (Some r)
    then have r: "r \<in> set (d_layers d)" "ly_tenant_id r = t" "ly_id r = l" by (auto dest: find_SomeD)
    let ?P = "\<lambda>d. layers_ok d \<and> r \<in> set (d_layers d)"
    have move: "triple ?P (storage (layer_set_current_layer t p)) (\<lambda>_. layers_ok) layers_ok"
      if "ly_parent_id r = Some p" for p
      using parent_has_layer [OF _ _ that] r(2)
      by (intro triple_storage triple_weaken [OF triple_set_current]) (auto simp: layers_ok_def has_layer_def)
    have stay: "triple ?P (ret ()) (\<lambda>_. layers_ok) layers_ok" "triple ?P (raise e) (\<lambda>_. layers_ok) layers_ok" for e
      by (rule triple_ret triple_raise; blast)+
    have switch: "triple ?P (if cur = Some l
                then (case ly_parent_id r of
                        Some parent_id \<Rightarrow> storage (layer_set_current_layer t parent_id)
                      | None \<Rightarrow> raise (InvalidLayerChain ''Cannot delete base layer''))
                else ret ()) (\<lambda>_. layers_ok) layers_ok" for cur
      using move stay by (cases "ly_parent_id r"; cases "cur = Some l") auto
    have del: "triple layers_ok (bindE (storage (layer_delete t l)) (\<lambda>_. ret ())) (\<lambda>_. layers_ok) layers_ok"
      using preserves_bindE [OF preserves_storage [OF preserves_layers_ok_delete] preserves_ret]
      by (simp add: preserves_triple)
    have get: "triple ?P (gets f) (\<lambda>_. ?P) layers_ok" for f :: "db \<Rightarrow> uuid option"
      by (rule triple_gets_keep)
    have fut: "triple ?P (lm_get_future_layers t l) (\<lambda>_. ?P) layers_ok"
      using reads_preserves [OF reads_future, of ?P t l] unfolding preserves_triple
      by (rule triple_weaken) auto
    have "triple ?P (bindE (lm_get_future_layers t l) (\<lambda>future_layers.
       if future_layers \<noteq> [] then raise (HasChildLayers l)
       else
         bindE (storage (layer_get_current_layer t)) (\<lambda>current.
         bindE (if current = Some l
                then (case ly_parent_id r of
                        Some parent_id \<Rightarrow> storage (layer_set_current_layer t parent_id)
                      | None \<Rightarrow> raise (InvalidLayerChain ''Cannot delete base layer''))
                else ret ()) (\<lambda>_.
         bindE (storage (layer_delete t l)) (\<lambda>_. ret ()))))) (\<lambda>_. layers_ok) layers_ok"
      unfolding layer_get_current_layer_def storage_gets
      by (rule triple_bindE [OF fut], rule triple_If, rule stay, rule triple_bindE [OF get],
          rule triple_bindE [OF switch del])
    from triple_snd [OF this, of d] show ?thesis
      using ok r(1) Some by (simp add: lm_delete_layer_def layer_get_def)
  qed
qed

section \<open>Future layers are the descendants\<close>

text \<open>\<open>below ls l r\<close>: following parents from \<open>r\<close> one reaches, after at least one step, the layer \<open>l\<close>.\<close>

inductive below :: "layer list \<Rightarrow> uuid \<Rightarrow> layer \<Rightarrow> bool" for ls l where
  child: "r \<in> set ls \<Longrightarrow> ly_parent_id r = Some l \<Longrightarrow> below ls l r"
| deeper: "r \<in> set ls \<Longrightarrow> ly_parent_id r = Some (ly_id q) \<Longrightarrow> below ls l q \<Longrightarrow> below ls l r"

inductive_cases belowE: "below ls l r"

lemma chain_below:
  assumes "linked (r # c)" and "set (r # c) \<subseteq> set ls" and "l \<in> ly_id ` set c"
  shows "below ls l r"
  using assms
proof (induction c arbitrary: r)
  case (Cons q c)
  then have p: "ly_parent_id r = Some (ly_id q)" "linked (q # c)" "r \<in> set ls" by auto
  show ?case
  proof (cases "ly_id q = l")
    case True
    with p show ?thesis by (auto intro: child)
  next
    case False
    with Cons.prems have "below ls l q" by (intro Cons.IH) auto
    with p show ?thesis by (auto intro: deeper)
  qed
qed simp

lemma below_chain:
  assumes "below ls l r" and "distinct (map ly_id ls)" and "linked (r # c)" and "set (r # c) \<subseteq> set ls"
  shows "l \<in> ly_id ` set c"
  using assms(1,3,4)
proof (induction arbitrary: c)
  case (child r)
  then show ?case by (cases c) auto
next
  case (deeper r q)
  then obtain q' c' where c: "c = q' # c'" "ly_id q' = ly_id q" "linked (q' # c')" "q' \<in> set ls"
    by (cases c) auto
  have "q \<in> set ls" using deeper.hyps(3) by (auto elim: belowE)
  with c assms(2) have "q' = q" by (auto simp: distinct_map dest: inj_onD)
  with c deeper.IH [of c'] deeper.prems(2) show ?case by auto
qed

lemma chain_test:
  assumes "layers_ok d" "r \<in> set (d_layers d)" "ly_tenant_id r = t"
  shows "\<exists>chain. lm_get_layer_chain t (ly_id r) d = (Inr chain, d) \<and>
     (ly_id r \<noteq> l \<longrightarrow> list_ex (\<lambda>c. ly_id c = l) chain = below (d_layers d) l r) \<and>
     (ly_id r = l \<longrightarrow> \<not> below (d_layers d) l r)"
proof -
  have wf: "wf_db d" and inv: "layer_inv d" using assms(1) by (simp_all add: layers_ok_def)
  have ids: "distinct (map ly_id (d_layers d))" using wf by (simp add: wf_db_def wf_layers_def)
  from layer_chain_exists [OF wf inv assms(2)] assms(3) obtain c where c:
    "layer_get_layer_chain t (ly_id r) d = (Inr (r # c), d)" "linked (r # c)"
    "set c \<subseteq> set (d_layers d)" "distinct (r # c)" by auto
  have sub: "set (r # c) \<subseteq> set (d_layers d)" using c(3) assms(2) by simp
  have iff: "l \<in> ly_id ` set c \<longleftrightarrow> below (d_layers d) l r"
    using chain_below [OF c(2) sub] below_chain [OF _ ids c(2) sub] by blast
  have "ly_id r \<notin> ly_id ` set c"
    using c(4) sub ids by (auto simp: distinct_map dest: inj_onD)
  with iff have "ly_id r = l \<longrightarrow> \<not> below (d_layers d) l r" by auto
  moreover have "list_ex (\<lambda>k. ly_id k = l) (r # c) = below (d_layers d) l r" if "ly_id r \<noteq> l"
    using that iff by (auto simp: list_ex_iff)
  ultimately show ?thesis using c(1) by (simp add: lm_get_layer_chain_def storage_apply)
qed

lemma below_has_parent: "below ls l r \<Longrightarrow> ly_parent_id r \<noteq> None"
  by (auto elim: belowE)

lemma future_among_eq:
  assumes "layers_ok d" "set ls \<subseteq> {r \<in> set (d_layers d). ly_tenant_id r = t}"
  shows "future_among t l ls d = (Inr (filter (below (d_layers d) l) ls), d)"
  using assms(2)
proof (induction ls)
  case (Cons a ls)
  then have a: "a \<in> set (d_layers d)" "ly_tenant_id a = t"
    and IH: "future_among t l ls d = (Inr (filter (below (d_layers d) l) ls), d)" by auto
  from chain_test [OF assms(1) a, of l] obtain chain where ch:
    "lm_get_layer_chain t (ly_id a) d = (Inr chain, d)"
    "ly_id a \<noteq> l \<longrightarrow> list_ex (\<lambda>c. ly_id c = l) chain = below (d_layers d) l a"
    "ly_id a = l \<longrightarrow> \<not> below (d_layers d) l a" by blast
  show ?case
    using ch IH below_has_parent [of "d_layers d" l a]
    by (auto simp: bindE_Inr [where m = "lm_get_layer_chain _ _", OF ch(1)]
        bindE_Inr [where m = "future_among _ _ _", OF IH])
qed simp

lemma future_eq:
  assumes "layers_ok d"
  shows "lm_get_future_layers t l d =
    (Inr (filter (below (d_layers d) l)
        (rev (sort_key ly_created_at (filter (\<lambda>r. ly_tenant_id r = t) (d_layers d))))), d)"
proof -
  let ?all = "rev (sort_key ly_created_at (filter (\<lambda>r. ly_tenant_id r = t) (d_layers d)))"
  have "future_among t l ?all d = (Inr (filter (below (d_layers d) l) ?all), d)"
    by (rule future_among_eq [OF assms]) auto
  then show ?thesis
    by (simp add: lm_get_future_layers_def lm_list_layers_def layer_list_def count_depth_from_def
        sort_key_id_if_sorted sorted_map bindE_def)
qed

section \<open>Checkpoints\<close>

lemma readonly_rows:
  "map layer_name_key (update_rows P (\<lambda>r. r\<lparr>ly_is_readonly := b\<rparr>) ls) = map layer_name_key ls"
  "map ly_id (update_rows P (\<lambda>r. r\<lparr>ly_is_readonly := b\<rparr>) ls) = map ly_id ls"
  by (rule map_update_rows_same; simp add: layer_name_key_def)+

lemma readonly_rows_image:
  "layer_name_key ` set (update_rows P (\<lambda>r. r\<lparr>ly_is_readonly := b\<rparr>) ls) = layer_name_key ` set ls"
  "ly_id ` set (update_rows P (\<lambda>r. r\<lparr>ly_is_readonly := b\<rparr>) ls) = ly_id ` set ls"
  using readonly_rows [of P b ls] by (metis set_map)+

lemma layer_create_succeeds:
  assumes "ids_drawn d" "varchar 255 (cl_name inp)" "varchar 255 (cl_created_by inp)"
    and "(cl_tenant_id inp, cl_name inp) \<notin> layer_name_key ` set (d_layers d)"
    and "cl_tenant_id inp \<in> tn_id ` set (d_tenants d)"
    and "\<And>p. cl_parent_id inp = Some p \<Longrightarrow> p \<in> ly_id ` set (d_layers d)"
    and "cl_mount_entry_id inp = None"
  shows "\<exists>r d'. layer_create inp d = (Inr r, d')"
proof -
  have "\<forall>l \<in> set (d_layers d). ly_id l \<noteq> d_entropy d (d_draws d)"
    using ids_drawn_new(4) [OF assms(1)] by blast
  moreover have "\<forall>l \<in> set (d_layers d). layer_name_key l \<noteq> (cl_tenant_id inp, cl_name inp)"
    using assms(4) by force
  moreover have "\<exists>r \<in> set (d_tenants d). tn_id r = cl_tenant_id inp" using assms(5) by auto
  moreover have "\<exists>l \<in> set (d_layers d). ly_id l = p" if "cl_parent_id inp = Some p" for p
    using assms(6) [OF that] by auto
  ultimately show ?thesis
    using assms(2,3,7) by (auto simp: layer_create_def Let_def layer_name_key_def split: option.split)
qed

lemma push_layer_spec:
  assumes at: "at_layer t l d" and ids: "ids_drawn d" and tn: "t \<in> tn_id ` set (d_tenants d)"
    and name: "varchar 255 n" "(t, n) \<notin> layer_name_key ` set (d_layers d)"
  shows "\<exists>new d'. lm_push_layer t l n descr d = (Inr new, d') \<and>
    ly_parent_id new = Some l \<and> ly_tenant_id new = t \<and> ly_name new = n \<and> \<not> ly_is_readonly new \<and>
    d_layers d' = update_rows (\<lambda>r. ly_tenant_id r = t \<and> ly_id r = l) (\<lambda>r. r\<lparr>ly_is_readonly := True\<rparr>) (d_layers d) @ [new] \<and>
    layer_get_current_layer t d' = (Inr (Some (ly_id new)), d')"
proof -
  let ?ls = "update_rows (\<lambda>r. ly_tenant_id r = t \<and> ly_id r = l) (\<lambda>r. r\<lparr>ly_is_readonly := True\<rparr>) (d_layers d)"
  let ?d1 = "d\<lparr>d_layers := ?ls\<rparr>"
  have ids1: "ids_drawn ?d1"
    using ids by (simp add: ids_drawn_def db_ids_def readonly_rows_image)
  have "l \<in> ly_id ` set (d_layers d)" using at by (auto simp: at_layer_def has_layer_def layer_ref_def)
  moreover have "varchar 255 ''user''" by (rule varchar_short) simp
  ultimately obtain new d2 where c: "layer_create (checkpoint_input t l n descr) ?d1 = (Inr new, d2)"
    using layer_create_succeeds [OF ids1, of "checkpoint_input t l n descr"] name tn
    by (auto simp: checkpoint_input_def readonly_rows_image)
  note new = layer_create_InrD [OF c]
  obtain cur where cur: "cur \<in> set (d_current d)" "tcl_tenant_id cur = t"
    using at by (auto simp: at_layer_def)
  let ?upd = "\<lambda>c. c\<lparr>tcl_layer_id := ly_id new, tcl_updated_at := Suc (d_clock d)\<rparr>"
  let ?cs = "update_rows (\<lambda>c. tcl_tenant_id c = t) ?upd (d_current d)"
  have set: "layer_set_current_layer t (ly_id new) d2 =
      (Inr (), d2\<lparr>d_clock := Suc (d_clock d2), d_current := ?cs\<rparr>)"
    using cur by (auto simp: layer_set_current_layer_def new(2))
  have "find (\<lambda>c. tcl_tenant_id c = t) ?cs = map_option ?upd (find (\<lambda>c. tcl_tenant_id c = t) (d_current d))"
    by (rule find_update_rows) simp
  moreover obtain c' where "find (\<lambda>c. tcl_tenant_id c = t) (d_current d) = Some c'"
    using cur by (metis (mono_tags, lifting) find_None_conv not_None_eq)
  ultimately have now: "find (\<lambda>c. tcl_tenant_id c = t) ?cs = Some (?upd c')" by simp
  have run: "lm_push_layer t l n descr d = (Inr new, d2\<lparr>d_clock := Suc (d_clock d2), d_current := ?cs\<rparr>)"
    using c set by (simp add: lm_push_layer_def bindE_def storage_apply set_readonly_eq)
  show ?thesis
    by (rule exI [of _ new], rule exI [of _ "d2\<lparr>d_clock := Suc (d_clock d2), d_current := ?cs\<rparr>"])
       (use run now in \<open>simp add: new(2) layer_get_current_layer_def, simp add: new(1) checkpoint_input_def\<close>)
qed

lemma below_child: "below ls l r \<Longrightarrow> \<exists>q \<in> set ls. ly_parent_id q = Some l"
  by (induction rule: below.induct) auto

lemma below_in: "below ls l r \<Longrightarrow> r \<in> set ls"
  by (auto elim: belowE)

lemma unique_layer:
  "layers_ok d \<Longrightarrow> a \<in> set (d_layers d) \<Longrightarrow> b \<in> set (d_layers d) \<Longrightarrow> ly_id a = ly_id b \<Longrightarrow> a = b"
  using layer_tbl.lookup_unique [of d a b] by (simp add: layers_ok_def)

lemma parent_tenant:
  assumes "layers_ok d" "has_layer t l d" "r \<in> set (d_layers d)" "ly_parent_id r = Some l"
  shows "ly_tenant_id r = t"
proof -
  have "has_layer (ly_tenant_id r) l d"
    using parent_has_layer [OF _ assms(3,4)] assms(1) by (simp add: layers_ok_def)
  with assms(2) obtain a b where "a \<in> set (d_layers d)" "ly_id a = l" "ly_tenant_id a = t"
    "b \<in> set (d_layers d)" "ly_id b = l" "ly_tenant_id b = ly_tenant_id r"
    by (auto simp: has_layer_def layer_ref_def)
  with unique_layer [OF assms(1)] show ?thesis by metis
qed

lemma below_tenant:
  assumes "layers_ok d" "has_layer t l d" "below (d_layers d) l r"
  shows "ly_tenant_id r = t"
  using assms(3)
proof induction
  case (child r)
  then show ?case using parent_tenant [OF assms(1,2)] by blast
next
  case (deeper r q)
  then have "has_layer t (ly_id q) d" using below_in has_layerI by metis
  from parent_tenant [OF assms(1) this deeper.hyps(1,2)] show ?case .
qed

lemma set_futures:
  assumes "layers_ok d" "has_layer t l d"
  shows "\<exists>fs. lm_get_future_layers t l d = (Inr fs, d) \<and> set fs = {r. below (d_layers d) l r}"
  using future_eq [OF assms(1), of t l] below_tenant [OF assms] below_in by (auto simp: Collect_conj_eq)

lemma no_child_no_future:
  assumes "layers_ok d" "list_all (\<lambda>r. ly_parent_id r \<noteq> Some l) (d_layers d)"
  shows "lm_get_future_layers t l d = (Inr [], d)"
  using future_eq [OF assms(1), of t l] assms(2) below_child [of "d_layers d" l]
  by (fastforce simp: list_all_iff filter_empty_conv)

lemma current_at_layer:
  assumes "layers_ok d" "layer_get_current_layer t d = (Inr (Some l), d)"
  shows "at_layer t l d" and "\<exists>r. layer_get t l d = (Inr (Some r), d) \<and> r \<in> set (d_layers d) \<and>
    ly_tenant_id r = t \<and> ly_id r = l"
proof -
  have ex: "\<exists>r. layer_get t l d = (Inr (Some r), d) \<and> r \<in> set (d_layers d) \<and> ly_tenant_id r = t \<and> ly_id r = l"
    by (rule lm_current_cases [OF assms(1), of t]) (use assms(2) in auto)
  then show "\<exists>r. layer_get t l d = (Inr (Some r), d) \<and> r \<in> set (d_layers d) \<and>
    ly_tenant_id r = t \<and> ly_id r = l" .
  have "wf_db d" using assms(1) by (simp add: layers_ok_def)
  moreover have "has_layer t l d" using ex has_layerI by metis
  ultimately show "at_layer t l d"
    using assms by (auto simp: at_layer_def layer_current_iff)
qed

text \<open>
  The library functions as constants, and a concrete database for the instances below: one
  tenant with its base layer.
\<close>

definition example_ext :: ext where
  "example_ext = \<lparr>blake3_hex = (\<lambda>s. replicate 64 CHR ''0''), default_hasher = length,
     text_diff = (\<lambda>old new. map (\<lambda>_. DeleteTag) old @ map (\<lambda>_. InsertTag) new),
     uuid_to_string = (\<lambda>u. replicate u CHR ''x''), uuid_parse = (\<lambda>s. Some (length s)),
     json_parse = (\<lambda>s. None), json_pretty = (\<lambda>j. ''''), collate_le = (\<lambda>a b. length a \<le> length b),
     show_db_error = (\<lambda>e. ''error''), decode_timestamp = Some, show_time = (\<lambda>t. ''''),
     json_error = (\<lambda>t s. ''invalid'')\<rparr>"

definition example_db :: db where
  "example_db = snd (lm_initialize_base_layer 0 (snd (tenant_create ''acme'' (empty_db (\<lambda>n. n)))))"

lemma example_names: "varchar 253 ''acme''" "varchar 255 ''base''" "varchar 255 ''system''"
  by (simp_all add: varchar_short)

lemma example_db_eq: "example_db = 
  \<lparr>d_tenants = [\<lparr>tn_id = 0, tn_name = ''acme'', tn_root_inode_id = 1, tn_created_at = 0, tn_updated_at = 0\<rparr>],
    d_inodes = [\<lparr>ino_id = 1, ino_tenant_id = 0, ino_parent_id = None,
          ino_name = ''/'', ino_type = Dir, ino_mode = 493, ino_uid = 0,
          ino_gid = 0, ino_size = 4096, ino_atime = 0, ino_mtime = 0, ino_ctime = 0\<rparr>],
    d_blocks = [],
    d_layers = [\<lparr>ly_id = 1, ly_tenant_id = 0, ly_parent_id = None,
          ly_name = ''base'', ly_description = Some ''Initial base layer'',
          ly_file_count = 0, ly_total_size = 0, ly_status = Active,
          ly_is_readonly = False, ly_tags = None, ly_created_at = 1,
          ly_created_by = ''system'', ly_mount_entry_id = None, ly_is_working = False\<rparr>],
    d_entries = [], d_current = [\<lparr>tcl_tenant_id = 0, tcl_layer_id = 1, tcl_updated_at = 2\<rparr>],
    d_text_blocks = [], d_text_meta = [], d_text_lines = [], d_mounts = [],
    d_published = [], d_inode_seq = 2, d_clock = 3, d_entropy = (\<lambda>n. n), d_draws = 2\<rparr>"
  by (simp add: example_db_def tenant_create_def empty_db_def example_names lm_initialize_base_layer_def
      Let_def layer_get_current_layer_def storage_apply layer_create_def bindE_def base_layer_input_def layer_get_def
      layer_set_current_layer_def exists_row_def)

lemma example_ok: "layers_ok example_db" by code_simp

lemma example_ids: "ids_drawn example_db"
  by (simp add: example_db_eq ids_drawn_def db_ids_def) 

lemma checkpoint_at_tip_core:
  assumes "layers_ok d" and "ids_drawn d"
    and "layer_get_current_layer t d = (Inr (Some l), d)"
    and "list_all (\<lambda>r. ly_parent_id r \<noteq> Some l) (d_layers d)"
    and "t \<in> set (map tn_id (d_tenants d))"
    and "varchar 255 name" and "(t, name) \<notin> set (map layer_name_key (d_layers d))"
  shows "\<exists>new d'. lm_create_checkpoint t name descr d = (Inr new, d') \<and>
    ly_parent_id new = Some l \<and> ly_tenant_id new = t \<and> ly_name new = name \<and> \<not> ly_is_readonly new \<and>
    d_layers d' = update_rows (\<lambda>r. ly_tenant_id r = t \<and> ly_id r = l)
      (\<lambda>r. r\<lparr>ly_is_readonly := True\<rparr>) (d_layers d) @ [new] \<and>
    layer_get_current_layer t d' = (Inr (Some (ly_id new)), d')"
proof -
  obtain r where r: "layer_get t l d = (Inr (Some r), d)" and at: "at_layer t l d"
    using current_at_layer [OF assms(1,3)] by blast
  have "lm_create_checkpoint t name descr d = lm_push_layer t l name descr d"
    unfolding lm_create_checkpoint_def checkpoint_at_current [OF assms(3) r] lm_checkpoint_from_def
    by (simp add: bindE_Inr [where m = "lm_get_future_layers t l", OF no_child_no_future [OF assms(1,4)]])
  with push_layer_spec [OF at assms(2) _ assms(6), of descr] assms(5,7) show ?thesis by simp
qed

text \<open>
  C9.  A checkpoint taken at the tip of the layer graph succeeds: it returns a writable layer
  whose parent is the layer that was current, makes it the current layer, marks the old one
  read-only, and leaves every other layer as it was.
\<close>

theorem checkpoint_at_tip:
  assumes "layers_ok d" and "ids_drawn d"
    and "layer_get_current_layer t d = (Inr (Some l), d)"
    and "list_all (\<lambda>r. ly_parent_id r \<noteq> Some l) (d_layers d)"
    and "t \<in> set (map tn_id (d_tenants d))"
    and "varchar 255 name" and "(t, name) \<notin> set (map layer_name_key (d_layers d))"
  shows "\<exists>new d'. lm_create_checkpoint t name descr d = (Inr new, d') \<and>
    ly_parent_id new = Some l \<and> ly_tenant_id new = t \<and> ly_name new = name \<and> \<not> ly_is_readonly new \<and>
    d_layers d' = update_rows (\<lambda>r. ly_tenant_id r = t \<and> ly_id r = l)
      (\<lambda>r. r\<lparr>ly_is_readonly := True\<rparr>) (d_layers d) @ [new] \<and>
    layer_get_current_layer t d' = (Inr (Some (ly_id new)), d')"
  by (rule checkpoint_at_tip_core [OF assms])

theorem checkpoint_at_tip_witness:
  "\<exists>new d'. lm_create_checkpoint 0 ''v1'' None example_db = (Inr new, d') \<and>
    ly_parent_id new = Some 1 \<and> ly_tenant_id new = 0 \<and> ly_name new = ''v1'' \<and> \<not> ly_is_readonly new \<and>
    d_layers d' = update_rows (\<lambda>r. ly_tenant_id r = 0 \<and> ly_id r = 1)
      (\<lambda>r. r\<lparr>ly_is_readonly := True\<rparr>) (d_layers example_db) @ [new] \<and>
    layer_get_current_layer 0 d' = (Inr (Some (ly_id new)), d')"
proof (rule checkpoint_at_tip [OF example_ok example_ids])
qed (simp_all add: example_db_eq layer_get_current_layer_def layer_name_key_def varchar_short)

text \<open>
  C11.  A checkpoint at a historical position is refused and changes nothing: when some layer
  has the current one as its parent, the answer is the request for confirmation, carrying
  exactly the layers below the current one.
\<close>

theorem checkpoint_needs_confirmation:
  assumes "layers_ok d" and "layer_get_current_layer t d = (Inr (Some l), d)"
    and "list_ex (\<lambda>r. ly_parent_id r = Some l) (d_layers d)"
  shows "\<exists>future. lm_create_checkpoint t name descr d =
      (Inl (HistoricalLayerNeedsConfirmation l future), d) \<and>
    set future = {r. below (d_layers d) l r}"
proof -
  obtain r where r: "layer_get t l d = (Inr (Some r), d)" and "has_layer t l d"
    using current_at_layer [OF assms(1,2)] by (auto simp: at_layer_def)
  from set_futures [OF assms(1) this(2)] obtain fs where
    fs: "lm_get_future_layers t l d = (Inr fs, d)" "set fs = {r. below (d_layers d) l r}" by blast
  have "fs \<noteq> []" using assms(3) fs(2) child by (fastforce simp: list_ex_iff)
  then have "lm_create_checkpoint t name descr d = (Inl (HistoricalLayerNeedsConfirmation l fs), d)"
    unfolding lm_create_checkpoint_def checkpoint_at_current [OF assms(2) r] lm_checkpoint_from_def
    by (simp add: bindE_Inr [where m = "lm_get_future_layers t l", OF fs(1)])
  with fs(2) show ?thesis by blast
qed

definition example_history :: db where
  "example_history = snd (lm_switch_to_layer 0 1 (snd (lm_create_checkpoint 0 ''v1'' None example_db)))"

lemma example_history_ok: "layers_ok example_history"
  unfolding example_history_def lm_create_checkpoint_def
  by (intro preservesD [OF preserves_layers_ok_switch] preservesD [OF preserves_layers_ok_checkpoint] example_ok)

theorem checkpoint_needs_confirmation_witness:
  "\<exists>future. lm_create_checkpoint 0 ''v2'' None example_history =
      (Inl (HistoricalLayerNeedsConfirmation 1 future), example_history) \<and>
    set future = {r. below (d_layers example_history) 1 r}"
proof (rule checkpoint_needs_confirmation [OF example_history_ok])
  show "layer_get_current_layer 0 example_history = (Inr (Some 1), example_history)"
    unfolding layer_get_current_layer_def gets_apply by (simp only: prod.inject sum.inject simp_thms) code_simp
  show "list_ex (\<lambda>r. ly_parent_id r = Some 1) (d_layers example_history)" by code_simp
qed

lemma record_change_readonly:
  assumes "layer_get_current_layer t d = (Inr (Some l), d)" "layer_get t l d = (Inr (Some r), d)"
    and "ly_is_readonly r"
  shows "lm_record_change t i p c sd tc d = (Inl (ReadonlyLayer l), d)"
  using assms by (simp add: lm_record_change_def bindE_def storage_apply)

lemma set_current_read:
  assumes "layer_get_current_layer t d = (Inr (Some k), d)" "has_layer u l d"
  shows "\<exists>d'. layer_set_current_layer t l d = (Inr (), d') \<and> d_layers d' = d_layers d \<and>
    layer_get_current_layer t d' = (Inr (Some l), d') \<and>
    (\<forall>c \<in> set (d_current d'). tcl_layer_id c = l \<or> c \<in> set (d_current d) \<and> tcl_tenant_id c \<noteq> t)"
proof -
  from assms(1) obtain c where c: "find (\<lambda>c. tcl_tenant_id c = t) (d_current d) = Some c"
    by (auto simp: layer_get_current_layer_def)
  let ?upd = "\<lambda>c. c\<lparr>tcl_layer_id := l, tcl_updated_at := d_clock d\<rparr>"
  have "find (\<lambda>c. tcl_tenant_id c = t) (update_rows (\<lambda>c. tcl_tenant_id c = t) ?upd (d_current d)) = Some (?upd c)"
    using find_update_rows [of "\<lambda>c. tcl_tenant_id c = t" ?upd "d_current d"] c by simp
  moreover have "\<exists>r \<in> set (d_layers d). ly_id r = l" using assms(2) by (auto simp: has_layer_def layer_ref_def)
  ultimately show ?thesis
    using find_SomeD [OF c] by (auto simp: layer_set_current_layer_def layer_get_current_layer_def set_update_rows)
qed

lemma switch_spec:
  assumes "layers_ok d" "layer_get_current_layer t d = (Inr (Some k), d)"
    and "r \<in> set (d_layers d)" "ly_tenant_id r = t" "ly_id r = l"
  shows "\<exists>d'. lm_switch_to_layer t l d = (Inr r, d') \<and> d_layers d' = d_layers d \<and>
    layer_get_current_layer t d' = (Inr (Some l), d')"
proof -
  have "layer_get t l d = (Inr (Some r), d)" using assms by (simp add: layer_get_iff layers_ok_def)
  moreover have "has_layer t l d" using has_layerI [OF assms(3)] assms(4,5) by simp
  from set_current_read [OF assms(2) this] obtain d' where
    "layer_set_current_layer t l d = (Inr (), d')" "d_layers d' = d_layers d"
    "layer_get_current_layer t d' = (Inr (Some l), d')" by blast
  ultimately show ?thesis by (simp add: lm_switch_to_layer_def bindE_def storage_apply)
qed

text \<open>
  C10.  A checkpoint freezes what came before it: after a checkpoint one can switch back to the
  old layer, and from there every attempt to record a change is refused as a change of a
  read-only layer, without any effect.
\<close>

theorem checkpoint_freezes:
  assumes "layers_ok d" and "ids_drawn d"
    and "layer_get_current_layer t d = (Inr (Some l), d)"
    and "list_all (\<lambda>r. ly_parent_id r \<noteq> Some l) (d_layers d)"
    and "t \<in> set (map tn_id (d_tenants d))"
    and "varchar 255 name" and "(t, name) \<notin> set (map layer_name_key (d_layers d))"
  shows "\<exists>new d1 old d2. lm_create_checkpoint t name descr d = (Inr new, d1) \<and>
    lm_switch_to_layer t l d1 = (Inr old, d2) \<and> layer_get_current_layer t d2 = (Inr (Some l), d2) \<and>
    (\<forall>i path change delta text.
       lm_record_change t i path change delta text d2 = (Inl (ReadonlyLayer l), d2))"
proof -
  obtain r where r: "layer_get t l d = (Inr (Some r), d)" "r \<in> set (d_layers d)" "ly_tenant_id r = t"
    "ly_id r = l" and at: "at_layer t l d" using current_at_layer [OF assms(1,3)] by blast
  have eq: "lm_create_checkpoint t name descr d = lm_push_layer t l name descr d"
    unfolding lm_create_checkpoint_def checkpoint_at_current [OF assms(3) r(1)] lm_checkpoint_from_def
    by (simp add: bindE_Inr [where m = "lm_get_future_layers t l", OF no_child_no_future [OF assms(1,4)]])
  from push_layer_spec [OF at assms(2) _ assms(6), of descr] assms(5,7) obtain new d1 where
    push: "lm_push_layer t l name descr d = (Inr new, d1)"
    "d_layers d1 = update_rows (\<lambda>r. ly_tenant_id r = t \<and> ly_id r = l)
      (\<lambda>r. r\<lparr>ly_is_readonly := True\<rparr>) (d_layers d) @ [new]"
    "layer_get_current_layer t d1 = (Inr (Some (ly_id new)), d1)" by auto
  have ok1: "layers_ok d1" using triple_snd [OF triple_push_layer at] push(1) by (metis snd_conv)
  let ?r = "r\<lparr>ly_is_readonly := True\<rparr>"
  have r1: "?r \<in> set (d_layers d1)" using r by (force simp: push(2) set_update_rows)
  from switch_spec [OF ok1 push(3) r1] r obtain d2 where d2: "lm_switch_to_layer t l d1 = (Inr ?r, d2)"
    "d_layers d2 = d_layers d1" "layer_get_current_layer t d2 = (Inr (Some l), d2)" by auto
  have "layers_ok d2" using preservesD [OF preserves_layers_ok_switch ok1, of t l] d2(1) by simp
  then have "layer_get t l d2 = (Inr (Some ?r), d2)"
    using r r1 d2(2) by (simp add: layer_get_iff layers_ok_def)
  from record_change_readonly [OF d2(3) this] eq push(1) d2(1,3) show ?thesis by fastforce
qed

theorem checkpoint_freezes_witness:
  "\<exists>new d1 old d2. lm_create_checkpoint 0 ''v1'' None example_db = (Inr new, d1) \<and>
    lm_switch_to_layer 0 1 d1 = (Inr old, d2) \<and> layer_get_current_layer 0 d2 = (Inr (Some 1), d2) \<and>
    (\<forall>i path change delta text.
       lm_record_change 0 i path change delta text d2 = (Inl (ReadonlyLayer 1), d2))"
  by (rule checkpoint_freezes [OF example_ok example_ids])
     (simp_all add: example_db_eq layer_get_current_layer_def layer_name_key_def varchar_short)

section \<open>Deleting layers\<close>

lemma layer_delete_leaf:
  assumes "layers_ok d" "r \<in> set (d_layers d)" "ly_tenant_id r = t" "ly_id r = l"
    and "list_all (\<lambda>r. ly_parent_id r \<noteq> Some l) (d_layers d)"
    and "\<forall>c \<in> set (d_current d). tcl_layer_id c \<noteq> l"
  shows "\<exists>d'. layer_delete t l d = (Inr True, d') \<and> d_current d' = d_current d \<and>
    map layer_shape (d_layers d') = map layer_shape (filter (\<lambda>r. ly_id r \<noteq> l) (d_layers d))"
proof -
  have "ly_tenant_id r' = t" if "r' \<in> set (d_layers d)" "ly_id r' = l" for r'
    using unique_layer [OF assms(1) that(1) assms(2)] that assms(3,4) by simp
  then have "delete_rows (\<lambda>r. ly_tenant_id r = t \<and> ly_id r = l) (d_layers d) = filter (\<lambda>r. ly_id r \<noteq> l) (d_layers d)"
    by (auto simp: delete_rows_def intro: filter_cong)
  moreover have "layer_delete t l d = (Inr True, delete_layer_rows (\<lambda>r. ly_tenant_id r = t \<and> ly_id r = l) d)"
    using assms by (auto simp: layer_delete_def list_all_iff)
  ultimately show ?thesis by auto
qed

text \<open>
  Deleting the current layer, when no layer is below it and it has a parent, succeeds:
  the parent becomes the current layer, and the deleted layer is the only one that
  disappears.
\<close>

theorem delete_current_layer:
  assumes "layers_ok d" and "layer_get_current_layer t d = (Inr (Some l), d)"
    and "layer_get t l d = (Inr (Some r), d)" and "ly_parent_id r = Some p"
    and "list_all (\<lambda>r. ly_parent_id r \<noteq> Some l) (d_layers d)"
  shows "\<exists>d'. lm_delete_layer t l d = (Inr (), d') \<and>
    layer_get_current_layer t d' = (Inr (Some p), d') \<and>
    map layer_shape (d_layers d') = map layer_shape (filter (\<lambda>r. ly_id r \<noteq> l) (d_layers d))"
proof -
  have inv: "layer_inv d" and wf: "wf_db d" using assms(1) by (simp_all add: layers_ok_def)
  from assms(3) have r: "r \<in> set (d_layers d)" "ly_tenant_id r = t" "ly_id r = l"
    using layer_get_iff [OF wf] by blast+
  from parent_has_layer [OF inv r(1) assms(4)] r(2) have hp: "has_layer t p d" by simp
  from set_current_read [OF assms(2) hp] obtain d1 where d1:
    "layer_set_current_layer t p d = (Inr (), d1)" "d_layers d1 = d_layers d"
    "layer_get_current_layer t d1 = (Inr (Some p), d1)"
    "\<forall>c \<in> set (d_current d1). tcl_layer_id c = p \<or> c \<in> set (d_current d) \<and> tcl_tenant_id c \<noteq> t" by blast
  have ok1: "layers_ok d1"
    using triple_snd [OF triple_set_current, of d p t] assms(1) hp d1(1) by (simp add: has_layer_def)
  have "p \<noteq> l" using assms(4,5) r(1,3) by (auto simp: list_all_iff)
  moreover have "tcl_layer_id c \<noteq> l" if "c \<in> set (d_current d)" "tcl_tenant_id c \<noteq> t" for c
    using inv that(1) that(2) r unique_layer [OF assms(1) _ r(1)]
    by (fastforce simp: layer_inv_def layer_ref_def)
  ultimately have "\<forall>c \<in> set (d_current d1). tcl_layer_id c \<noteq> l" using d1(4) by metis
  with layer_delete_leaf [OF ok1, of r t l] r assms(5) d1(2) obtain d2 where
    d2: "layer_delete t l d1 = (Inr True, d2)" "d_current d2 = d_current d1"
    "map layer_shape (d_layers d2) = map layer_shape (filter (\<lambda>r. ly_id r \<noteq> l) (d_layers d))" by auto
  have "layer_get_current_layer t d2 = (Inr (Some p), d2)"
    using d1(3) d2(2) by (simp add: layer_get_current_layer_def)
  moreover have "lm_delete_layer t l d = (Inr (), d2)"
    using assms(2-4) d1(1) d2(1) no_child_no_future [OF assms(1,5), of t]
    by (simp add: lm_delete_layer_def bindE_def storage_apply)
  ultimately show ?thesis using d2(3) by blast
qed

definition example_tip :: db where
  "example_tip = snd (lm_create_checkpoint 0 ''v1'' None example_db)"

lemma example_tip_ok: "layers_ok example_tip"
  unfolding example_tip_def lm_create_checkpoint_def
  by (intro preservesD [OF preserves_layers_ok_checkpoint] example_ok)

theorem delete_current_layer_witness:
  "\<exists>d'. lm_delete_layer 0 2 example_tip = (Inr (), d') \<and>
    layer_get_current_layer 0 d' = (Inr (Some 1), d') \<and>
    map layer_shape (d_layers d') = map layer_shape (filter (\<lambda>r. ly_id r \<noteq> 2) (d_layers example_tip))"
proof (rule delete_current_layer [OF example_tip_ok])
  show "layer_get_current_layer 0 example_tip = (Inr (Some 2), example_tip)"
    unfolding layer_get_current_layer_def gets_apply by (simp only: prod.inject sum.inject simp_thms) code_simp
  show "layer_get 0 2 example_tip = (Inr (Some (d_layers example_tip ! 1)), example_tip)"
    unfolding layer_get_def gets_apply by (simp only: prod.inject sum.inject simp_thms) code_simp
  show "ly_parent_id (d_layers example_tip ! 1) = Some 1" by code_simp
  show "list_all (\<lambda>r. ly_parent_id r \<noteq> Some 2) (d_layers example_tip)" by code_simp
qed

text \<open>
  A layer that other layers build on cannot be deleted, and neither can the base layer
  while it is current: both requests are refused without any effect.
\<close>

theorem delete_layer_refused:
  assumes "layers_ok d" and "layer_get t l d = (Inr (Some r), d)"
    and "list_ex (\<lambda>r. ly_parent_id r = Some l) (d_layers d) \<or>
      layer_get_current_layer t d = (Inr (Some l), d) \<and> ly_parent_id r = None"
  shows "lm_delete_layer t l d =
    (Inl (if list_ex (\<lambda>r. ly_parent_id r = Some l) (d_layers d) then HasChildLayers l
          else InvalidLayerChain ''Cannot delete base layer''), d)"
proof -
  have wf: "wf_db d" using assms(1) by (simp add: layers_ok_def)
  from assms(2) have r: "r \<in> set (d_layers d)" "ly_tenant_id r = t" "ly_id r = l"
    using layer_get_iff [OF wf] by blast+
  with has_layerI have "has_layer t l d" by blast
  from set_futures [OF assms(1) this] obtain fs where
    fs: "lm_get_future_layers t l d = (Inr fs, d)" "set fs = {r. below (d_layers d) l r}" by blast
  show ?thesis
  proof (cases "list_ex (\<lambda>r. ly_parent_id r = Some l) (d_layers d)")
    case True
    then have "fs \<noteq> []" using fs(2) child by (fastforce simp: list_ex_iff)
    with True fs(1) assms(2) show ?thesis by (simp add: lm_delete_layer_def bindE_def storage_apply)
  next
    case False
    then have "list_all (\<lambda>r. ly_parent_id r \<noteq> Some l) (d_layers d)" by (simp add: list_ex_iff list_all_iff)
    from no_child_no_future [OF assms(1) this] False assms(2,3) show ?thesis
      by (simp add: lm_delete_layer_def bindE_def storage_apply)
  qed
qed

theorem delete_layer_refused_witness:
  "lm_delete_layer 0 1 example_db = (Inl (InvalidLayerChain ''Cannot delete base layer''), example_db)"
proof -
  have "\<not> list_ex (\<lambda>r. ly_parent_id r = Some 1) (d_layers example_db)" by (simp add: example_db_eq)
  moreover have "layer_get 0 1 example_db = (Inr (Some (hd (d_layers example_db))), example_db)"
    by (simp add: example_db_eq layer_get_def)
  ultimately show ?thesis
    using delete_layer_refused [OF example_ok, of 0 1 "hd (d_layers example_db)"]
    by (simp add: example_db_eq layer_get_current_layer_def)
qed

section \<open>Confirmed deletion of a chain of future layers\<close>

definition link :: "layer \<Rightarrow> uuid \<times> uuid \<times> uuid option" where
  "link l = (ly_id l, ly_tenant_id l, ly_parent_id l)"

lemma link_via_shape: "map layer_shape ls = map layer_shape ls' \<Longrightarrow> link ` set ls = link ` set ls'"
proof -
  assume eq: "map layer_shape ls = map layer_shape ls'"
  have "link ` set xs = (\<lambda>(i, t, p, _). (i, t, p)) ` set (map layer_shape xs)" for xs
    by (simp add: link_def layer_shape_def image_image)
  then show ?thesis by (simp only: eq)
qed

lemma link_sel [simp]: "fst (link l) = ly_id l" "fst (snd (link l)) = ly_tenant_id l" "snd (snd (link l)) = ly_parent_id l"
  by (simp_all add: link_def)

lemma layer_delete_links:
  assumes "layer_delete t l d = (Inr b, d')"
  shows "link ` set (d_layers d') = {s \<in> link ` set (d_layers d). \<not> (fst s = l \<and> fst (snd s) = t)} \<and>
    d_current d' = d_current d"
proof -
  have "link ` set (d_layers (delete_layer_rows P d)) = link ` set (delete_rows P (d_layers d))" for P
    by (rule link_via_shape) simp
  moreover have "link ` set (delete_rows (\<lambda>r. ly_tenant_id r = t \<and> ly_id r = l) (d_layers d)) =
      {s \<in> link ` set (d_layers d). \<not> (fst s = l \<and> fst (snd s) = t)}"
    by (auto simp: link_sel)
  moreover have "link ` set (d_layers d) = {s \<in> link ` set (d_layers d). \<not> (fst s = l \<and> fst (snd s) = t)}"
    if "\<not> exists_row (\<lambda>r. ly_tenant_id r = t \<and> ly_id r = l) (d_layers d)"
    using that by (auto simp: link_sel)
  moreover consider "\<not> exists_row (\<lambda>r. ly_tenant_id r = t \<and> ly_id r = l) (d_layers d)" "d' = d"
    | "d' = delete_layer_rows (\<lambda>r. ly_tenant_id r = t \<and> ly_id r = l) d"
    using assms by (auto simp: layer_delete_def split: if_splits)
  then show ?thesis
  proof cases
    case 1
    then show ?thesis using calculation(3) by blast
  next
    case 2
    then show ?thesis using calculation(1,2) by simp
  qed
qed

text \<open>
  Deleting a list of layers in an order in which parents come first stops with a foreign key
  violation, when one of them has a child and all their children are in the list.
\<close>

lemma delete_parents_first:
  assumes "\<And>a. a \<in> set xs \<Longrightarrow> link a \<in> link ` set (d_layers d) \<and> ly_tenant_id a = t"
    and "\<And>a s. a \<in> set xs \<Longrightarrow> s \<in> link ` set (d_layers d) \<Longrightarrow> snd (snd s) = Some (ly_id a) \<Longrightarrow> s \<in> link ` set xs"
    and "\<exists>a \<in> set xs. \<exists>s \<in> link ` set (d_layers d). snd (snd s) = Some (ly_id a)"
    and "sorted_wrt (\<lambda>a b. ly_parent_id a \<noteq> Some (ly_id b)) xs"
    and "\<And>a c. a \<in> set xs \<Longrightarrow> c \<in> set (d_current d) \<Longrightarrow> tcl_layer_id c \<noteq> ly_id a"
    and "distinct (map ly_id xs)"
  shows "\<exists>d'. forE xs (\<lambda>layer. bindE (storage (layer_delete t (ly_id layer))) (\<lambda>_. ret ())) d =
    (Inl (LayerStorage ForeignKeyViolation), d')"
  using assms
proof (induction xs arbitrary: d)
  case (Cons a xs)
  from Cons.prems(1) [of a] have a: "link a \<in> link ` set (d_layers d)" "ly_tenant_id a = t" by auto
  then obtain r where r: "r \<in> set (d_layers d)" "ly_tenant_id r = t" "ly_id r = ly_id a"
    by (metis imageE link_sel(1,2))
  show ?case
  proof (cases "\<exists>s \<in> link ` set (d_layers d). snd (snd s) = Some (ly_id a)")
    case True
    then obtain c where "c \<in> set (d_layers d)" "ly_parent_id c = Some (ly_id a)" by (auto simp: link_sel)
    with r have "layer_delete t (ly_id a) d = (Inl ForeignKeyViolation, d)" by (auto simp: layer_delete_def)
    then show ?thesis by (simp add: bindE_def storage_apply)
  next
    case False
    then have "\<forall>c \<in> set (d_layers d). ly_parent_id c \<noteq> Some (ly_id a)" by (auto simp: link_sel)
    moreover have "\<forall>c \<in> set (d_current d). tcl_layer_id c \<noteq> ly_id a" using Cons.prems(5) by auto
    ultimately have del: "layer_delete t (ly_id a) d =
        (Inr True, delete_layer_rows (\<lambda>r. ly_tenant_id r = t \<and> ly_id r = ly_id a) d)" (is "_ = (_, ?d1)")
      using r by (auto simp: layer_delete_def)
    note L = layer_delete_links [OF del]
    have keep: "s \<in> link ` set (d_layers ?d1)" if "s \<in> link ` set (d_layers d)" "fst s \<noteq> ly_id a" for s
      using L that by blast
    have differ: "ly_id b \<noteq> ly_id a" if "b \<in> set xs" for b
      using Cons.prems(6) that by (metis distinct.simps(2) imageI list.set_map list.simps(9))
    have "\<exists>d'. forE xs (\<lambda>layer. bindE (storage (layer_delete t (ly_id layer))) (\<lambda>_. ret ())) ?d1 =
      (Inl (LayerStorage ForeignKeyViolation), d')"
    proof (rule Cons.IH)
      fix b assume b: "b \<in> set xs"
      show "link b \<in> link ` set (d_layers ?d1) \<and> ly_tenant_id b = t"
        using Cons.prems(1) [of b] b keep [of "link b"] differ [OF b] by (simp add: link_sel)
      fix s assume s: "s \<in> link ` set (d_layers ?d1)" "snd (snd s) = Some (ly_id b)"
      then have "s \<in> link ` set (a # xs)" using Cons.prems(2) [of b s] b L by auto
      moreover have "s \<noteq> link a" using Cons.prems(4) b s(2) by (auto simp: link_sel)
      ultimately show "s \<in> link ` set xs" by auto
    next
      from Cons.prems(3) False obtain b s where b: "b \<in> set xs" "s \<in> link ` set (d_layers d)"
        "snd (snd s) = Some (ly_id b)"
        by (metis set_ConsD)
      then have "s \<in> link ` set (a # xs)" using Cons.prems(2) [of b s] by simp
      moreover have "s \<noteq> link a" using Cons.prems(4) b(1,3) by (auto simp: link_sel)
      ultimately obtain c where "c \<in> set xs" "s = link c" by auto
      then have "fst s \<noteq> ly_id a" using differ by (simp add: link_sel)
      with b keep show "\<exists>b \<in> set xs. \<exists>s \<in> link ` set (d_layers ?d1). snd (snd s) = Some (ly_id b)" by blast
    next
      fix b c assume "b \<in> set xs" "c \<in> set (d_current ?d1)"
      then show "tcl_layer_id c \<noteq> ly_id b" using Cons.prems(5) L by auto
    qed (use Cons.prems(4,6) in simp_all)
    moreover have step: "bindE (storage (layer_delete t (ly_id a))) (\<lambda>_. ret ()) d = (Inr (), ?d1)"
      using del by (simp add: bindE_def storage_apply)
    ultimately show ?thesis
      unfolding forE.simps bindE_Inr [where m = "bindE (storage (layer_delete t (ly_id a))) _", OF step] by simp
  qed
qed simp

lemma sorted_wrt_rooted:
  "rooted S (map layer_shape ls) \<Longrightarrow> distinct (map ly_id ls) \<Longrightarrow> fst ` S \<inter> ly_id ` set ls = {} \<Longrightarrow>
   sorted_wrt (\<lambda>a b. ly_parent_id a \<noteq> Some (ly_id b)) ls"
proof (induction ls arbitrary: S)
  case (Cons a ls)
  from Cons.prems(1) have a: "\<forall>q. ly_parent_id a = Some q \<longrightarrow> (q, ly_tenant_id a) \<in> S"
    "rooted (insert (layer_ref a) S) (map layer_shape ls)"
    unfolding rooted_layer_Cons by blast+
  have "sorted_wrt (\<lambda>a b. ly_parent_id a \<noteq> Some (ly_id b)) ls"
    using Cons.prems(2,3) by (intro Cons.IH [OF a(2)]) (auto simp: layer_ref_def)
  moreover have "ly_parent_id a \<noteq> Some (ly_id b)" if "b \<in> set ls" for b
    using a(1) Cons.prems(3) that by force
  ultimately show ?case by simp
qed simp

lemma sorted_wrt_filter_le: "sorted_wrt P xs \<Longrightarrow> sorted_wrt P (filter Q xs)"
  by (induction xs) auto

text \<open>
  C14.  A confirmed checkpoint cannot delete a chain of future layers: the layers are deleted
  oldest first, so as soon as one of them has a layer on top of it the database refuses, and
  the checkpoint fails with a storage error.
\<close>

theorem confirmed_checkpoint_fails:
  assumes "layers_ok d" and "layer_get_current_layer t d = (Inr (Some l), d)"
    and "sorted (map ly_created_at (d_layers d))"
    and "a \<in> set (d_layers d)" and "ly_parent_id a = Some l"
    and "b \<in> set (d_layers d)" and "ly_parent_id b = Some (ly_id a)"
  shows "\<exists>d'. lm_create_checkpoint_with_confirm t name descr True d =
    (Inl (LayerStorage ForeignKeyViolation), d')"
proof -
  let ?fs = "filter (below (d_layers d) l) (filter (\<lambda>r. ly_tenant_id r = t) (d_layers d))"
  have wf: "wf_db d" and inv: "layer_inv d" using assms(1) by (simp_all add: layers_ok_def)
  have ids: "distinct (map ly_id (d_layers d))" using wf by (simp add: wf_db_def wf_layers_def)
  obtain r where r: "layer_get t l d = (Inr (Some r), d)" and at: "at_layer t l d"
    and rl: "r \<in> set (d_layers d)" "ly_tenant_id r = t" "ly_id r = l"
    using current_at_layer [OF assms(1,2)] by blast
  then have hl: "has_layer t l d" by (simp add: at_layer_def)
  have below: "below (d_layers d) l a" "below (d_layers d) l b"
    using assms(4-7) child deeper by blast+
  have "sorted (map ly_created_at (filter (\<lambda>r. ly_tenant_id r = t) (d_layers d)))"
    using assms(3) by (rule sorted_filter)
  then have fut: "lm_get_future_layers t l d = (Inr (rev ?fs), d)"
    using future_eq [OF assms(1), of t l] by (simp add: sort_key_id_if_sorted rev_filter)
  have a: "a \<in> set ?fs" using below(1) assms(4) below_tenant [OF assms(1) hl] by simp
  then have "?fs \<noteq> []" by (metis empty_iff list.set(1))
  then have "rev ?fs \<noteq> []" by (simp only: rev_is_Nil_conv) simp
  have notself: "\<not> below (d_layers d) l q" if "ly_id q = l" "q \<in> set (d_layers d)" for q
    using chain_test [OF assms(1) that(2) refl, of l] that(1) by blast
  have "\<exists>d'. lm_delete_futures t (rev ?fs) d = (Inl (LayerStorage ForeignKeyViolation), d')"
    unfolding lm_delete_futures_def rev_rev_ident
  proof (rule delete_parents_first)
    fix q assume "q \<in> set ?fs"
    then have q: "q \<in> set (d_layers d)" "ly_tenant_id q = t" "below (d_layers d) l q" by auto
    then show "link q \<in> link ` set (d_layers d) \<and> ly_tenant_id q = t" by simp
    fix s assume "s \<in> link ` set (d_layers d)" "snd (snd s) = Some (ly_id q)"
    then obtain c where c: "c \<in> set (d_layers d)" "s = link c" "ly_parent_id c = Some (ly_id q)"
      by (auto simp: link_sel)
    then have "below (d_layers d) l c" using q(3) deeper by blast
    with c below_tenant [OF assms(1) hl] show "s \<in> link ` set ?fs" by auto
  next
    fix q c assume "q \<in> set ?fs" and c: "c \<in> set (d_current d)"
    then have q: "q \<in> set (d_layers d)" "ly_tenant_id q = t" "below (d_layers d) l q" by auto
    show "tcl_layer_id c \<noteq> ly_id q"
    proof
      assume eq: "tcl_layer_id c = ly_id q"
      from inv c obtain q' where q': "q' \<in> set (d_layers d)" "ly_id q' = ly_id q" "ly_tenant_id q' = tcl_tenant_id c"
        using eq by (auto simp: layer_inv_def layer_ref_def)
      with unique_layer [OF assms(1) q'(1) q(1)] q(2) have ct: "tcl_tenant_id c = t" by simp
      from assms(2) obtain c' where "c' \<in> set (d_current d)" "tcl_tenant_id c' = t" "tcl_layer_id c' = l"
        using layer_current_iff [OF wf] by blast
      with current_tbl.lookup_unique [OF wf, of c c'] c ct eq have "ly_id q = l" by simp
      with notself q(1,3) show False by blast
    qed
  next
    have "sorted_wrt (\<lambda>a b. ly_parent_id a \<noteq> Some (ly_id b)) (d_layers d)"
      using inv ids by (intro sorted_wrt_rooted [of "{}"]) (simp_all add: layer_inv_def)
    then show "sorted_wrt (\<lambda>a b. ly_parent_id a \<noteq> Some (ly_id b)) ?fs"
      by (intro sorted_wrt_filter_le)
  next
    show "distinct (map ly_id ?fs)" using ids by (intro distinct_map_filter)
  next
    have "link b \<in> link ` set (d_layers d)" "snd (snd (link b)) = Some (ly_id a)"
      using assms(6,7) by (simp_all add: link_sel)
    with a show "\<exists>a \<in> set ?fs. \<exists>s \<in> link ` set (d_layers d). snd (snd s) = Some (ly_id a)" by blast
  qed
  then show ?thesis
    using \<open>rev ?fs \<noteq> []\<close> fut
    unfolding checkpoint_at_current [OF assms(2) r] lm_checkpoint_from_def
    by (auto simp: bindE_def)
qed

definition example_chain :: db where
  "example_chain = snd (lm_switch_to_layer 0 1
     (snd (lm_create_checkpoint 0 ''v2'' None (snd (lm_create_checkpoint 0 ''v1'' None example_db)))))"

lemma example_chain_ok: "layers_ok example_chain"
  unfolding example_chain_def lm_create_checkpoint_def
  by (intro preservesD [OF preserves_layers_ok_switch] preservesD [OF preserves_layers_ok_checkpoint] example_ok)

theorem confirmed_checkpoint_fails_witness:
  "\<exists>d'. lm_create_checkpoint_with_confirm 0 ''v3'' None True example_chain =
    (Inl (LayerStorage ForeignKeyViolation), d')"
proof (rule confirmed_checkpoint_fails [OF example_chain_ok])
  show "layer_get_current_layer 0 example_chain = (Inr (Some 1), example_chain)"
    unfolding layer_get_current_layer_def gets_apply by (simp only: prod.inject sum.inject simp_thms) code_simp
  show "sorted (map ly_created_at (d_layers example_chain))" by code_simp
  show "d_layers example_chain ! 1 \<in> set (d_layers example_chain)"
    "d_layers example_chain ! 2 \<in> set (d_layers example_chain)"
    by (rule nth_mem; code_simp)+
  show "ly_parent_id (d_layers example_chain ! 1) = Some 1" by code_simp
  show "ly_parent_id (d_layers example_chain ! 2) = Some (ly_id (d_layers example_chain ! 1))" by code_simp
qed

section \<open>Chains, futures and the base layer\<close>

text \<open>
  C12.  The recursive query for the chain of a layer ends for every layer of every database
  that the code can build: it returns the layer, then its parent, and so on, without
  repetition, down to a layer without parent, all of them layers of the same tenant.
\<close>

theorem layer_chain_ends:
  assumes "layers_ok d" and "layer_get t l d = (Inr (Some r), d)"
  shows "\<exists>c. lm_get_layer_chain t l d = (Inr (r # c), d) \<and> linked (r # c) \<and> distinct (r # c) \<and>
    set c \<subseteq> {q \<in> set (d_layers d). ly_tenant_id q = t}"
proof -
  have wf: "wf_db d" "layer_inv d" using assms(1) by (simp_all add: layers_ok_def)
  from assms(2) have r: "r \<in> set (d_layers d)" "ly_tenant_id r = t" "ly_id r = l"
    using layer_get_iff [OF wf(1)] by blast+
  from layer_chain_exists [OF wf r(1)] show ?thesis
    by (auto simp: r(2,3) lm_get_layer_chain_def storage_apply)
qed

theorem layer_chain_ends_witness:
  "\<exists>c. lm_get_layer_chain 0 3 example_chain = (Inr ((d_layers example_chain ! 2) # c), example_chain) \<and>
    linked ((d_layers example_chain ! 2) # c) \<and> distinct ((d_layers example_chain ! 2) # c) \<and>
    set c \<subseteq> {q \<in> set (d_layers example_chain). ly_tenant_id q = 0}"
proof (rule layer_chain_ends [OF example_chain_ok])
  show "layer_get 0 3 example_chain = (Inr (Some (d_layers example_chain ! 2)), example_chain)"
    unfolding layer_get_def gets_apply by (simp only: prod.inject sum.inject simp_thms) code_simp
qed

text \<open>
  C13.  The future layers of a layer are exactly its descendants in the layer graph, found by
  testing the chain of every layer of the tenant.
\<close>

theorem future_layers_exact:
  assumes "layers_ok d" and "layer_get t l d = (Inr (Some r), d)"
  shows "\<exists>future. lm_get_future_layers t l d = (Inr future, d) \<and> set future = {q. below (d_layers d) l q}"
proof -
  have wf: "wf_db d" using assms(1) by (simp add: layers_ok_def)
  from assms(2) have "r \<in> set (d_layers d)" "ly_tenant_id r = t" "ly_id r = l"
    using layer_get_iff [OF wf] by blast+
  then have "has_layer t l d" using has_layerI by blast
  from set_futures [OF assms(1) this] show ?thesis .
qed

theorem future_layers_exact_witness:
  "\<exists>future. lm_get_future_layers 0 1 example_chain = (Inr future, example_chain) \<and>
    set future = {q. below (d_layers example_chain) 1 q}"
proof (rule future_layers_exact [OF example_chain_ok])
  show "layer_get 0 1 example_chain = (Inr (Some (d_layers example_chain ! 0)), example_chain)"
    unfolding layer_get_def gets_apply by (simp only: prod.inject sum.inject simp_thms) code_simp
qed

lemma initialize_existing:
  assumes "layer_get_current_layer t d = (Inr (Some l), d)" "layer_get t l d = (Inr (Some r), d)"
  shows "lm_initialize_base_layer t d = (Inr r, d)"
  using assms by (simp add: lm_initialize_base_layer_def bindE_def storage_apply)

text \<open>
  Initialising the base layer of a tenant without layers creates one, makes it current,
  and is idempotent: doing it again returns the same layer and changes nothing.
\<close>

theorem initialize_base_layer_idempotent:
  assumes "layers_ok d" and "ids_drawn d" and "t \<in> set (map tn_id (d_tenants d))"
    and "layer_get_current_layer t d = (Inr None, d)"
    and "(t, ''base'') \<notin> set (map layer_name_key (d_layers d))"
  shows "\<exists>base d1. lm_initialize_base_layer t d = (Inr base, d1) \<and>
    ly_parent_id base = None \<and> \<not> ly_is_readonly base \<and>
    lm_get_current_layer t d1 = (Inr base, d1) \<and>
    lm_initialize_base_layer t d1 = (Inr base, d1)"
proof -
  have "varchar 255 ''base''" "varchar 255 ''system''" by (simp_all add: varchar_short)
  then obtain base d0 where c: "layer_create (base_layer_input t) d = (Inr base, d0)"
    using layer_create_succeeds [OF assms(2), of "base_layer_input t"] assms(3,5)
    by (auto simp: base_layer_input_def)
  note new = layer_create_InrD [OF c]
  have b: "ly_tenant_id base = t" "ly_parent_id base = None" "\<not> ly_is_readonly base"
    by (simp_all add: new(1) base_layer_input_def)
  from assms(4) have none: "\<forall>c \<in> set (d_current d). tcl_tenant_id c \<noteq> t"
    by (auto simp: layer_get_current_layer_def)
  let ?cur = "\<lparr>tcl_tenant_id = t, tcl_layer_id = ly_id base, tcl_updated_at = d_clock d0\<rparr>"
  let ?d1 = "d0\<lparr>d_clock := Suc (d_clock d0), d_current := d_current d @ [?cur]\<rparr>"
  have set: "layer_set_current_layer t (ly_id base) d0 = (Inr (), ?d1)"
    using none assms(3) by (auto simp: layer_set_current_layer_def new(2))
  have run: "lm_initialize_base_layer t d = (Inr base, ?d1)"
    using assms(4) c set by (simp add: lm_initialize_base_layer_def bindE_def storage_apply)
  from preservesD [OF preserves_layers_ok_init assms(1), of t] run have ok1: "layers_ok ?d1" by simp
  have "find (\<lambda>c. tcl_tenant_id c = t) (d_current d) = None" using none by simp
  then have cur1: "layer_get_current_layer t ?d1 = (Inr (Some (ly_id base)), ?d1)"
    by (simp add: layer_get_current_layer_def find_append del: find_None_conv)
  have get1: "layer_get t (ly_id base) ?d1 = (Inr (Some base), ?d1)"
    using ok1 b(1) by (simp add: layer_get_iff layers_ok_def new(2))
  have "lm_get_current_layer t ?d1 = (Inr base, ?d1)"
    using cur1 get1 by (simp add: lm_get_current_layer_def bindE_def storage_apply)
  with run b(2,3) initialize_existing [OF cur1 get1] show ?thesis by blast
qed

theorem initialize_base_layer_idempotent_witness:
  "\<exists>base d1. lm_initialize_base_layer 0 (snd (tenant_create ''acme'' (empty_db (\<lambda>n. n)))) = (Inr base, d1) \<and>
    ly_parent_id base = None \<and> \<not> ly_is_readonly base \<and>
    lm_get_current_layer 0 d1 = (Inr base, d1) \<and>
    lm_initialize_base_layer 0 d1 = (Inr base, d1)"
proof (rule initialize_base_layer_idempotent)
  show "layers_ok (snd (tenant_create ''acme'' (empty_db (\<lambda>n. n))))" by code_simp
qed (simp_all add: tenant_create_def empty_db_def example_names ids_drawn_def db_ids_def
      layer_get_current_layer_def Let_def)

end
