(* ===== verification/Detection.thy ===== *)
theory Detection
  imports RustText
begin

text \<open>
  File type detection: \<open>src/src/layer/detection.rs\<close>.  The two ratios of the configuration are
  fractions (numerator, denominator); for the sizes at hand (at most 20 MiB against thresholds
  with a small denominator) the comparison of the rounded \<open>f64\<close> quotient with the rounded
  threshold decides as the comparison of the exact fractions does, because two different
  fractions are much further apart than one rounding step.  A decoded \<open>String\<close> is the list
  of its scalar values here (\<open>chars\<close>), and its length in bytes the sum of \<open>len_utf8\<close>.
\<close>

record detection_config =
  max_text_file_size :: nat
  max_line_length :: nat
  max_non_printable_ratio :: "nat \<times> nat"
  min_newline_ratio :: "nat \<times> nat"

definition detection_config_default :: detection_config where
  "detection_config_default =
     \<lparr>max_text_file_size = 10 * 1024 * 1024,
      max_line_length = 10 * 1024,
      max_non_printable_ratio = (5, 100),
      min_newline_ratio = (1, 10000)\<rparr>"

datatype text_encoding = Utf8 | Ascii | Latin1 | Unknown

datatype line_ending = Lf | CrLf | Cr | Mixed | NoEnding

datatype file_type_info = Text text_encoding line_ending nat | Binary

fun is_text :: "file_type_info \<Rightarrow> bool" where
  "is_text (Text _ _ _) = True"
| "is_text Binary = False"

fun is_binary :: "file_type_info \<Rightarrow> bool" where
  "is_binary (Text _ _ _) = False"
| "is_binary Binary = True"

text \<open>The \<open>Display\<close> implementations: what is stored in the database.\<close>

fun encoding_to_string :: "text_encoding \<Rightarrow> str" where
  "encoding_to_string Utf8 = ''utf-8''"
| "encoding_to_string Ascii = ''ascii''"
| "encoding_to_string Latin1 = ''latin-1''"
| "encoding_to_string Unknown = ''unknown''"

fun line_ending_to_string :: "line_ending \<Rightarrow> str" where
  "line_ending_to_string Lf = ''LF''"
| "line_ending_to_string CrLf = ''CRLF''"
| "line_ending_to_string Cr = ''CR''"
| "line_ending_to_string Mixed = ''LF''"
| "line_ending_to_string NoEnding = ''LF''"

definition BOM :: bytes where
  "BOM = [CHR 0xEF, CHR 0xBB, CHR 0xBF]"

text \<open>\<open>char::is_control\<close>: the scalar values of general category Cc.\<close>

definition is_control :: "nat \<Rightarrow> bool" where
  "is_control c \<longleftrightarrow> c < 0x20 \<or> (0x7F \<le> c \<and> c < 0xA0)"

definition string_len :: "nat list \<Rightarrow> nat" where
  "string_len text = sum_list (map len_utf8 text)"

definition detect_encoding :: "bytes \<Rightarrow> text_encoding \<times> nat list option" where
  "detect_encoding data =
     (let data_without_bom = (if starts_with BOM data then drop 3 data else data) in
      case from_utf8 data_without_bom of
        Some text \<Rightarrow>
          (if list_all is_ascii data_without_bom then Ascii else Utf8, Some (chars text))
      | None \<Rightarrow>
          let text = map (\<lambda>b. (of_char b :: nat)) data_without_bom;
              printable = length (filter (\<lambda>c. \<not> is_control c \<or> c = 0x0A \<or> c = 0x0D \<or> c = 0x09) text)
          in if 10 * printable > 9 * string_len text then (Latin1, Some text) else (Unknown, None))"

definition count_non_printable :: "bytes \<Rightarrow> nat" where
  "count_non_printable data =
     length (filter (\<lambda>b. let x = (of_char b :: nat) in
       \<not> (x = 0x09 \<or> x = 0x0A \<or> x = 0x0D \<or> (0x20 \<le> x \<and> x < 0x7F) \<or> x \<ge> 0x80)) data)"

text \<open>The counters of the loop in \<open>analyze_lines\<close>.\<close>

record line_stats =
  ls_lf_count :: nat
  ls_crlf_count :: nat
  ls_cr_only_count :: nat
  ls_max_line_len :: nat
  ls_current_line_len :: nat
  ls_line_count :: nat

definition end_line :: "line_stats \<Rightarrow> line_stats" where
  "end_line st = st\<lparr>ls_max_line_len := max (ls_max_line_len st) (ls_current_line_len st),
     ls_current_line_len := 0, ls_line_count := ls_line_count st + 1\<rparr>"

fun analyze_loop :: "nat list \<Rightarrow> line_stats \<Rightarrow> line_stats" where
  "analyze_loop [] st = st"
| "analyze_loop (c # cs) st =
     (if c = 0x0D then
        (case cs of
           d # ds \<Rightarrow>
             if d = 0x0A then analyze_loop ds (end_line (st\<lparr>ls_crlf_count := ls_crlf_count st + 1\<rparr>))
             else analyze_loop cs (end_line (st\<lparr>ls_cr_only_count := ls_cr_only_count st + 1\<rparr>))
         | [] \<Rightarrow> analyze_loop cs (end_line (st\<lparr>ls_cr_only_count := ls_cr_only_count st + 1\<rparr>)))
      else if c = 0x0A then analyze_loop cs (end_line (st\<lparr>ls_lf_count := ls_lf_count st + 1\<rparr>))
      else analyze_loop cs (st\<lparr>ls_current_line_len := ls_current_line_len st + len_utf8 c\<rparr>))"

definition line_ending_of :: "line_stats \<Rightarrow> line_ending" where
  "line_ending_of st =
     (if ls_lf_count st + ls_crlf_count st + ls_cr_only_count st = 0 then NoEnding
      else if ls_crlf_count st > 0 \<and> ls_lf_count st = 0 \<and> ls_cr_only_count st = 0 then CrLf
      else if ls_lf_count st > 0 \<and> ls_crlf_count st = 0 \<and> ls_cr_only_count st = 0 then Lf
      else if ls_cr_only_count st > 0 \<and> ls_lf_count st = 0 \<and> ls_crlf_count st = 0 then Cr
      else Mixed)"

definition analyze_lines :: "nat list \<Rightarrow> line_ending \<times> nat \<times> nat" where
  "analyze_lines text =
     (let st = analyze_loop text \<lparr>ls_lf_count = 0, ls_crlf_count = 0, ls_cr_only_count = 0,
                ls_max_line_len = 0, ls_current_line_len = 0, ls_line_count = 1\<rparr>
      in (line_ending_of st, ls_line_count st, max (ls_max_line_len st) (ls_current_line_len st)))"

definition detect :: "detection_config \<Rightarrow> bytes \<Rightarrow> file_type_info" where
  "detect config data =
     (if data = [] then Text Utf8 NoEnding 0
      else if length data > max_text_file_size config then Binary
      else if CHR 0x00 \<in> set data then Binary
      else case detect_encoding data of
        (_, None) \<Rightarrow> Binary
      | (encoding, Some text) \<Rightarrow>
          if count_non_printable data * snd (max_non_printable_ratio config)
             > fst (max_non_printable_ratio config) * length data then Binary
          else case analyze_lines text of (ending, line_count, max_line_len) \<Rightarrow>
            if max_line_len > max_line_length config then Binary
            else Text encoding ending line_count)"

section \<open>The line statistics\<close>

text \<open>Each line end is counted once, under the kind it has.\<close>

lemma end_line_counts [simp]:
  "ls_lf_count (end_line st) = ls_lf_count st" "ls_crlf_count (end_line st) = ls_crlf_count st"
  "ls_cr_only_count (end_line st) = ls_cr_only_count st" "ls_line_count (end_line st) = Suc (ls_line_count st)"
  "ls_max_line_len (end_line st) = max (ls_max_line_len st) (ls_current_line_len st)"
  "ls_current_line_len (end_line st) = 0"
  by (simp_all add: end_line_def)

lemma analyze_loop_counts:
  "ls_lf_count (analyze_loop t st) + ls_crlf_count (analyze_loop t st) =
     ls_lf_count st + ls_crlf_count st + count_list t 0x0A \<and>
   ls_cr_only_count (analyze_loop t st) + ls_crlf_count (analyze_loop t st) =
     ls_cr_only_count st + ls_crlf_count st + count_list t 0x0D \<and>
   ls_line_count (analyze_loop t st) + ls_lf_count st + ls_crlf_count st + ls_cr_only_count st =
     ls_line_count st + ls_lf_count (analyze_loop t st) + ls_crlf_count (analyze_loop t st) +
     ls_cr_only_count (analyze_loop t st)"
  by (induction t st rule: analyze_loop.induct) (auto split: list.splits)


text \<open>
  Without carriage returns the longest line is the longest piece between line feeds.
\<close>

lemma analyze_loop_max:
  "0x0D \<notin> set t \<Longrightarrow>
   max (ls_max_line_len (analyze_loop t st)) (ls_current_line_len (analyze_loop t st)) =
   fold max (map string_len (tl (split_on 0x0A t)))
     (max (ls_max_line_len st) (ls_current_line_len st + string_len (hd (split_on 0x0A t))))"
proof (induction t arbitrary: st)
  case Nil
  then show ?case by (simp add: string_len_def)
next
  case (Cons c t)
  obtain p ps where ss: "split_on 0x0A t = p # ps" by (cases "split_on 0x0A t") auto
  show ?case
  proof (cases "c = 0x0A")
    case True
    with Cons show ?thesis by (simp add: ss string_len_def max.commute max.left_commute)
  next
    case False
    with Cons show ?thesis by (simp add: ss string_len_def add.assoc)
  qed
qed

lemma fold_max_le_iff: "fold max xs (m::nat) \<le> n \<longleftrightarrow> m \<le> n \<and> (\<forall>x \<in> set xs. x \<le> n)"
  by (induction xs arbitrary: m) auto

lemma analyze_lines_max_le:
  assumes "0x0D \<notin> set t" and "analyze_lines t = (le, k, m)"
  shows "m \<le> n \<longleftrightarrow> (\<forall>l \<in> set (split_on 0x0A t). string_len l \<le> n)"
proof -
  have "set (split_on 0x0A t) = insert (hd (split_on 0x0A t)) (set (tl (split_on 0x0A t)))"
    by (cases "split_on 0x0A t") auto
  then show ?thesis
    using assms(2)
    by (auto simp: analyze_lines_def Let_def analyze_loop_max [OF assms(1)] fold_max_le_iff)
qed

text \<open>What \<open>detect\<close> has checked when it answers \<open>Text\<close> for a nonempty file.\<close>

lemma detect_TextD:
  assumes "detect config data = Text enc le n" and "data \<noteq> []"
  shows "\<exists>text m. length data \<le> max_text_file_size config \<and> CHR 0x00 \<notin> set data \<and>
    detect_encoding data = (enc, Some text) \<and> analyze_lines text = (le, n, m) \<and>
    m \<le> max_line_length config \<and>
    count_non_printable data * snd (max_non_printable_ratio config)
      \<le> fst (max_non_printable_ratio config) * length data"
  using assms by (auto simp: detect_def split: if_splits option.splits prod.splits)

lemma is_utf8_BOM: "is_utf8 BOM"
  by (simp add: BOM_def is_utf8_step utf8_width_def second_ok_def is_cont_def Let_def)

lemma is_utf8_skip_BOM:
  "is_utf8 (if starts_with BOM data then drop 3 data else data) \<longleftrightarrow> is_utf8 data"
proof (cases "starts_with BOM data")
  case True
  then have "data = BOM @ drop 3 data"
    by (metis append_take_drop_id starts_with_def BOM_def length_Cons list.size(3) numeral_3_eq_3)
  then have "is_utf8 data \<longleftrightarrow> is_utf8 (drop 3 data)"
    using is_utf8_append [OF is_utf8_BOM, of "drop 3 data"] by simp
  with True show ?thesis by simp
qed simp

lemma detect_encoding_cases:
  "detect_encoding data = (enc, Some text) \<Longrightarrow>
   (is_utf8 data \<and> enc \<in> {Ascii, Utf8}) \<or> (\<not> is_utf8 data \<and> enc = Latin1)"
  using is_utf8_skip_BOM [of data]
  by (auto simp: detect_encoding_def Let_def from_utf8_def split: if_splits)

lemma detect_empty: "detect config [] = Text Utf8 NoEnding 0"
  by (simp add: detect_def)

section \<open>Properties\<close>



lemma detect_hi: "detect detection_config_default ''hi'' = Text Ascii NoEnding 1"
proof -
  have "is_utf8 ''hi''" by (rule is_utf8_all_ascii) (simp add: is_ascii_def)
  then show ?thesis
    by (simp add: detect_def detection_config_default_def detect_encoding_def starts_with_def BOM_def
        from_utf8_def is_ascii_def count_non_printable_def chars.simps utf8_width_def
        analyze_lines_def line_ending_of_def end_line_def len_utf8_def)
qed

lemma detect_nul: "detect detection_config_default [CHR 0x00] = Binary"
  by (simp add: detect_def)

text \<open>
  Soundness of detection: a nonempty file classified as text is within the size limit,
  has no NUL byte, respects the configured bound on non-printable bytes, and is valid UTF-8
  exactly when its encoding is reported as ASCII or UTF-8 (otherwise it is reported as
  Latin-1; the encoding \<open>Unknown\<close> is never reported).
\<close>

theorem detect_text_sound:
  assumes "detect config data = Text enc le n" and "data \<noteq> []"
  shows "length data \<le> max_text_file_size config \<and> CHR 0x00 \<notin> set data \<and>
    count_non_printable data * snd (max_non_printable_ratio config)
      \<le> fst (max_non_printable_ratio config) * length data \<and>
    (is_utf8 data \<longleftrightarrow> enc = Ascii \<or> enc = Utf8) \<and> (\<not> is_utf8 data \<longleftrightarrow> enc = Latin1)"
proof -
  obtain tx m where t: "length data \<le> max_text_file_size config" "CHR 0x00 \<notin> set data"
    "detect_encoding data = (enc, Some tx)"
    "count_non_printable data * snd (max_non_printable_ratio config)
      \<le> fst (max_non_printable_ratio config) * length data"
    using detect_TextD [OF assms] by blast
  from detect_encoding_cases [OF t(3)] t show ?thesis by auto
qed

theorem detect_text_sound_witness:
  "detect detection_config_default ''hi'' = Text Ascii NoEnding 1 \<and> is_utf8 ''hi''"
  using detect_hi detect_text_sound [OF detect_hi] by simp

end
