(* ===== verification/TextBlocks.thy ===== *)
theory TextBlocks
  imports Database
begin

text \<open>
  The repository of text blocks, text metadata and line mappings:
  \<open>src/src/storage/text.rs\<close>, with the constraints and the reference-count trigger of
  \<open>src/migrations/20260118000004_create_text_storage.sql\<close>.  Blocks are content-addressed:
  \<open>create_block\<close> returns the block whose BLAKE3 digest the content has, when there is one.
  The locale \<open>content_store\<close> states what a caller relies on when it stores a list of
  contents and fetches them later.
\<close>

definition compute_content_hash :: "ext \<Rightarrow> str \<Rightarrow> str" where
  "compute_content_hash x content = blake3_hex x content"

definition text_get_block :: "uuid \<Rightarrow> text_block option db_op" where
  "text_get_block b = gets (\<lambda>d. find (\<lambda>r. tb_id r = b) (d_text_blocks d))"

definition text_get_block_by_hash :: "str \<Rightarrow> text_block option db_op" where
  "text_get_block_by_hash h = gets (\<lambda>d. find (\<lambda>r. tb_content_hash r = h) (d_text_blocks d))"

definition text_insert_block :: "text_block \<Rightarrow> text_block db_op" where
  "text_insert_block row = (\<lambda>d.
     if \<not> varchar 64 (tb_content_hash row) \<or> \<not> varchar 20 (tb_encoding row) then (Inl ValueTooLong, d)
     else if exists_row (\<lambda>r. tb_id r = tb_id row) (d_text_blocks d) then (Inl UniqueViolation, d)
     else if exists_row (\<lambda>r. tb_content_hash r = tb_content_hash row) (d_text_blocks d)
       then (Inl UniqueViolation, d)
     else (Inr row, d\<lparr>d_text_blocks := d_text_blocks d @ [row]\<rparr>))"

definition text_create_block :: "ext \<Rightarrow> create_text_block_input \<Rightarrow> text_block db_op" where
  "text_create_block x inp =
     (let content_hash = compute_content_hash x (ctb_content inp) in
      bindE (text_get_block_by_hash content_hash) (\<lambda>found.
        case found of
          Some existing \<Rightarrow> ret existing
        | None \<Rightarrow>
            bindE new_v4 (\<lambda>block_id. bindE now (\<lambda>t.
              text_insert_block
                \<lparr>tb_id = block_id, tb_content_hash = content_hash, tb_content = ctb_content inp,
                 tb_line_count = as_i32 (length (lines (ctb_content inp))),
                 tb_byte_size = as_i32 (length (ctb_content inp)), tb_encoding = ctb_encoding inp,
                 tb_ref_count = 0, tb_created_at = t, tb_last_accessed_at = t\<rparr>))))"

definition text_increment_ref_count :: "uuid \<Rightarrow> unit db_op" where
  "text_increment_ref_count b = modify (\<lambda>d.
     d\<lparr>d_text_blocks := update_rows (\<lambda>r. tb_id r = b)
         (\<lambda>r. r\<lparr>tb_ref_count := tb_ref_count r + 1\<rparr>) (d_text_blocks d)\<rparr>)"

definition text_decrement_ref_count :: "uuid \<Rightarrow> int db_op" where
  "text_decrement_ref_count b = (\<lambda>d.
     case find (\<lambda>r. tb_id r = b) (d_text_blocks d) of
       None \<Rightarrow> (Inl RowNotFound, d)
     | Some r \<Rightarrow> (Inr (max (tb_ref_count r - 1) 0),
         d\<lparr>d_text_blocks := update_rows (\<lambda>r. tb_id r = b)
             (\<lambda>r. r\<lparr>tb_ref_count := max (tb_ref_count r - 1) 0\<rparr>) (d_text_blocks d)\<rparr>))"

definition text_create_metadata :: "create_text_metadata_input \<Rightarrow> text_file_metadata db_op" where
  "text_create_metadata inp = bindE now (\<lambda>t d.
     let row = \<lparr>tm_tenant_id = ctm_tenant_id inp, tm_inode_id = ctm_inode_id inp,
                tm_layer_id = ctm_layer_id inp, tm_total_lines = ctm_total_lines inp,
                tm_encoding = ctm_encoding inp, tm_line_ending = ctm_line_ending inp,
                tm_has_trailing_newline = ctm_has_trailing_newline inp, tm_created_at = t\<rparr>
     in if \<not> varchar 20 (ctm_encoding inp) \<or> \<not> varchar 10 (ctm_line_ending inp) then (Inl ValueTooLong, d)
        else if ctm_line_ending inp \<notin> {''LF'', ''CRLF'', ''CR''} then (Inl CheckViolation, d)
        else if exists_row (\<lambda>m. meta_key m = meta_key row) (d_text_meta d) then (Inl UniqueViolation, d)
        else if \<not> exists_row (\<lambda>r. tn_id r = ctm_tenant_id inp) (d_tenants d) then (Inl ForeignKeyViolation, d)
        else if \<not> exists_row (\<lambda>l. ly_id l = ctm_layer_id inp) (d_layers d) then (Inl ForeignKeyViolation, d)
        else if \<not> exists_row (\<lambda>r. inode_key r = (ctm_tenant_id inp, ctm_inode_id inp)) (d_inodes d)
          then (Inl ForeignKeyViolation, d)
        else (Inr row, d\<lparr>d_text_meta := d_text_meta d @ [row]\<rparr>))"

definition text_get_metadata :: "uuid \<Rightarrow> int \<Rightarrow> uuid \<Rightarrow> text_file_metadata option db_op" where
  "text_get_metadata t i l = gets (\<lambda>d. find (\<lambda>m. meta_key m = (t, i, l)) (d_text_meta d))"

text \<open>
  The mappings of a file are inserted in one transaction: the first refused row rolls all
  of them back.
\<close>

definition text_insert_line :: "text_line_map \<Rightarrow> db \<Rightarrow> (db_error + db)" where
  "text_insert_line row d =
     (if exists_row (\<lambda>l. line_key l = line_key row) (d_text_lines d) then Inl UniqueViolation
      else if \<not> exists_row (\<lambda>b. tb_id b = tl_block_id row) (d_text_blocks d) then Inl ForeignKeyViolation
      else if \<not> exists_row (\<lambda>m. meta_key m = line_file_key row) (d_text_meta d) then Inl ForeignKeyViolation
      else Inr (d\<lparr>d_text_lines := d_text_lines d @ [row],
                 d_text_blocks := line_inserted (d_clock d) (tl_block_id row) (d_text_blocks d)\<rparr>))"

fun text_insert_lines :: "text_line_map list \<Rightarrow> db \<Rightarrow> (db_error + db)" where
  "text_insert_lines [] d = Inr d"
| "text_insert_lines (r # rs) d =
     (case text_insert_line r d of Inl e \<Rightarrow> Inl e | Inr d' \<Rightarrow> text_insert_lines rs d')"

definition text_create_line_mappings ::
  "uuid \<Rightarrow> int \<Rightarrow> uuid \<Rightarrow> (int \<times> uuid \<times> int) list \<Rightarrow> nat db_op" where
  "text_create_line_mappings t i l mappings =
     (if mappings = [] then ret 0
      else (\<lambda>d. case text_insert_lines
              (map (\<lambda>(line_number, block_id, block_line_offset).
                 \<lparr>tl_tenant_id = t, tl_inode_id = i, tl_layer_id = l, tl_line_number = line_number,
                  tl_block_id = block_id, tl_block_line_offset = block_line_offset\<rparr>) mappings)
              d of
           Inl e \<Rightarrow> (Inl e, d)
         | Inr d' \<Rightarrow> (Inr (length mappings), d')))"

definition text_get_line_mappings :: "uuid \<Rightarrow> int \<Rightarrow> uuid \<Rightarrow> text_line_map list db_op" where
  "text_get_line_mappings t i l = gets (\<lambda>d.
     sort_key tl_line_number (filter (\<lambda>m. line_file_key m = (t, i, l)) (d_text_lines d)))"

section \<open>The constraints hold after every operation\<close>

lemmas text_reads = text_get_block_def text_get_block_by_hash_def text_get_metadata_def
  text_get_line_mappings_def

lemma wf_db_same_shape:
  assumes "wf_db d" and "map block_shape bs = map block_shape (d_text_blocks d)"
  shows "wf_db (d\<lparr>d_text_blocks := bs\<rparr>)"
  using assms map_via_block_shape [OF assms(2)] by (simp add: wf_db_def wf_parts)

lemma preserves_wf_create_block [preserves_rules]: "preserves wf_db (text_create_block x inp)"
proof -
  have "preserves wf_db (text_insert_block row)" for row
    by (rule preservesI) (auto simp: text_insert_block_def wf_db_def wf_parts)
  then show ?thesis
    by (auto simp: text_create_block_def text_get_block_by_hash_def Let_def intro!: preserves_rules)
qed

lemma preserves_wf_increment [preserves_rules]: "preserves wf_db (text_increment_ref_count b)"
  by (rule preservesI)
     (auto simp: text_increment_ref_count_def block_shape_def intro!: wf_db_same_shape map_update_rows_same)

lemma preserves_wf_decrement [preserves_rules]: "preserves wf_db (text_decrement_ref_count b)"
  by (rule preservesI)
     (auto simp: text_decrement_ref_count_def block_shape_def split: option.split
       intro!: wf_db_same_shape map_update_rows_same)

lemma preserves_wf_create_metadata [preserves_rules]: "preserves wf_db (text_create_metadata inp)"
  by (rule preservesI)
     (auto simp: text_create_metadata_def Let_def wf_db_def wf_parts meta_key_def)

lemma text_insert_lines_ind:
  assumes "text_insert_lines rs d = Inr d'" "P d"
    and "\<And>r e e'. P e \<Longrightarrow> text_insert_line r e = Inr e' \<Longrightarrow> P e'"
  shows "P d'"
  using assms(1,2)
  by (induction rs arbitrary: d) (auto split: sum.splits dest: assms(3))

lemma text_insert_line_InrD:
  assumes "text_insert_line r d = Inr d'"
  shows "d' = d\<lparr>d_text_lines := d_text_lines d @ [r],
               d_text_blocks := line_inserted (d_clock d) (tl_block_id r) (d_text_blocks d)\<rparr>"
    and "line_key r \<notin> line_key ` set (d_text_lines d)"
    and "tl_block_id r \<in> tb_id ` set (d_text_blocks d)"
    and "line_file_key r \<in> meta_key ` set (d_text_meta d)"
  using assms by (force simp: text_insert_line_def image_iff split: if_splits)+

lemma wf_insert_line:
  assumes "wf_db d" "text_insert_line r d = Inr d'"
  shows "wf_db d'"
proof -
  note D = text_insert_line_InrD [OF assms(2)]
  have "wf_db (d\<lparr>d_text_lines := d_text_lines d @ [r]\<rparr>)"
    using assms(1) D(2,4) by (auto simp: wf_db_def wf_parts)
  from wf_db_same_shape [OF this, of "line_inserted (d_clock d) (tl_block_id r) (d_text_blocks d)"]
  show ?thesis by (simp add: D(1))
qed

lemma preserves_wf_line_mappings [preserves_rules]:
  "preserves wf_db (text_create_line_mappings t i l ms)"
proof (rule preservesI)
  fix d assume "wf_db d"
  then show "wf_db (snd (text_create_line_mappings t i l ms d))"
    by (auto simp: text_create_line_mappings_def split: sum.split
        elim!: text_insert_lines_ind [where P = wf_db] intro: wf_insert_line)
qed

lemma wf_delete_text_lines:
  assumes "wf_db d"
  shows "wf_db (delete_text_lines P d)"
proof -
  have "wf_db (d\<lparr>d_text_lines := delete_rows P (d_text_lines d)\<rparr>)"
    using assms by (auto simp: wf_db_def wf_parts distinct_map_delete_rows)
  from wf_db_same_shape [OF this, of "fold line_deleted (filter P (d_text_lines d)) (d_text_blocks d)"]
  show ?thesis by (simp add: delete_text_lines_def)
qed

lemma wf_db_delete_text_meta: "wf_db d \<Longrightarrow> wf_db (delete_text_meta P d)"
  by (simp add: wf_db_def wf_delete_text_meta) (simp add: wf_inodes_def wf_layers_def wf_mounts_def)

interpretation text_block_tbl: keyed_table tb_id d_text_blocks wf_db
  by unfold_locales (simp add: wf_db_def wf_files_def)

interpretation text_hash_tbl: keyed_table tb_content_hash d_text_blocks wf_db
  by unfold_locales (simp add: wf_db_def wf_files_def)

interpretation text_meta_tbl: keyed_table meta_key d_text_meta wf_db
  by unfold_locales (simp add: wf_db_def wf_files_def)

interpretation text_line_tbl: keyed_table line_key d_text_lines wf_db
  by unfold_locales (simp add: wf_db_def wf_files_def)

section \<open>Contents of blocks\<close>

definition block_content :: "uuid \<Rightarrow> db \<Rightarrow> str option" where
  "block_content b d = map_option tb_content (find (\<lambda>r. tb_id r = b) (d_text_blocks d))"

lemma block_content_via_shape:
  assumes "map block_shape (d_text_blocks d') = map block_shape (d_text_blocks d)"
  shows "block_content b d' = block_content b d"
proof -
  have f: "map_option tb_content (find (\<lambda>r. tb_id r = b) bs) =
      map_option (snd \<circ> snd) (find (\<lambda>s. fst s = b) (map block_shape bs))" for bs
    by (induction bs) (auto simp: block_shape_def)
  show ?thesis unfolding block_content_def f assms ..
qed

lemma block_content_frame [simp]:
  "block_content b (d\<lparr>d_clock := c\<rparr>) = block_content b d"
  "block_content b (d\<lparr>d_draws := n\<rparr>) = block_content b d"
  "block_content b (d\<lparr>d_text_lines := ls\<rparr>) = block_content b d"
  "block_content b (d\<lparr>d_text_meta := ms\<rparr>) = block_content b d"
  by (simp_all add: block_content_def)

text \<open>
  The blocks are addressed by the digest of their content, and no two of the contents at
  hand (those stored, and the set \<open>C\<close> of contents to be stored) collide.
\<close>

definition addressed :: "ext \<Rightarrow> str set \<Rightarrow> db \<Rightarrow> bool" where
  "addressed x C d \<longleftrightarrow> wf_db d \<and>
     (\<forall>b \<in> set (d_text_blocks d). tb_content_hash b = blake3_hex x (tb_content b)) \<and>
     inj_on (blake3_hex x) (C \<union> tb_content ` set (d_text_blocks d))"

lemma addressed_mono: "addressed x C d \<Longrightarrow> C' \<subseteq> C \<Longrightarrow> addressed x C' d"
  by (auto simp: addressed_def elim: inj_on_subset)

lemma addressed_via_shape:
  assumes "map block_shape (d_text_blocks d') = map block_shape (d_text_blocks d)"
    and "addressed x C d" and "wf_db d'"
  shows "addressed x C d'"
proof -
  have s: "block_shape ` set (d_text_blocks d') = block_shape ` set (d_text_blocks d)"
    using assms(1) by (metis set_map)
  have c: "tb_content ` set bs = (snd \<circ> snd) ` block_shape ` set bs" for bs
    by (auto simp: block_shape_def image_image)
  have h: "(\<forall>b \<in> set bs. tb_content_hash b = blake3_hex x (tb_content b)) \<longleftrightarrow>
      (\<forall>s \<in> block_shape ` set bs. fst (snd s) = blake3_hex x (snd (snd s)))" for bs
    by (auto simp: block_shape_def)
  show ?thesis using assms(2,3) unfolding addressed_def c h s by simp
qed

lemma text_create_block_InrD:
  assumes "text_create_block x inp d = (Inr b, d')" and "addressed x C d" and "ctb_content inp \<in> C"
  shows "addressed x C d'"
    and "block_content (tb_id b) d' = Some (ctb_content inp)"
    and "\<exists>bs n c. d' = d\<lparr>d_text_blocks := d_text_blocks d @ bs, d_draws := n, d_clock := c\<rparr>"
proof -
  from assms(2) have wf: "wf_db d" by (simp add: addressed_def)
  have wf': "wf_db d'"
    using preservesD [OF preserves_wf_create_block wf, of x inp] assms(1) by simp
  let ?h = "blake3_hex x (ctb_content inp)"
  have "addressed x C d' \<and> block_content (tb_id b) d' = Some (ctb_content inp) \<and>
    (\<exists>bs n c. d' = d\<lparr>d_text_blocks := d_text_blocks d @ bs, d_draws := n, d_clock := c\<rparr>)"
  proof (cases "find (\<lambda>r. tb_content_hash r = ?h) (d_text_blocks d)")
    case (Some r)
    with assms(1) have eq: "b = r" "d' = d"
      by (simp_all add: text_create_block_def text_get_block_by_hash_def compute_content_hash_def Let_def)
    from find_SomeD [OF Some] have r: "r \<in> set (d_text_blocks d)" "tb_content_hash r = ?h" by auto
    with assms(2) have "blake3_hex x (tb_content r) = ?h" by (auto simp: addressed_def)
    with assms(2,3) r have "tb_content r = ctb_content inp"
      by (auto simp: addressed_def inj_on_def)
    moreover have same: "\<exists>bs n c. d = d\<lparr>d_text_blocks := d_text_blocks d @ bs, d_draws := n, d_clock := c\<rparr>"
      by (rule exI [of _ "[]"], rule exI [of _ "d_draws d"], rule exI [of _ "d_clock d"]) simp
    moreover have "find (\<lambda>q. tb_id q = tb_id r) (d_text_blocks d) = Some r"
      using text_block_tbl.lookup_iff [OF wf] r by blast
    ultimately show ?thesis
      using assms(2) same by (simp add: eq block_content_def)
  next
    case None
    then have fresh: "\<forall>r \<in> set (d_text_blocks d). tb_content_hash r \<noteq> ?h" by simp
    have d': "d' = d\<lparr>d_draws := Suc (d_draws d), d_clock := Suc (d_clock d),
        d_text_blocks := d_text_blocks d @ [b]\<rparr>" and b: "tb_content b = ctb_content inp"
        "tb_content_hash b = ?h"
      using assms(1) None
      by (auto simp: text_create_block_def text_get_block_by_hash_def compute_content_hash_def
          text_insert_block_def Let_def split: if_splits)
    have "find (\<lambda>q. tb_id q = tb_id b) (d_text_blocks d') = Some b"
      using text_block_tbl.lookup_iff [OF wf', of "tb_id b" b] by (simp add: d')
    moreover have "addressed x C d'"
      using assms(2,3) wf' b by (auto simp: addressed_def d' insert_absorb)
    moreover have "\<exists>bs n c. d' = d\<lparr>d_text_blocks := d_text_blocks d @ bs, d_draws := n, d_clock := c\<rparr>"
      by (rule exI [of _ "[b]"], rule exI [of _ "Suc (d_draws d)"], rule exI [of _ "Suc (d_clock d)"])
         (simp add: d')
    ultimately show ?thesis using b by (simp add: block_content_def)
  qed
  then show "addressed x C d'" "block_content (tb_id b) d' = Some (ctb_content inp)"
    "\<exists>bs n c. d' = d\<lparr>d_text_blocks := d_text_blocks d @ bs, d_draws := n, d_clock := c\<rparr>"
    by blast+
qed

section \<open>Storing a list of contents\<close>

text \<open>
  What a client relies on: a stored content is fetched again under its identifier, and
  storing another one changes none of the contents already there.  Consequence: after a
  loop that stores a list, fetching the identifiers in order gives the list back.
\<close>

locale content_store =
  fixes put :: "'c \<Rightarrow> ('s, 'e, 'i) op"
    and fetch :: "'i \<Rightarrow> 's \<Rightarrow> 'c option"
    and ok :: "'c set \<Rightarrow> 's \<Rightarrow> bool"
  assumes put_fetch: "ok C s \<Longrightarrow> c \<in> C \<Longrightarrow> put c s = (Inr i, s') \<Longrightarrow> ok C s' \<and> fetch i s' = Some c"
    and put_keeps: "ok C s \<Longrightarrow> c \<in> C \<Longrightarrow> put c s = (Inr i, s') \<Longrightarrow> fetch j s = Some y \<Longrightarrow> fetch j s' = Some y"
begin

lemma put_all:
  assumes "ok C s" and "set cs \<subseteq> C"
    and "mapE (\<lambda>(n, c). bindE (put c) (\<lambda>i. ret (g n, i, k))) (enumerate m cs) s = (Inr ms, s')"
  shows "ok C s' \<and> map (\<lambda>(n, i, k). fetch i s') ms = map Some cs \<and>
    map fst ms = map g [m..<m + length cs] \<and> (\<forall>j y. fetch j s = Some y \<longrightarrow> fetch j s' = Some y)"
  using assms
proof (induction cs arbitrary: m s ms)
  case Nil
  then show ?case by simp
next
  case (Cons c cs)
  from Cons.prems(3) obtain i s1 ks where 1: "put c s = (Inr i, s1)"
    and 2: "mapE (\<lambda>(n, c). bindE (put c) (\<lambda>i. ret (g n, i, k))) (enumerate (Suc m) cs) s1 = (Inr ks, s')"
    and ms: "ms = (g m, i, k) # ks"
    by (auto simp: bindE_eq_Inr simp del: ret_apply) (auto simp: ret_def)
  from Cons.prems(1,2) 1 have ok1: "ok C s1" "fetch i s1 = Some c" using put_fetch by auto
  have keep: "fetch j s = Some y \<Longrightarrow> fetch j s1 = Some y" for j y
    using Cons.prems(1,2) by (intro put_keeps [OF _ _ 1]) auto
  from Cons.prems(2) have "set cs \<subseteq> C" by simp
  note IH = Cons.IH [OF ok1(1) this 2]
  have "map g [m..<m + length (c # cs)] = g m # map g [Suc m..<Suc m + length cs]"
    by (simp add: upt_rec)
  with IH ok1(2) keep show ?case unfolding ms by auto
qed

end

text \<open>A store that also always succeeds in the states \<open>can\<close>.\<close>

locale total_content_store = content_store put fetch ok
  for put :: "'c \<Rightarrow> ('s, 'e, 'i) op" and fetch :: "'i \<Rightarrow> 's \<Rightarrow> 'c option" and ok :: "'c set \<Rightarrow> 's \<Rightarrow> bool" +
  fixes can :: "'s \<Rightarrow> bool"
  assumes put_succeeds: "ok C s \<Longrightarrow> can s \<Longrightarrow> c \<in> C \<Longrightarrow> \<exists>i s'. put c s = (Inr i, s') \<and> can s'"
begin

lemma put_all_succeeds:
  assumes "ok C s" and "can s" and "set cs \<subseteq> C"
  shows "\<exists>ms s'. mapE (\<lambda>(n, c). bindE (put c) (\<lambda>i. ret (g n, i, k))) (enumerate m cs) s = (Inr ms, s') \<and> can s'"
  using assms
proof (induction cs arbitrary: m s)
  case Nil
  then show ?case by simp
next
  case (Cons c cs)
  then obtain i s1 where 1: "put c s = (Inr i, s1)" "can s1"
    using put_succeeds [of C s c] by auto
  have "ok C s1" using put_fetch [OF Cons.prems(1) _ 1(1)] Cons.prems(3) by simp
  moreover have "set cs \<subseteq> C" using Cons.prems(3) by simp
  ultimately obtain ms s' where 2:
    "mapE (\<lambda>(n, c). bindE (put c) (\<lambda>i. ret (g n, i, k))) (enumerate (Suc m) cs) s1 = (Inr ms, s')" "can s'"
    using Cons.IH [of s1 "Suc m"] 1(2) by blast
  have step: "bindE (put c) (\<lambda>i. ret (g m, i, k)) s = (Inr (g m, i, k), s1)"
    by (simp add: bindE_def 1(1))
  have "mapE (\<lambda>(n, c). bindE (put c) (\<lambda>i. ret (g n, i, k))) (enumerate m (c # cs)) s =
      (Inr ((g m, i, k) # ms), s')"
    by (simp add: bindE_Inr [where m = "bindE (put c) _", OF step] bindE_Inr [where m = "mapE _ _", OF 2(1)] del: ret_apply) simp
  with 2(2) show ?case by blast
qed

end

text \<open>The block repository is such a store.\<close>

definition put_block :: "ext \<Rightarrow> str \<Rightarrow> str \<Rightarrow> uuid db_op" where
  "put_block x enc content =
     bindE (text_create_block x \<lparr>ctb_content = content, ctb_encoding = enc\<rparr>) (\<lambda>b. ret (tb_id b))"

lemma find_append_keeps: "find P xs = Some r \<Longrightarrow> find P (xs @ ys) = Some r"
  by (simp add: find_append)

lemma put_block_InrD:
  assumes "put_block x enc content d = (Inr b, d')" and "addressed x C d" and "content \<in> C"
  shows "addressed x C d'" "block_content b d' = Some content"
    "\<exists>bs n c. d' = d\<lparr>d_text_blocks := d_text_blocks d @ bs, d_draws := n, d_clock := c\<rparr>"
  using assms text_create_block_InrD [where inp = "\<lparr>ctb_content = content, ctb_encoding = enc\<rparr>"]
  by (auto simp: put_block_def bindE_eq_Inr)

lemma block_content_append:
  "block_content j d = Some y \<Longrightarrow> d_text_blocks d' = d_text_blocks d @ bs \<Longrightarrow> block_content j d' = Some y"
  by (auto simp: block_content_def find_append_keeps)

interpretation block_store: content_store "put_block x enc" block_content "addressed x" for x enc
proof
  fix C d c i d' assume 1: "addressed x C d" "c \<in> C" "put_block x enc c d = (Inr i, d')"
  show "addressed x C d' \<and> block_content i d' = Some c"
    using put_block_InrD [OF 1(3,1,2)] by blast
  fix j y assume "block_content j d = Some y"
  then show "block_content j d' = Some y"
    using put_block_InrD(3) [OF 1(3,1,2)] by (auto elim: block_content_append)
qed

section \<open>The lines of a file\<close>

text \<open>The contents of the lines of a file in a layer, in the order of their numbers.\<close>

definition file_rows :: "uuid \<times> int \<times> uuid \<Rightarrow> db \<Rightarrow> text_line_map list" where
  "file_rows k d = filter (\<lambda>m. line_file_key m = k) (d_text_lines d)"

lemma text_insert_lines_InrD:
  assumes "text_insert_lines rs d = Inr d'"
  shows "d_text_lines d' = d_text_lines d @ rs"
    and "map block_shape (d_text_blocks d') = map block_shape (d_text_blocks d)"
    and "\<exists>ls bs. d' = d\<lparr>d_text_lines := ls, d_text_blocks := bs\<rparr>"
proof -
  have "d_text_lines d' = d_text_lines d @ rs \<and>
    map block_shape (d_text_blocks d') = map block_shape (d_text_blocks d) \<and>
    (\<exists>ls bs. d' = d\<lparr>d_text_lines := ls, d_text_blocks := bs\<rparr>)"
    using assms
  proof (induction rs arbitrary: d)
    case (Cons r rs)
    then obtain d1 where 1: "text_insert_line r d = Inr d1" "text_insert_lines rs d1 = Inr d'"
      by (auto split: sum.splits)
    from Cons.IH [OF 1(2)] text_insert_line_InrD(1) [OF 1(1)] show ?case by auto
  next
    case Nil
    then show ?case by (auto intro!: exI [of _ "d_text_lines d"] exI [of _ "d_text_blocks d"])
  qed
  then show "d_text_lines d' = d_text_lines d @ rs"
    "map block_shape (d_text_blocks d') = map block_shape (d_text_blocks d)"
    "\<exists>ls bs. d' = d\<lparr>d_text_lines := ls, d_text_blocks := bs\<rparr>"
    by blast+
qed

lemma created_mappings_read:
  assumes "text_create_line_mappings t i l ms d = (Inr n, d')"
    and "file_rows (t, i, l) d = []" and "sorted (map fst ms)"
  shows "text_get_line_mappings t i l d' =
      (Inr (map (\<lambda>(k, b, off). \<lparr>tl_tenant_id = t, tl_inode_id = i, tl_layer_id = l, tl_line_number = k,
                  tl_block_id = b, tl_block_line_offset = off\<rparr>) ms), d')"
    and "map block_shape (d_text_blocks d') = map block_shape (d_text_blocks d)"
    and "\<exists>ls bs. d' = d\<lparr>d_text_lines := ls, d_text_blocks := bs\<rparr>"
proof -
  let ?row = "\<lambda>(k, b, off). \<lparr>tl_tenant_id = t, tl_inode_id = i, tl_layer_id = l, tl_line_number = k,
                  tl_block_id = b, tl_block_line_offset = off\<rparr>"
  let ?rs = "map ?row ms"
  have ins: "text_insert_lines ?rs d = Inr d'"
    using assms(1) by (auto simp: text_create_line_mappings_def split: if_splits sum.splits)
  note D = text_insert_lines_InrD [OF ins]
  have "filter (\<lambda>m. line_file_key m = (t, i, l)) ?rs = ?rs"
    by (auto simp: filter_id_conv line_file_key_def)
  then have "filter (\<lambda>m. line_file_key m = (t, i, l)) (d_text_lines d') = ?rs"
    using assms(2) by (simp only: D(1) filter_append file_rows_def) simp
  moreover have "sorted (map tl_line_number ?rs)"
    using assms(3) by (simp add: comp_def case_prod_beta)
  ultimately show "text_get_line_mappings t i l d' = (Inr ?rs, d')"
    by (simp only: text_get_line_mappings_def gets_apply sort_key_id_if_sorted)
  show "map block_shape (d_text_blocks d') = map block_shape (d_text_blocks d)"
    "\<exists>ls bs. d' = d\<lparr>d_text_lines := ls, d_text_blocks := bs\<rparr>"
    by (rule D)+
qed

lemma text_insert_lines_succeed:
  assumes "\<And>r. r \<in> set rs \<Longrightarrow> tl_block_id r \<in> tb_id ` set (d_text_blocks d)"
    and "\<And>r. r \<in> set rs \<Longrightarrow> line_file_key r \<in> meta_key ` set (d_text_meta d)"
    and "\<And>r. r \<in> set rs \<Longrightarrow> line_key r \<notin> line_key ` set (d_text_lines d)"
    and "distinct (map line_key rs)"
  shows "\<exists>d'. text_insert_lines rs d = Inr d'"
  using assms
proof (induction rs arbitrary: d)
  case (Cons r rs)
  let ?d1 = "d\<lparr>d_text_lines := d_text_lines d @ [r],
               d_text_blocks := line_inserted (d_clock d) (tl_block_id r) (d_text_blocks d)\<rparr>"
  have 1: "text_insert_line r d = Inr ?d1"
  proof -
    from Cons.prems(1-3) [of r] obtain b m where
      "b \<in> set (d_text_blocks d)" "tl_block_id r = tb_id b"
      "m \<in> set (d_text_meta d)" "line_file_key r = meta_key m"
      "line_key r \<notin> line_key ` set (d_text_lines d)" by auto
    moreover from this(5) have "\<forall>l \<in> set (d_text_lines d). line_key l \<noteq> line_key r"
      by (metis imageI)
    ultimately show ?thesis by (auto simp: text_insert_line_def)
  qed
  have ids: "tb_id ` set (line_inserted c b bs) = tb_id ` set bs" for c b bs
    using map_via_block_shape [OF map_block_shape_line_inserted] by (metis set_map)
  have "\<exists>d'. text_insert_lines rs ?d1 = Inr d'"
  proof (rule Cons.IH)
    fix q assume q: "q \<in> set rs"
    then have "line_key q \<noteq> line_key r" using Cons.prems(4) by (metis distinct.simps(2) image_eqI list.simps(9) set_map)
    with q Cons.prems(1-3) [of q] show
      "tl_block_id q \<in> tb_id ` set (d_text_blocks ?d1)"
      "line_file_key q \<in> meta_key ` set (d_text_meta ?d1)"
      "line_key q \<notin> line_key ` set (d_text_lines ?d1)" by (auto simp: ids)
  qed (use Cons.prems(4) in simp)
  with 1 show ?case by simp
qed simp

section \<open>Progress\<close>

lemma ids_drawn_same_shape:
  assumes "ids_drawn d" and "map block_shape bs = map block_shape (d_text_blocks d)"
  shows "ids_drawn (d\<lparr>d_text_blocks := bs\<rparr>)"
proof -
  have "tb_id ` set bs = tb_id ` set (d_text_blocks d)"
    using map_via_block_shape [OF assms(2)] by (metis set_map)
  with assms(1) show ?thesis by (intro ids_drawn_step [OF assms(1)]) (auto simp: db_ids_def)
qed

text \<open>The states in which a block with an encoding of at most 20 bytes can be stored.\<close>

definition store_ok :: "ext \<Rightarrow> str set \<Rightarrow> db \<Rightarrow> bool" where
  "store_ok x C d \<longleftrightarrow> addressed x C d \<and>
     (\<forall>c \<in> C \<union> tb_content ` set (d_text_blocks d). length (blake3_hex x c) = 64)"

lemma put_block_succeeds:
  assumes "store_ok x C d" and "ids_drawn d" and "c \<in> C" and "length enc \<le> 20"
  shows "\<exists>b d'. put_block x enc c d = (Inr b, d') \<and> ids_drawn d'"
proof (cases "find (\<lambda>r. tb_content_hash r = blake3_hex x c) (d_text_blocks d)")
  case (Some r)
  with assms(2) show ?thesis
    by (simp add: put_block_def text_create_block_def text_get_block_by_hash_def compute_content_hash_def
        Let_def bindE_def)
next
  case None
  have "varchar 64 (blake3_hex x c)" "varchar 20 enc"
    using assms(1,3,4) by (auto simp: store_ok_def intro!: varchar_short)
  moreover have "\<forall>r \<in> set (d_text_blocks d). tb_id r \<noteq> d_entropy d (d_draws d)"
    using ids_drawn_fresh [OF assms(2)] by (metis UnI1 UnI2 db_ids_def imageI)
  moreover have "ids_drawn (d\<lparr>d_draws := Suc (d_draws d), d_clock := Suc (d_clock d),
      d_text_blocks := d_text_blocks d @ [b]\<rparr>)" if "tb_id b = d_entropy d (d_draws d)" for b
    by (rule ids_drawn_step [OF assms(2)]) (use that in \<open>auto simp: db_ids_def\<close>)
  moreover have "\<forall>r \<in> set (d_text_blocks d). tb_content_hash r \<noteq> blake3_hex x c"
    using None by simp
  ultimately show ?thesis
    using None
    by (simp del: find_None_conv add: put_block_def text_create_block_def text_get_block_by_hash_def compute_content_hash_def
        Let_def bindE_def text_insert_block_def)
qed

lemma store_ok_put:
  assumes "store_ok x C d" and "c \<in> C" and "put_block x enc c d = (Inr b, d')"
  shows "store_ok x C d'"
proof -
  have a: "addressed x C d" using assms(1) by (simp add: store_ok_def)
  from put_block_InrD(1) [OF assms(3) a assms(2)] have "addressed x C d'" .
  moreover have "tb_content ` set (d_text_blocks d') \<subseteq> C \<union> tb_content ` set (d_text_blocks d)"
    using assms(2,3)
    by (auto simp: put_block_def text_create_block_def text_get_block_by_hash_def compute_content_hash_def
        Let_def bindE_eq_Inr text_insert_block_def split: option.splits if_splits)
  ultimately show ?thesis using assms(1) unfolding store_ok_def by blast
qed

end
