(* ===== verification/Cow.thy ===== *)
theory Cow
  imports Detection Inodes TextBlocks
begin

text \<open>
  The copy-on-write handler: \<open>src/src/layer/cow.rs\<close>.  A file that the detector calls text is
  stored line by line in text blocks, with its metadata and line mappings under the current
  layer; a binary file is stored in data blocks of 4096 bytes.
\<close>

record text_changes =
  tc_lines_added :: int
  tc_lines_deleted :: int
  tc_lines_modified :: int
  tc_total_lines :: int

record cow_result =
  cr_change_type :: change_type
  cr_size_delta :: int
  cr_text_changes :: "text_changes option"
  cr_is_text :: bool

definition text_changes_to_json :: "text_changes \<Rightarrow> json" where
  "text_changes_to_json c = JObj
     [(''lines_added'', JNum (tc_lines_added c)),
      (''lines_deleted'', JNum (tc_lines_deleted c)),
      (''lines_modified'', JNum (tc_lines_modified c)),
      (''total_lines'', JNum (tc_total_lines c))]"

record cow_handler =
  cow_tenant_id :: uuid
  cow_layer_id :: uuid
  cow_detector :: detection_config

definition cow_new :: "uuid \<Rightarrow> uuid \<Rightarrow> cow_handler" where
  "cow_new t l = \<lparr>cow_tenant_id = t, cow_layer_id = l, cow_detector = detection_config_default\<rparr>"

section \<open>Binary files\<close>

definition block_size :: nat where
  "block_size = 4096"

text \<open>\<open>chunks(n)\<close> of a slice.\<close>

function chunks :: "nat \<Rightarrow> 'a list \<Rightarrow> 'a list list" where
  "chunks n xs = (if xs = [] \<or> n = 0 then [] else take n xs # chunks n (drop n xs))"
  by auto
termination by (relation "measure (\<lambda>(n, xs). length xs)") auto

declare chunks.simps [simp del]

definition change_type_of :: "bool \<Rightarrow> change_type" where
  "change_type_of is_new = (if is_new then Add else Modify)"

definition cow_write_binary_file ::
  "ext \<Rightarrow> cow_handler \<Rightarrow> int \<Rightarrow> bytes \<Rightarrow> bool \<Rightarrow> nat \<Rightarrow> cow_result db_op" where
  "cow_write_binary_file x h i data is_new old_size =
     bindE (block_delete (cow_tenant_id h) i) (\<lambda>_.
     bindE (forE (enumerate 0 (chunks block_size data)) (\<lambda>(index, chunk).
       bindE (block_create x \<lparr>cb_tenant_id = cow_tenant_id h, cb_inode_id = i,
                              cb_index = as_i32 index, cb_data = chunk\<rparr>) (\<lambda>_. ret ()))) (\<lambda>_.
     ret \<lparr>cr_change_type = change_type_of is_new,
          cr_size_delta = as_i64 (length data) - as_i64 old_size,
          cr_text_changes = None, cr_is_text = False\<rparr>))"

section \<open>Text files\<close>

definition hex_digit :: "nat \<Rightarrow> char" where
  "hex_digit n = (if n < 10 then char_of (48 + n) else char_of (87 + n))"

text \<open>\<open>format!("{:016x}", n)\<close> of a \<open>u64\<close>.\<close>

fun hex_of :: "nat \<Rightarrow> nat \<Rightarrow> str" where
  "hex_of 0 n = []"
| "hex_of (Suc w) n = hex_of w (n div 16) @ [hex_digit (n mod 16)]"

definition compute_text_hash :: "ext \<Rightarrow> str \<Rightarrow> str" where
  "compute_text_hash x content = hex_of 16 (default_hasher x content mod 2 ^ 64)"

definition calculate_line_diff :: "ext \<Rightarrow> str list \<Rightarrow> str list \<Rightarrow> text_changes" where
  "calculate_line_diff x old_lines new_lines =
     (let tags = text_diff x old_lines new_lines;
          added = length (filter (\<lambda>t. t = InsertTag) tags);
          deleted = length (filter (\<lambda>t. t = DeleteTag) tags);
          modifications = min added deleted
      in \<lparr>tc_lines_added = as_i32 (added - modifications),
          tc_lines_deleted = as_i32 (deleted - modifications),
          tc_lines_modified = as_i32 modifications,
          tc_total_lines = as_i32 (length new_lines)\<rparr>)"

text \<open>
  The block of a line: the code first looks for a block under its own 16-digit hash, and
  asks the repository for a block (which deduplicates by digest) when there is none.
\<close>

definition store_line :: "ext \<Rightarrow> str \<Rightarrow> str \<Rightarrow> uuid db_op" where
  "store_line x encoding line =
     bindE (text_get_block_by_hash (compute_text_hash x line)) (\<lambda>found.
       case found of
         Some existing \<Rightarrow> bindE (text_increment_ref_count (tb_id existing)) (\<lambda>_. ret (tb_id existing))
       | None \<Rightarrow> bindE (text_create_block x \<lparr>ctb_content = line, ctb_encoding = encoding\<rparr>)
                   (\<lambda>block. ret (tb_id block)))"

text \<open>The two deletions that precede an overwrite, each a statement of its own.\<close>

definition cow_delete_old_text :: "uuid \<Rightarrow> int \<Rightarrow> uuid \<Rightarrow> unit db_op" where
  "cow_delete_old_text t i l =
     bindE (modify (delete_text_lines (\<lambda>m. line_file_key m = (t, i, l)))) (\<lambda>_.
       modify (delete_text_meta (\<lambda>m. meta_key m = (t, i, l))))"

definition has_trailing_newline :: "str \<Rightarrow> bool" where
  "has_trailing_newline s \<longleftrightarrow> ends_with_nl s \<or> drop (length s - 2) s = [CR, NL]"

definition cow_write_text_file ::
  "ext \<Rightarrow> cow_handler \<Rightarrow> int \<Rightarrow> bytes \<Rightarrow> bytes option \<Rightarrow> text_encoding \<Rightarrow> line_ending \<Rightarrow> cow_result db_op" where
  "cow_write_text_file x h i data old_data encoding line_ending =
     (let new_text = from_utf8_lossy data;
          old_text = map_option from_utf8_lossy old_data;
          new_lines = lines new_text;
          old_lines = (case old_text of None \<Rightarrow> [] | Some t \<Rightarrow> lines t);
          is_new = (old_data = None);
          total_lines = as_i32 (length new_lines);
          text_changes = (if is_new then \<lparr>tc_lines_added = total_lines, tc_lines_deleted = 0,
                                          tc_lines_modified = 0, tc_total_lines = total_lines\<rparr>
                          else calculate_line_diff x old_lines new_lines)
      in bindE (if \<not> is_new then cow_delete_old_text (cow_tenant_id h) i (cow_layer_id h) else ret ()) (\<lambda>_.
         bindE (text_create_metadata
                  \<lparr>ctm_tenant_id = cow_tenant_id h, ctm_inode_id = i, ctm_layer_id = cow_layer_id h,
                   ctm_total_lines = total_lines, ctm_encoding = encoding_to_string encoding,
                   ctm_line_ending = line_ending_to_string line_ending,
                   ctm_has_trailing_newline = has_trailing_newline new_text\<rparr>) (\<lambda>_.
         bindE (mapE (\<lambda>(line_num, line).
                  bindE (store_line x (encoding_to_string encoding) line) (\<lambda>block_id.
                    ret (as_i32 line_num, block_id, 0))) (enumerate 0 new_lines)) (\<lambda>mappings.
         bindE (text_create_line_mappings (cow_tenant_id h) i (cow_layer_id h) mappings) (\<lambda>_.
         ret \<lparr>cr_change_type = change_type_of is_new,
              cr_size_delta = as_i64 (length data) -
                as_i64 (case old_data of None \<Rightarrow> 0 | Some d \<Rightarrow> length d),
              cr_text_changes = Some text_changes, cr_is_text = True\<rparr>)))))"

definition cow_write_file ::
  "ext \<Rightarrow> cow_handler \<Rightarrow> int \<Rightarrow> bytes \<Rightarrow> bytes option \<Rightarrow> cow_result db_op" where
  "cow_write_file x h i data old_data =
     (case detect (cow_detector h) data of
        Text encoding line_ending line_count \<Rightarrow>
          cow_write_text_file x h i data old_data encoding line_ending
      | Binary \<Rightarrow>
          cow_write_binary_file x h i data (old_data = None)
            (case old_data of None \<Rightarrow> 0 | Some d \<Rightarrow> length d))"

text \<open>
  Reading joins the contents of the blocks that the mappings name; a mapping whose block is
  gone is skipped.  The names of the line endings are compared in lower case.
\<close>

definition line_separator :: "str \<Rightarrow> str" where
  "line_separator e = (if e = ''crlf'' then [CR, NL] else if e = ''cr'' then [CR] else [NL])"

fun fetch_lines :: "text_line_map list \<Rightarrow> str list db_op" where
  "fetch_lines [] = ret []"
| "fetch_lines (m # ms) =
     bindE (text_get_block (tl_block_id m)) (\<lambda>b.
     bindE (fetch_lines ms) (\<lambda>ls.
       ret (case b of None \<Rightarrow> ls | Some block \<Rightarrow> tb_content block # ls)))"

definition cow_read_text_file :: "cow_handler \<Rightarrow> int \<Rightarrow> uuid \<Rightarrow> str option db_op" where
  "cow_read_text_file h i l =
     bindE (text_get_metadata (cow_tenant_id h) i l) (\<lambda>m.
       case m of
         None \<Rightarrow> ret None
       | Some metadata \<Rightarrow>
           bindE (text_get_line_mappings (cow_tenant_id h) i l) (\<lambda>mappings.
           bindE (fetch_lines (sort_key tl_line_number mappings)) (\<lambda>ls.
             let sep = line_separator (tm_line_ending metadata);
                 result = join sep ls
             in ret (Some (if tm_has_trailing_newline metadata \<and> result \<noteq> [] then result @ sep else result)))))"

definition cow_delete_text_file :: "cow_handler \<Rightarrow> int \<Rightarrow> uuid \<Rightarrow> unit db_op" where
  "cow_delete_text_file h i l =
     bindE (text_get_line_mappings (cow_tenant_id h) i l) (\<lambda>mappings.
       forE mappings (\<lambda>m. bindE (text_decrement_ref_count (tl_block_id m)) (\<lambda>_. ret ())))"

section \<open>The constraints hold after every operation\<close>

lemma preserves_wf_cow_write_file [preserves_rules]: "preserves wf_db (cow_write_file x h i data old)"
proof -
  have "preserves wf_db (modify (delete_text_lines P))" "preserves wf_db (modify (delete_text_meta Q))" for P Q
    by (rule preservesI, simp add: wf_delete_text_lines wf_db_delete_text_meta)+
  then show ?thesis
    unfolding cow_write_file_def cow_write_text_file_def cow_write_binary_file_def cow_delete_old_text_def
      store_line_def Let_def text_get_block_by_hash_def
    by (auto intro!: preserves_rules split: file_type_info.split)
qed

lemma preserves_wf_cow_delete_text [preserves_rules]: "preserves wf_db (cow_delete_text_file h i l)"
  unfolding cow_delete_text_file_def text_get_line_mappings_def by (intro preserves_rules)

section \<open>Storing the lines of a text\<close>

lemma length_hex_of [simp]: "length (hex_of w n) = w"
  by (induction w arbitrary: n) auto

text \<open>
  A digest has 64 hexadecimal digits and the hash of \<open>compute_text_hash\<close> has 16, so the
  first lookup never finds a block and every line goes through the deduplication of the
  repository.
\<close>

lemma store_line_put:
  assumes "store_ok x C d"
  shows "store_line x enc line d = put_block x enc line d"
proof -
  have "tb_content_hash b \<noteq> compute_text_hash x line" if "b \<in> set (d_text_blocks d)" for b
  proof
    assume "tb_content_hash b = compute_text_hash x line"
    then have "length (tb_content_hash b) = 16" by (simp add: compute_text_hash_def)
    moreover have "length (tb_content_hash b) = 64"
      using assms that by (auto simp: store_ok_def addressed_def)
    ultimately show False by simp
  qed
  then have "find (\<lambda>r. tb_content_hash r = compute_text_hash x line) (d_text_blocks d) = None"
    by simp
  then show ?thesis
    by (simp add: store_line_def put_block_def text_get_block_by_hash_def del: find_None_conv)
qed

interpretation line_store: total_content_store "store_line x enc" block_content "store_ok x"
  "\<lambda>d. ids_drawn d \<and> length enc \<le> 20" for x enc
proof
  fix C d c i d' assume 1: "store_ok x C d" "c \<in> C" "store_line x enc c d = (Inr i, d')"
  then have put: "put_block x enc c d = (Inr i, d')" by (simp add: store_line_put [OF 1(1)])
  from 1(1) have a: "addressed x C d" by (simp add: store_ok_def)
  show "store_ok x C d' \<and> block_content i d' = Some c"
    using put_block_InrD(2) [OF put a 1(2)] store_ok_put [OF 1(1,2) put] by blast
  fix j y assume "block_content j d = Some y"
  then show "block_content j d' = Some y"
    using put_block_InrD(3) [OF put a 1(2)] by (auto elim: block_content_append)
next
  fix C d c assume 1: "store_ok x C d" "ids_drawn d \<and> length enc \<le> 20" "c \<in> C"
  then show "\<exists>i d'. store_line x enc c d = (Inr i, d') \<and> ids_drawn d' \<and> length enc \<le> 20"
    using put_block_succeeds [OF 1(1) _ 1(3)] by (simp add: store_line_put [OF 1(1)])
qed

text \<open>Storing lines touches only the text blocks, the clock and the random source.\<close>

definition other_tables :: "db \<Rightarrow> db" where
  "other_tables d = d\<lparr>d_text_blocks := [], d_clock := 0, d_draws := 0\<rparr>"

lemma preserves_store_line: "preserves (\<lambda>d. other_tables d = v) (store_line x enc c)"
proof -
  have "preserves (\<lambda>d. other_tables d = v) new_v4" "preserves (\<lambda>d. other_tables d = v) now"
    "preserves (\<lambda>d. other_tables d = v) (text_insert_block b)"
    "preserves (\<lambda>d. other_tables d = v) (text_increment_ref_count i)" for b i
    by (auto intro!: preservesI simp: other_tables_def text_insert_block_def text_increment_ref_count_def)
  then show ?thesis
    unfolding store_line_def text_create_block_def text_get_block_by_hash_def Let_def
    by (intro preserves_rules)
qed

lemma other_tables_frame:
  assumes "other_tables d' = other_tables d"
  shows "d_tenants d' = d_tenants d" "d_inodes d' = d_inodes d" "d_blocks d' = d_blocks d"
    "d_layers d' = d_layers d" "d_entries d' = d_entries d" "d_current d' = d_current d"
    "d_text_meta d' = d_text_meta d" "d_text_lines d' = d_text_lines d" "d_mounts d' = d_mounts d"
    "d_published d' = d_published d" "d_inode_seq d' = d_inode_seq d" "d_entropy d' = d_entropy d"
proof -
  have f: "d_tenants (other_tables d) = d_tenants d" "d_inodes (other_tables d) = d_inodes d"
    "d_blocks (other_tables d) = d_blocks d" "d_layers (other_tables d) = d_layers d"
    "d_entries (other_tables d) = d_entries d" "d_current (other_tables d) = d_current d"
    "d_text_meta (other_tables d) = d_text_meta d" "d_text_lines (other_tables d) = d_text_lines d"
    "d_mounts (other_tables d) = d_mounts d" "d_published (other_tables d) = d_published d"
    "d_inode_seq (other_tables d) = d_inode_seq d" "d_entropy (other_tables d) = d_entropy d" for d
    by (simp_all add: other_tables_def)
  show "d_tenants d' = d_tenants d" "d_inodes d' = d_inodes d" "d_blocks d' = d_blocks d"
    "d_layers d' = d_layers d" "d_entries d' = d_entries d" "d_current d' = d_current d"
    "d_text_meta d' = d_text_meta d" "d_text_lines d' = d_text_lines d" "d_mounts d' = d_mounts d"
    "d_published d' = d_published d" "d_inode_seq d' = d_inode_seq d" "d_entropy d' = d_entropy d"
    using f [of d] f [of d'] assms by simp_all
qed

section \<open>The text of a file\<close>

text \<open>What \<open>read_text_file\<close> returns, as a function of the database.\<close>

definition text_content :: "uuid \<Rightarrow> int \<Rightarrow> uuid \<Rightarrow> db \<Rightarrow> str option" where
  "text_content t i l d =
     (case find (\<lambda>m. meta_key m = (t, i, l)) (d_text_meta d) of
        None \<Rightarrow> None
      | Some m \<Rightarrow>
          let rows = sort_key tl_line_number (file_rows (t, i, l) d);
              sep = line_separator (tm_line_ending m);
              result = join sep (List.map_filter (\<lambda>r. block_content (tl_block_id r) d) rows)
          in Some (if tm_has_trailing_newline m \<and> result \<noteq> [] then result @ sep else result))"

lemma fetch_lines_eq:
  "fetch_lines ms d = (Inr (List.map_filter (\<lambda>r. block_content (tl_block_id r) d) ms), d)"
  by (induction ms)
     (auto simp: text_get_block_def bindE_def block_content_def map_filter_simps split: option.split dest: find_SomeD)

lemma cow_read_text_file_eq:
  "cow_read_text_file h i l d = (Inr (text_content (cow_tenant_id h) i l d), d)"
  by (auto simp: cow_read_text_file_def text_content_def text_get_metadata_def text_get_line_mappings_def
      fetch_lines_eq bindE_def Let_def file_rows_def sort_key_id_if_sorted split: option.split
      dest: find_SomeD)

lemma text_content_cong:
  assumes "d_text_meta d' = d_text_meta d" "d_text_lines d' = d_text_lines d"
    and "map block_shape (d_text_blocks d') = map block_shape (d_text_blocks d)"
  shows "text_content t i l d' = text_content t i l d"
  using block_content_via_shape [OF assms(3)]
  by (simp add: text_content_def file_rows_def assms(1,2) cong: option.case_cong)

lemma line_separator_stored [simp]: "line_separator (line_ending_to_string e) = [NL]"
  by (cases e) (simp_all add: line_separator_def)

lemma has_trailing_newline_iff [simp]: "has_trailing_newline s \<longleftrightarrow> ends_with_nl s"
proof
  assume "has_trailing_newline s"
  then show "ends_with_nl s"
    unfolding has_trailing_newline_def ends_with_nl_def
    by (metis append_take_drop_id last_appendR last.simps list.simps(3) append_is_Nil_conv)
qed (simp add: has_trailing_newline_def)

lemma sorted_as_i32: "n < 2 ^ 31 \<Longrightarrow> sorted (map as_i32 [0..<n])"
proof -
  assume "n < 2 ^ 31"
  then have "map as_i32 [0..<n] = map int [0..<n]" by (intro map_cong refl as_i32_id) auto
  also have "sorted \<dots>" by (simp add: sorted_map sorted_wrt_upt sorted_wrt_mono_rel [of _ "(<)"])
  finally show ?thesis .
qed

lemma distinct_as_i32: "n < 2 ^ 31 \<Longrightarrow> distinct (map as_i32 [0..<n])"
proof -
  assume "n < 2 ^ 31"
  then have "map as_i32 [0..<n] = map int [0..<n]" by (intro map_cong refl as_i32_id) auto
  then show ?thesis by (simp only: distinct_map) simp
qed

lemma map_filter_all:
  "map f xs = map Some ys \<Longrightarrow> List.map_filter f xs = ys"
  by (induction xs arbitrary: ys) (auto simp: map_filter_simps)

text \<open>
  The second half of a text write, from a database without lines and metadata for the file:
  metadata, blocks and mappings are created, and reading gives the lines joined again.
\<close>

definition text_tail ::
  "ext \<Rightarrow> uuid \<Rightarrow> int \<Rightarrow> uuid \<Rightarrow> str list \<Rightarrow> text_encoding \<Rightarrow> line_ending \<Rightarrow> bool \<Rightarrow> nat db_op" where
  "text_tail x t i l ls encoding line_ending trailing =
     bindE (text_create_metadata
              \<lparr>ctm_tenant_id = t, ctm_inode_id = i, ctm_layer_id = l,
               ctm_total_lines = as_i32 (length ls), ctm_encoding = encoding_to_string encoding,
               ctm_line_ending = line_ending_to_string line_ending,
               ctm_has_trailing_newline = trailing\<rparr>) (\<lambda>_.
     bindE (mapE (\<lambda>(line_num, line).
              bindE (store_line x (encoding_to_string encoding) line) (\<lambda>block_id.
                ret (as_i32 line_num, block_id, 0))) (enumerate 0 ls)) (\<lambda>mappings.
       text_create_line_mappings t i l mappings))"

definition file_ready :: "uuid \<Rightarrow> int \<Rightarrow> uuid \<Rightarrow> db \<Rightarrow> bool" where
  "file_ready t i l d \<longleftrightarrow> (\<exists>r \<in> set (d_tenants d). tn_id r = t) \<and>
     (\<exists>r \<in> set (d_layers d). ly_id r = l) \<and> (\<exists>r \<in> set (d_inodes d). inode_key r = (t, i))"

definition text_frame :: "db \<Rightarrow> db \<Rightarrow> bool" where
  "text_frame d d' \<longleftrightarrow> d_tenants d' = d_tenants d \<and> d_inodes d' = d_inodes d \<and> d_blocks d' = d_blocks d \<and>
     d_layers d' = d_layers d \<and> d_entries d' = d_entries d \<and> d_current d' = d_current d \<and>
     d_mounts d' = d_mounts d \<and> d_published d' = d_published d \<and> d_inode_seq d' = d_inode_seq d"

lemma encoding_short [simp]: "varchar 20 (encoding_to_string e)" "length (encoding_to_string e) \<le> 20"
  by (cases e; simp add: varchar_short)+

lemma line_ending_short [simp]: "varchar 10 (line_ending_to_string e)"
  by (cases e; simp add: varchar_short)

lemma line_ending_valid [simp]: "line_ending_to_string e \<in> {''LF'', ''CRLF'', ''CR''}"
  by (cases e) simp_all

lemma text_tail_spec:
  assumes ok: "store_ok x (set ls) d" and drawn: "ids_drawn d" and ready: "file_ready t i l d"
    and none: "\<forall>m \<in> set (d_text_meta d). meta_key m \<noteq> (t, i, l)"
    and small: "length ls < 2 ^ 31"
  shows "\<exists>n d'. text_tail x t i l ls e le trailing d = (Inr n, d') \<and> wf_db d' \<and> ids_drawn d' \<and>
    text_frame d d' \<and> text_content t i l d' = Some (unlines ls trailing)"
proof -
  let ?meta = "\<lparr>tm_tenant_id = t, tm_inode_id = i, tm_layer_id = l, tm_total_lines = as_i32 (length ls),
      tm_encoding = encoding_to_string e, tm_line_ending = line_ending_to_string le,
      tm_has_trailing_newline = trailing, tm_created_at = d_clock d\<rparr>"
  let ?d1 = "d\<lparr>d_clock := Suc (d_clock d), d_text_meta := d_text_meta d @ [?meta]\<rparr>"
  let ?inp = "\<lparr>ctm_tenant_id = t, ctm_inode_id = i, ctm_layer_id = l,
               ctm_total_lines = as_i32 (length ls), ctm_encoding = encoding_to_string e,
               ctm_line_ending = line_ending_to_string le, ctm_has_trailing_newline = trailing\<rparr>"
  have meta: "text_create_metadata ?inp d = (Inr ?meta, ?d1)"
    using ready none line_ending_valid [of le]
    by (auto simp: text_create_metadata_def file_ready_def meta_key_def Let_def)
  have wf: "wf_db d" using ok by (simp add: store_ok_def addressed_def)
  have wf1: "wf_db ?d1"
    using preservesD [OF preserves_wf_create_metadata wf, of ?inp] meta by simp
  have ok1: "store_ok x (set ls) ?d1"
    using ok wf1 by (simp add: store_ok_def addressed_def)
  have drawn1: "ids_drawn ?d1" using drawn by (simp add: ids_drawn_def db_ids_def)
  let ?store = "mapE (\<lambda>(line_num, line).
              bindE (store_line x (encoding_to_string e) line) (\<lambda>block_id.
                ret (as_i32 line_num, block_id, 0 :: int))) (enumerate 0 ls)"
  obtain ms d2 where store: "?store ?d1 = (Inr ms, d2)" and drawn2: "ids_drawn d2"
    using line_store.put_all_succeeds [OF ok1, of "encoding_to_string e" ls as_i32 0 0] drawn1 by auto
  from line_store.put_all [OF ok1 order_refl store]
  have ok2: "store_ok x (set ls) d2"
    and fetch: "map (\<lambda>(n, b, k). block_content b d2) ms = map Some ls"
    and nums: "map fst ms = map as_i32 [0..<length ls]" by simp_all
  have wf2: "wf_db d2" using ok2 by (simp add: store_ok_def addressed_def)
  have "preserves (\<lambda>d. other_tables d = other_tables ?d1) ?store"
    by (auto intro!: preserves_rules preserves_store_line)
  from preservesD [OF this refl] have "other_tables d2 = other_tables ?d1" by (simp add: store)
  note frame2 = other_tables_frame [OF this]
  have rows: "file_rows (t, i, l) d2 = []"
    using wf none frame2 by (auto simp: file_rows_def filter_empty_conv wf_db_def wf_files_def)
  let ?row = "\<lambda>(k, b, off). \<lparr>tl_tenant_id = t, tl_inode_id = i, tl_layer_id = l, tl_line_number = k,
                  tl_block_id = b, tl_block_line_offset = off\<rparr>"
  have "\<exists>d3. text_insert_lines (map ?row ms) d2 = Inr d3"
  proof (rule text_insert_lines_succeed)
    fix r assume "r \<in> set (map ?row ms)"
    then obtain k b off where r: "(k, b, off) \<in> set ms" "r = ?row (k, b, off)" by auto
    have "Some ` set ls = (\<lambda>(n, b, k). block_content b d2) ` set ms"
      using fetch by (metis set_map)
    with r(1) have "block_content b d2 \<in> Some ` set ls" by force
    then have "block_content b d2 \<noteq> None" by auto
    then show "tl_block_id r \<in> tb_id ` set (d_text_blocks d2)"
      using r(2) by (auto simp: block_content_def)
    show "line_file_key r \<in> meta_key ` set (d_text_meta d2)"
      using r(2) by (simp add: frame2 line_file_key_def meta_key_def)
    show "line_key r \<notin> line_key ` set (d_text_lines d2)"
      using rows r(2) by (auto simp: file_rows_def filter_empty_conv line_key_def line_file_key_def)
  next
    have "map line_key (map ?row ms) = map (\<lambda>k. ((t, i, l), k)) (map fst ms)"
      by (auto simp: line_key_def line_file_key_def)
    also have "distinct \<dots>"
      unfolding nums using distinct_as_i32 [OF small] by (auto simp: distinct_map inj_on_def)
    finally show "distinct (map line_key (map ?row ms))" .
  qed
  then obtain n d3 where maps: "text_create_line_mappings t i l ms d2 = (Inr n, d3)"
    by (cases "ms = []") (auto simp: text_create_line_mappings_def)
  have "sorted (map fst ms)" unfolding nums by (rule sorted_as_i32 [OF small])
  note read = created_mappings_read [OF maps rows this]
  have wf3: "wf_db d3" using preservesD [OF preserves_wf_line_mappings wf2, of t i l ms] maps by simp
  from read(3) have f3: "text_frame d2 d3" "d_text_meta d3 = d_text_meta d2" "d_entropy d3 = d_entropy d2"
    "d_draws d3 = d_draws d2"
    by (auto simp: text_frame_def)
  have drawn3: "ids_drawn d3"
  proof -
    have "tb_id ` set (d_text_blocks d3) = tb_id ` set (d_text_blocks d2)"
      using map_via_block_shape [OF read(2)] by (metis set_map)
    with f3 drawn2 show ?thesis by (simp add: ids_drawn_def db_ids_def text_frame_def)
  qed
  have "find (\<lambda>m. meta_key m = (t, i, l)) (d_text_meta d3) = Some ?meta"
    using none by (simp add: f3(2) frame2 find_append meta_key_def del: find_None_conv)
      (auto simp: find_None_conv meta_key_def split: option.split dest: find_SomeD)
  moreover have "sort_key tl_line_number (file_rows (t, i, l) d3) = map ?row ms"
    using read(1) by (simp add: text_get_line_mappings_def file_rows_def)
  moreover have "List.map_filter (\<lambda>r. block_content (tl_block_id r) d3) (map ?row ms) = ls"
    using fetch block_content_via_shape [OF read(2)]
    by (intro map_filter_all) (simp add: comp_def case_prod_beta')
  ultimately have "text_content t i l d3 = Some (unlines ls trailing)"
    by (simp add: text_content_def unlines_def Let_def)
  moreover have "text_frame d d3"
    using f3(1) frame2 by (simp add: text_frame_def)
  moreover have "text_tail x t i l ls e le trailing d = (Inr n, d3)"
    using meta store maps by (simp add: text_tail_def bindE_def)
  ultimately show ?thesis using wf3 drawn3 by blast
qed

section \<open>Writing a text file\<close>

lemma cow_write_text_file_eq:
  "cow_write_text_file x h i data old e le =
     bindE (if old \<noteq> None then cow_delete_old_text (cow_tenant_id h) i (cow_layer_id h) else ret ()) (\<lambda>_.
     bindE (text_tail x (cow_tenant_id h) i (cow_layer_id h) (lines (from_utf8_lossy data)) e le
              (ends_with_nl (from_utf8_lossy data))) (\<lambda>_.
     ret \<lparr>cr_change_type = change_type_of (old = None),
          cr_size_delta = as_i64 (length data) - as_i64 (case old of None \<Rightarrow> 0 | Some d \<Rightarrow> length d),
          cr_text_changes = Some
            (if old = None
             then \<lparr>tc_lines_added = as_i32 (length (lines (from_utf8_lossy data))), tc_lines_deleted = 0,
                   tc_lines_modified = 0, tc_total_lines = as_i32 (length (lines (from_utf8_lossy data)))\<rparr>
             else calculate_line_diff x
                    (case old of None \<Rightarrow> [] | Some t \<Rightarrow> lines (from_utf8_lossy t))
                    (lines (from_utf8_lossy data))),
          cr_is_text = True\<rparr>))"
  by (cases old) (simp_all add: cow_write_text_file_def text_tail_def bindE_assoc Let_def)

lemma cow_delete_old_text_spec:
  assumes "store_ok x C d" and "ids_drawn d"
  shows "\<exists>d1. cow_delete_old_text t i l d = (Inr (), d1) \<and> store_ok x C d1 \<and> ids_drawn d1 \<and>
     text_frame d d1 \<and> (\<forall>m \<in> set (d_text_meta d1). meta_key m \<noteq> (t, i, l))"
proof -
  let ?d1 = "delete_text_meta (\<lambda>m. meta_key m = (t, i, l)) (delete_text_lines (\<lambda>m. line_file_key m = (t, i, l)) d)"
  have eq: "cow_delete_old_text t i l d = (Inr (), ?d1)"
    by (simp add: cow_delete_old_text_def)
  have shape: "map block_shape (d_text_blocks ?d1) = map block_shape (d_text_blocks d)" by simp
  have a: "addressed x C d" using assms(1) by (simp add: store_ok_def)
  then have "wf_db d" by (simp add: addressed_def)
  then have "wf_db ?d1" by (intro wf_db_delete_text_meta wf_delete_text_lines)
  from addressed_via_shape [OF shape a this] have a1: "addressed x C ?d1" .
  have "tb_content ` set bs = (snd \<circ> snd) ` block_shape ` set bs" for bs
    by (auto simp: block_shape_def image_image)
  then have "tb_content ` set (d_text_blocks ?d1) = tb_content ` set (d_text_blocks d)"
    using shape by (metis set_map)
  with a1 assms(1) have "store_ok x C ?d1" by (simp add: store_ok_def)
  moreover have "ids_drawn ?d1"
  proof -
    have "tb_id ` set (d_text_blocks ?d1) = tb_id ` set (d_text_blocks d)"
      using map_via_block_shape [OF shape] by (metis set_map)
    with assms(2) show ?thesis by (simp add: ids_drawn_def db_ids_def)
  qed
  moreover have "text_frame d ?d1" by (simp add: text_frame_def)
  moreover have "\<forall>m \<in> set (d_text_meta ?d1). meta_key m \<noteq> (t, i, l)" by simp
  ultimately show ?thesis using eq by blast
qed

lemma cow_write_text_spec:
  fixes data defines "s \<equiv> from_utf8_lossy data"
  assumes ok: "store_ok x (set (lines s)) d" and drawn: "ids_drawn d"
    and ready: "file_ready (cow_tenant_id h) i (cow_layer_id h) d"
    and none: "old = None \<Longrightarrow> \<forall>m \<in> set (d_text_meta d). meta_key m \<noteq> (cow_tenant_id h, i, cow_layer_id h)"
    and small: "length (lines s) < 2 ^ 31"
  shows "\<exists>res d'. cow_write_text_file x h i data old e le d = (Inr res, d') \<and> wf_db d' \<and> ids_drawn d' \<and>
    text_frame d d' \<and>
    text_content (cow_tenant_id h) i (cow_layer_id h) d' = Some (unlines (lines s) (ends_with_nl s))"
proof -
  let ?del = "if old \<noteq> None then cow_delete_old_text (cow_tenant_id h) i (cow_layer_id h) else ret ()"
  obtain d1 where del: "?del d = (Inr (), d1)" and ok1: "store_ok x (set (lines s)) d1"
    and drawn1: "ids_drawn d1" and f1: "text_frame d d1"
    and none1: "\<forall>m \<in> set (d_text_meta d1). meta_key m \<noteq> (cow_tenant_id h, i, cow_layer_id h)"
  proof (cases "old = None")
    case True
    then show ?thesis using that [of d] ok drawn none by (simp add: text_frame_def)
  next
    case False
    then show ?thesis
      using cow_delete_old_text_spec [OF ok drawn, of "cow_tenant_id h" i "cow_layer_id h"] that by auto
  qed
  have "file_ready (cow_tenant_id h) i (cow_layer_id h) d1"
    using ready f1 by (simp add: file_ready_def text_frame_def)
  from text_tail_spec [OF ok1 drawn1 this none1 small, of e le "ends_with_nl s"]
  obtain n d' where tail: "text_tail x (cow_tenant_id h) i (cow_layer_id h) (lines s) e le (ends_with_nl s) d1 = (Inr n, d')"
    and post: "wf_db d'" "ids_drawn d'" "text_frame d1 d'"
      "text_content (cow_tenant_id h) i (cow_layer_id h) d' = Some (unlines (lines s) (ends_with_nl s))"
    by blast
  have "text_frame d d'" using f1 post(3) by (simp add: text_frame_def)
  moreover have "\<exists>res. cow_write_text_file x h i data old e le d = (Inr res, d')"
    using tail unfolding cow_write_text_file_eq bindE_def s_def [symmetric] del by simp
  ultimately show ?thesis using post by blast
qed

section \<open>Writing a binary file\<close>

lemma concat_chunks: "0 < n \<Longrightarrow> concat (chunks n xs) = xs"
  by (induction n xs rule: chunks.induct) (subst chunks.simps, auto)

lemma length_chunks: "length (chunks n xs) \<le> length xs"
proof (induction n xs rule: chunks.induct)
  case (1 n xs)
  show ?case
  proof (cases "xs = [] \<or> n = 0")
    case False
    with 1 have "length (chunks n (drop n xs)) \<le> length xs - n" by simp
    moreover have "0 < length xs" "0 < n" using False by auto
    ultimately have "Suc (length (chunks n (drop n xs))) \<le> length xs" by arith
    with False show ?thesis by (subst chunks.simps) simp
  qed (simp add: chunks.simps)
qed

text \<open>The contents of a file's data blocks in the order of their indices.\<close>

definition own_blocks :: "uuid \<Rightarrow> int \<Rightarrow> db \<Rightarrow> data_block list" where
  "own_blocks t i d = filter (\<lambda>b. blk_tenant_id b = t \<and> blk_inode_id b = i) (d_blocks d)"

definition binary_content :: "uuid \<Rightarrow> int \<Rightarrow> db \<Rightarrow> bytes" where
  "binary_content t i d = concat (map blk_data (sort_key blk_index (own_blocks t i d)))"

definition create_chunk :: "ext \<Rightarrow> uuid \<Rightarrow> int \<Rightarrow> nat \<times> bytes \<Rightarrow> unit db_op" where
  "create_chunk x t i = (\<lambda>(index, chunk).
     bindE (block_create x \<lparr>cb_tenant_id = t, cb_inode_id = i, cb_index = as_i32 index, cb_data = chunk\<rparr>)
       (\<lambda>_. ret ()))"

definition blocks_frame :: "db \<Rightarrow> db \<Rightarrow> bool" where
  "blocks_frame d d' \<longleftrightarrow>
     d'\<lparr>d_blocks := [], d_draws := 0, d_clock := 0\<rparr> = d\<lparr>d_blocks := [], d_draws := 0, d_clock := 0\<rparr>"

lemma blocks_frame_trans: "blocks_frame d d1 \<Longrightarrow> blocks_frame d1 d2 \<Longrightarrow> blocks_frame d d2"
  by (simp add: blocks_frame_def)

lemma blocks_frame_fields:
  "blocks_frame d d' \<Longrightarrow> d' = d\<lparr>d_blocks := d_blocks d', d_draws := d_draws d', d_clock := d_clock d'\<rparr>"
  unfolding blocks_frame_def by (cases d; cases d') simp

lemma create_chunks_spec:
  assumes "ids_drawn d" and "\<exists>r \<in> set (d_inodes d). inode_key r = (t, i)"
    and "\<forall>b \<in> set (own_blocks t i d). blk_index b < int m" and "m + length cs < 2 ^ 31"
  shows "\<exists>d'. forE (enumerate m cs) (create_chunk x t i) d = (Inr (), d') \<and> ids_drawn d' \<and> blocks_frame d d' \<and>
    map blk_data (own_blocks t i d') = map blk_data (own_blocks t i d) @ cs \<and>
    map blk_index (own_blocks t i d') = map blk_index (own_blocks t i d) @ map int [m..<m + length cs]"
  using assms
proof (induction cs arbitrary: m d)
  case Nil
  have "blocks_frame d d" by (simp add: blocks_frame_def)
  with Nil show ?case by simp
next
  case (Cons c cs)
  let ?row = "\<lparr>blk_id = d_entropy d (d_draws d), blk_tenant_id = t, blk_inode_id = i, blk_index = int m,
      blk_data = c, blk_size = as_i32 (length c), blk_content_hash = blake3_hex x c, blk_created_at = d_clock d\<rparr>"
  let ?d1 = "d\<lparr>d_draws := Suc (d_draws d), d_clock := Suc (d_clock d), d_blocks := d_blocks d @ [?row]\<rparr>"
  have m: "as_i32 m = int m" using Cons.prems(4) by (intro as_i32_id) simp
  have "\<forall>b \<in> set (d_blocks d). blk_id b \<noteq> d_entropy d (d_draws d)"
    using ids_drawn_fresh [OF Cons.prems(1)] by (metis UnI1 db_ids_def imageI)
  moreover have "\<forall>b \<in> set (d_blocks d). block_key b \<noteq> (t, i, int m)"
    using Cons.prems(3) by (auto simp: own_blocks_def block_key_def)
  ultimately have step: "create_chunk x t i (m, c) d = (Inr (), ?d1)"
    using Cons.prems(2) by (auto simp: create_chunk_def block_create_def m block_key_def bindE_def Let_def)
  have own1: "own_blocks t i ?d1 = own_blocks t i d @ [?row]" by (simp add: own_blocks_def)
  have "ids_drawn ?d1"
    by (rule ids_drawn_step [OF Cons.prems(1)]) (auto simp: db_ids_def)
  moreover have "\<forall>b \<in> set (own_blocks t i ?d1). blk_index b < int (Suc m)"
    using Cons.prems(3) unfolding own1 by auto
  ultimately obtain d' where d': "forE (enumerate (Suc m) cs) (create_chunk x t i) ?d1 = (Inr (), d')"
    "ids_drawn d'" "blocks_frame ?d1 d'"
    "map blk_data (own_blocks t i d') = map blk_data (own_blocks t i ?d1) @ cs"
    "map blk_index (own_blocks t i d') = map blk_index (own_blocks t i ?d1) @ map int [Suc m..<Suc m + length cs]"
    using Cons.IH [of ?d1 "Suc m"] Cons.prems(2,4) by auto
  have "blocks_frame d ?d1" by (simp add: blocks_frame_def)
  from blocks_frame_trans [OF this d'(3)] have "blocks_frame d d'" .
  moreover have "forE (enumerate m (c # cs)) (create_chunk x t i) d = (Inr (), d')"
    by (simp add: bindE_def step d'(1))
  moreover have "map int [m..<m + length (c # cs)] = int m # map int [Suc m..<Suc m + length cs]"
    by (simp add: upt_rec)
  ultimately show ?case using d'(2,4,5) by (simp add: own1)
qed

lemma cow_write_binary_spec:
  assumes wf: "wf_db d" and drawn: "ids_drawn d"
    and inode: "\<exists>r \<in> set (d_inodes d). inode_key r = (cow_tenant_id h, i)"
    and small: "length data < 2 ^ 31"
  shows "\<exists>res d'. cow_write_binary_file x h i data is_new old_size d = (Inr res, d') \<and> wf_db d' \<and> ids_drawn d' \<and>
    blocks_frame d d' \<and> binary_content (cow_tenant_id h) i d' = data"
proof -
  let ?t = "cow_tenant_id h"
  let ?d1 = "d\<lparr>d_blocks := delete_rows (\<lambda>b. blk_tenant_id b = ?t \<and> blk_inode_id b = i) (d_blocks d)\<rparr>"
  have del: "block_delete ?t i d = (Inr (length (own_blocks ?t i d)), ?d1)"
    by (simp add: block_delete_def own_blocks_def)
  have own1: "own_blocks ?t i ?d1 = []" by (simp add: own_blocks_def delete_rows_def filter_empty_conv)
  have drawn1: "ids_drawn ?d1"
    by (rule ids_drawn_step [OF drawn]) (auto simp: db_ids_def)
  have wf1: "wf_db ?d1" using preservesD [OF preserves_wf_block_delete wf, of ?t i] del by simp
  have "0 + length (chunks block_size data) < 2 ^ 31"
    using small length_chunks [of block_size data] by simp
  from create_chunks_spec [OF drawn1 _ _ this, of ?t i x] inode own1
  obtain d' where d': "forE (enumerate 0 (chunks block_size data)) (create_chunk x ?t i) ?d1 = (Inr (), d')"
    "ids_drawn d'" "blocks_frame ?d1 d'" "map blk_data (own_blocks ?t i d') = chunks block_size data"
    "map blk_index (own_blocks ?t i d') = map int [0..<length (chunks block_size data)]"
    by auto
  have "preserves wf_db (create_chunk x ?t i p)" for p
    unfolding create_chunk_def by (cases p) (auto intro!: preserves_rules)
  then have "preserves wf_db (forE (enumerate 0 (chunks block_size data)) (create_chunk x ?t i))"
    by (intro preserves_rules)
  from preservesD [OF this wf1] d'(1) have wf': "wf_db d'" by simp
  have "blocks_frame d ?d1" by (simp add: blocks_frame_def)
  from blocks_frame_trans [OF this d'(3)] have frame: "blocks_frame d d'" .
  have "sorted (map blk_index (own_blocks ?t i d'))"
    unfolding d'(5) by (simp add: sorted_map sorted_wrt_upt sorted_wrt_mono_rel [of _ "(<)"])
  then have "binary_content ?t i d' = data"
    by (simp add: binary_content_def sort_key_id_if_sorted d'(4) concat_chunks block_size_def)
  moreover have "\<exists>res. cow_write_binary_file x h i data is_new old_size d = (Inr res, d')"
    using d'(1) unfolding cow_write_binary_file_def bindE_def create_chunk_def by (simp add: del)
  ultimately show ?thesis using wf' d'(2) frame by blast
qed

end
