(* ===== verification/Fresh.thy ===== *)
theory Fresh
  imports Manager Cow
begin

text \<open>
  Every operation draws the identifiers of the rows it creates from \<open>Uuid::new_v4\<close>, so that in
  a database that grew from the empty one no stored identifier is drawn a second time.
\<close>

definition drawn :: "uuid \<Rightarrow> db \<Rightarrow> bool" where
  "drawn i d \<longleftrightarrow> ids_drawn d \<and> i \<in> d_entropy d ` {..<d_draws d}"

lemma preserves_drawn_new:
  assumes "\<And>i. preserves (drawn i) (K i)"
  shows "preserves ids_drawn (bindE new_v4 K)"
proof (rule preservesI)
  fix d assume d: "ids_drawn d"
  let ?d1 = "d\<lparr>d_draws := Suc (d_draws d)\<rparr>"
  have "ids_drawn ?d1" by (rule ids_drawn_step [OF d]) (auto simp: db_ids_def)
  then have "drawn (d_entropy d (d_draws d)) ?d1" by (simp add: drawn_def)
  from preservesD [OF assms this] show "ids_drawn (snd (bindE new_v4 K d))"
    by (simp add: bindE_def new_v4_def drawn_def)
qed

lemma preserves_shrinkI:
  assumes "\<And>d. d_entropy (snd (m d)) = d_entropy d" and "\<And>d. d_draws (snd (m d)) = d_draws d"
    and "\<And>d. db_ids (snd (m d)) \<subseteq> db_ids d"
  shows "preserves ids_drawn m" "preserves (drawn i) m"
  using assms by (auto intro!: preservesI simp: drawn_def ids_drawn_def) fast+

lemma preserves_insertI:
  assumes "\<And>d. d_entropy (snd (m d)) = d_entropy d" and "\<And>d. d_draws (snd (m d)) = d_draws d"
    and "\<And>d. db_ids (snd (m d)) \<subseteq> insert i (db_ids d)"
  shows "preserves (drawn i) m"
proof (rule preservesI)
  fix d assume "drawn i d"
  then show "drawn i (snd (m d))"
    using assms(3) [of d] by (auto simp: drawn_def ids_drawn_def assms(1,2))
qed

text \<open>Table by table, which keeps the goals small.\<close>

lemma preserves_insert_rowsI:
  assumes "\<And>d. d_entropy (snd (m d)) = d_entropy d" and "\<And>d. d_draws (snd (m d)) = d_draws d"
    and "\<And>d. blk_id ` set (d_blocks (snd (m d))) \<subseteq> insert i (blk_id ` set (d_blocks d))"
    and "\<And>d. tb_id ` set (d_text_blocks (snd (m d))) \<subseteq> insert i (tb_id ` set (d_text_blocks d))"
    and "\<And>d. le_id ` set (d_entries (snd (m d))) \<subseteq> insert i (le_id ` set (d_entries d))"
    and "\<And>d. ly_id ` set (d_layers (snd (m d))) \<subseteq> insert i (ly_id ` set (d_layers d))"
    and "\<And>d. mr_id ` set (d_mounts (snd (m d))) \<subseteq> insert i (mr_id ` set (d_mounts d))"
    and "\<And>d. pr_id ` set (d_published (snd (m d))) \<subseteq> insert i (pr_id ` set (d_published d))"
  shows "preserves (drawn i) m"
proof (rule preserves_insertI)
  show "db_ids (snd (m d)) \<subseteq> insert i (db_ids d)" for d
    unfolding db_ids_def
    by (rule order_trans [OF Un_mono [OF Un_mono [OF Un_mono [OF Un_mono [OF Un_mono
          [OF assms(3) assms(4)] assms(5)] assms(6)] assms(7)] assms(8)]]) simp
qed (rule assms(1,2))+

lemma text_ids_via_shape:
  "map block_shape ls = map block_shape ls' \<Longrightarrow> tb_id ` set ls = tb_id ` set ls'"
  using map_via_block_shape [of ls ls'] by (metis set_map)

lemma layer_ids_via_shape:
  "map layer_shape ls = map layer_shape ls' \<Longrightarrow> ly_id ` set ls = ly_id ` set ls'"
  using map_via_shape [of ls ls'] by (metis set_map)

lemma image_update_rows: "(\<And>x. g (f x) = g x) \<Longrightarrow> g ` set (update_rows P f xs) = g ` set xs"
  unfolding set_map [symmetric] using map_update_rows_same [where P = P and g = g and f = f and t = xs] by simp

lemma drawn_now [preserves_rules]: "preserves ids_drawn now" "preserves (drawn i) now"
  by (rule preserves_shrinkI; simp add: now_def db_ids_def)+

lemma drawn_inode [preserves_rules]:
  "preserves ids_drawn (inode_create ci)" "preserves ids_drawn (inode_update t i u)"
  "preserves ids_drawn (block_delete t i)"
  by (rule preserves_shrinkI; auto simp: inode_create_def inode_update_def block_delete_def
      Let_def bindE_def db_ids_def delete_rows_def now_def split: option.split)+

lemma drawn_block [preserves_rules]: "preserves ids_drawn (block_create x cb)"
  unfolding block_create_def
  by (intro preserves_drawn_new preserves_bindE drawn_now preserves_insert_rowsI) (auto simp: Let_def)

lemma drawn_layer_create [preserves_rules]: "preserves ids_drawn (layer_create inp)"
  unfolding layer_create_def
  by (intro preserves_drawn_new preserves_bindE drawn_now preserves_insert_rowsI) (auto simp: Let_def)

lemma ids_entry_inserted [simp]: "ly_id ` set (entry_inserted e ls) = ly_id ` set ls"
  "ly_id ` set (entry_updated e e' ls) = ly_id ` set ls"
  by (rule layer_ids_via_shape, simp)+

lemma drawn_add_entry [preserves_rules]: "preserves ids_drawn (layer_add_entry inp)"
  unfolding layer_add_entry_def
  by (intro preserves_drawn_new preserves_bindE drawn_now preserves_insert_rowsI)
     (auto simp: Let_def image_update_rows split: option.split)

lemma drawn_layer [preserves_rules]:
  "preserves ids_drawn (layer_set_current_layer t l)"
  "preserves ids_drawn (layer_freeze_working l n descr)"
  "preserves ids_drawn (lm_set_layer_readonly t l b)"
  by (rule preserves_shrinkI; auto simp: layer_set_current_layer_def layer_freeze_working_def
      lm_set_layer_readonly_def bindE_def now_def db_ids_def image_update_rows Let_def split: option.split)+

lemma drawn_text_insert: "tb_id row = i \<Longrightarrow> preserves (drawn i) (text_insert_block row)"
  by (rule preserves_insertI) (auto simp: text_insert_block_def db_ids_def)

lemma drawn_text_create [preserves_rules]: "preserves ids_drawn (text_create_block x inp)"
  unfolding text_create_block_def text_get_block_by_hash_def Let_def
  by (auto intro!: preserves_rules preserves_drawn_new drawn_text_insert split: option.split)

lemma ids_delete_text [simp]:
  "tb_id ` set (d_text_blocks (delete_text_lines P d)) = tb_id ` set (d_text_blocks d)"
  "tb_id ` set (d_text_blocks (delete_text_meta Q d)) = tb_id ` set (d_text_blocks d)"
  by (rule text_ids_via_shape, simp)+

lemma drawn_ref_count [preserves_rules]:
  "preserves ids_drawn (text_increment_ref_count b)" "preserves ids_drawn (text_decrement_ref_count b)"
  by (rule preserves_shrinkI; auto simp: text_increment_ref_count_def text_decrement_ref_count_def db_ids_def
      image_update_rows simp del: find_None_conv split: option.split)+

lemma drawn_delete_text [preserves_rules]:
  "preserves ids_drawn (modify (delete_text_lines P))" "preserves ids_drawn (modify (delete_text_meta Q))"
  by (rule preserves_shrinkI; simp add: db_ids_def)+

lemma preserves_If_fun:
  "preserves P f \<Longrightarrow> preserves P g \<Longrightarrow> preserves P (\<lambda>d. if c d then f d else g d)"
  by (simp add: preserves_def)

lemma drawn_create_metadata [preserves_rules]: "preserves ids_drawn (text_create_metadata m)"
  unfolding text_create_metadata_def
  unfolding Let_def
  by (rule preserves_bindE [OF drawn_now(1)], intro preserves_If_fun; rule preserves_shrinkI)
     (simp_all add: db_ids_def)

lemma create_mappings_cases:
  "snd (text_create_line_mappings t i l ms d) = d \<or>
   (\<exists>rs. text_insert_lines rs d = Inr (snd (text_create_line_mappings t i l ms d)))"
  by (auto simp: text_create_line_mappings_def split: sum.split)

lemma drawn_line_mappings [preserves_rules]: "preserves ids_drawn (text_create_line_mappings t i l ms)"
proof -
  have "d_entropy d' = d_entropy d \<and> d_draws d' = d_draws d \<and> db_ids d' = db_ids d"
    if "text_insert_lines rs d = Inr d'" for rs d d'
  proof -
    note ins = text_insert_lines_InrD [OF that]
    have "tb_id ` set (d_text_blocks d') = tb_id ` set (d_text_blocks d)"
      by (rule text_ids_via_shape) (rule ins(2))
    with ins(3) show ?thesis by (auto simp: db_ids_def)
  qed
  then have "d_entropy (snd (text_create_line_mappings t i l ms d)) = d_entropy d"
    "d_draws (snd (text_create_line_mappings t i l ms d)) = d_draws d"
    "db_ids (snd (text_create_line_mappings t i l ms d)) = db_ids d" for d
    using create_mappings_cases [of t i l ms d] by metis+
  then show ?thesis by (intro preserves_shrinkI(1)) simp_all
qed

lemma ids_delete_entries:
  "ly_id ` set (d_layers (delete_entries P d)) = ly_id ` set (d_layers d)"
  "le_id ` set (d_entries (delete_entries P d)) \<subseteq> le_id ` set (d_entries d)"
  by (rule layer_ids_via_shape, simp) (auto simp: delete_entries_def delete_rows_def)

lemma ids_delete_layer_rows:
  "ly_id ` set (d_layers (delete_layer_rows P d)) \<subseteq> ly_id ` set (d_layers d)"
  "le_id ` set (d_entries (delete_layer_rows P d)) \<subseteq> le_id ` set (d_entries d)"
  "tb_id ` set (d_text_blocks (delete_layer_rows P d)) = tb_id ` set (d_text_blocks d)"
  "mr_id ` set (d_mounts (delete_layer_rows P d)) = mr_id ` set (d_mounts d)"
proof -
  have "ly_id ` set (d_layers (delete_layer_rows P d)) = ly_id ` set (delete_rows P (d_layers d))"
    by (rule layer_ids_via_shape) simp
  then show "ly_id ` set (d_layers (delete_layer_rows P d)) \<subseteq> ly_id ` set (d_layers d)"
    by (auto simp: delete_rows_def)
  show "le_id ` set (d_entries (delete_layer_rows P d)) \<subseteq> le_id ` set (d_entries d)"
    "tb_id ` set (d_text_blocks (delete_layer_rows P d)) = tb_id ` set (d_text_blocks d)"
    by (auto simp: delete_layer_rows_def Let_def delete_entries_def delete_rows_def)
  show "mr_id ` set (d_mounts (delete_layer_rows P d)) = mr_id ` set (d_mounts d)"
    by (simp add: delete_layer_rows_def Let_def image_update_rows)
qed

lemma drawn_delete [preserves_rules]:
  "preserves ids_drawn (inode_delete t i)" "preserves ids_drawn (layer_delete t l)"
proof -
  have i: "db_ids (delete_inode_rows t i d) \<subseteq> db_ids d" for d
    using ids_delete_entries
    by (fastforce simp: delete_inode_rows_def Let_def db_ids_def delete_rows_def)
  have l: "db_ids (delete_layer_rows P d) \<subseteq> db_ids d" for P d
    using ids_delete_layer_rows [of P d] by (auto simp: db_ids_def)
  show "preserves ids_drawn (inode_delete t i)"
    by (rule preserves_shrinkI; simp add: inode_delete_def i) (simp_all add: delete_inode_rows_def Let_def)
  show "preserves ids_drawn (layer_delete t l)"
    by (rule preserves_shrinkI; simp add: layer_delete_def l)
qed

lemma drawn_tenant_create [preserves_rules]: "preserves ids_drawn (tenant_create n)"
  unfolding tenant_create_def
  by (intro preserves_drawn_new preserves_bindE drawn_now preserves_shrinkI(2))
     (auto simp: Let_def db_ids_def)

section \<open>The handlers and the manager\<close>

lemma drawn_cow [preserves_rules]:
  "preserves ids_drawn (cow_write_file x h i data old)" "preserves ids_drawn (cow_delete_text_file h i l)"
  unfolding cow_write_file_def cow_write_text_file_def cow_write_binary_file_def cow_delete_old_text_def Let_def
    store_line_def text_get_block_by_hash_def cow_delete_text_file_def text_get_line_mappings_def
  by (auto intro!: preserves_rules split: file_type_info.split)

lemma drawn_snapshot [preserves_rules]:
  "preserves ids_drawn (layer_create_initial_layers x t m)"
  "preserves ids_drawn (layer_create_snapshot x m name descr)"
  unfolding layer_create_initial_layers_def layer_create_snapshot_def layer_get_working_layer_def
  by (intro preserves_rules)+

lemma drawn_manager [preserves_rules]:
  "preserves ids_drawn (lm_initialize_base_layer t)"
  "preserves ids_drawn (lm_create_checkpoint_with_confirm t name descr c)"
  "preserves ids_drawn (lm_create_checkpoint t name descr)"
  "preserves ids_drawn (lm_switch_to_layer t l)"
  "preserves ids_drawn (lm_delete_layer t l)"
  "preserves ids_drawn (lm_record_change t i p ct sd tc)"
  "preserves ids_drawn (lm_get_current_layer t)"
  "preserves ids_drawn (lm_get_future_layers t l)"
  unfolding lm_initialize_base_layer_def lm_create_checkpoint_with_confirm_def lm_create_checkpoint_def
    lm_switch_to_layer_def lm_delete_layer_def lm_record_change_def lm_checkpoint_from_def lm_push_layer_def
    lm_delete_futures_def lm_get_current_layer_def layer_get_current_layer_def layer_get_def
  by (auto intro!: preserves_rules reads_preserves [OF reads_future] split: option.split)

end
