(* ===== verification/FileSystem.thy ===== *)
theory FileSystem
  imports Paths Fresh
begin

text \<open>
  The file system operations of a tenant: \<open>src/src/fs/operations.rs\<close>.  A \<open>FileSystem\<close> is
  bound to the root inode of the tenant and to the layer that was current when it was
  created; every operation resolves its path from the root through the table of inodes.
\<close>

type_synonym 'a fs_op = "(db, fs_error, 'a) op"

definition db_err :: "'a db_op \<Rightarrow> 'a fs_op" where
  "db_err = map_err (\<lambda>e. Storage (DbError e))"

definition lm_err :: "'a lm_op \<Rightarrow> 'a fs_op" where
  "lm_err = map_err (\<lambda>e. Storage (ManagerError e))"

record file_system =
  fs_tenant_id :: uuid
  fs_root_inode_id :: int
  fs_current_layer_id :: uuid

definition fs_new :: "uuid \<Rightarrow> file_system fs_op" where
  "fs_new t =
     bindE (db_err (tenant_get_by_id t)) (\<lambda>tn.
     bindE (ok_or (PathNotFound ''tenant not found'') tn) (\<lambda>tenant.
     bindE (lm_err (lm_initialize_base_layer t)) (\<lambda>_.
     bindE (lm_err (lm_get_current_layer t)) (\<lambda>current_layer.
       ret \<lparr>fs_tenant_id = t, fs_root_inode_id = tn_root_inode_id tenant,
            fs_current_layer_id = ly_id current_layer\<rparr>))))"

fun walk_components :: "uuid \<Rightarrow> str \<Rightarrow> int \<Rightarrow> str list \<Rightarrow> int fs_op" where
  "walk_components t normalized current [] = ret current"
| "walk_components t normalized current (component # rest) =
     bindE (db_err (inode_get_by_parent_and_name t current component)) (\<lambda>found.
     bindE (ok_or (PathNotFound normalized) found) (\<lambda>inode.
       walk_components t normalized (ino_id inode) rest))"

definition fs_resolve_path :: "file_system \<Rightarrow> str \<Rightarrow> inode fs_op" where
  "fs_resolve_path fs path =
     bindE (lift_res (normalize_path path)) (\<lambda>normalized.
       if normalized = ''/'' then
         bindE (db_err (inode_get (fs_tenant_id fs) (fs_root_inode_id fs))) (\<lambda>found.
           ok_or (PathNotFound ''/'') found)
       else
         bindE (lift_res (path_components normalized)) (\<lambda>components.
         bindE (walk_components (fs_tenant_id fs) normalized (fs_root_inode_id fs) components) (\<lambda>i.
         bindE (db_err (inode_get (fs_tenant_id fs) i)) (\<lambda>found.
           ok_or (PathNotFound normalized) found))))"

text \<open>\<open>create_directory\<close> and \<open>create_file\<close>, which differ in the type and the mode (octal 755 and 644).\<close>

definition fs_create_node :: "inode_type \<Rightarrow> int \<Rightarrow> file_system \<Rightarrow> str \<Rightarrow> inode fs_op" where
  "fs_create_node ty mode fs path =
     bindE (lift_res (split_path path)) (\<lambda>(parent_path, name).
     bindE (fs_resolve_path fs parent_path) (\<lambda>parent.
       if ino_type parent \<noteq> Dir then raise (NotDirectory parent_path)
       else
         bindE (db_err (inode_get_by_parent_and_name (fs_tenant_id fs) (ino_id parent) name)) (\<lambda>existing.
           if existing \<noteq> None then raise (AlreadyExists path)
           else db_err (inode_create
                  \<lparr>ci_tenant_id = fs_tenant_id fs, ci_parent_id = Some (ino_id parent), ci_name = name,
                   ci_type = ty, ci_mode = mode, ci_uid = 0, ci_gid = 0\<rparr>))))"

definition fs_create_directory :: "file_system \<Rightarrow> str \<Rightarrow> inode fs_op" where
  "fs_create_directory = fs_create_node Dir 493"

definition fs_create_file :: "file_system \<Rightarrow> str \<Rightarrow> inode fs_op" where
  "fs_create_file = fs_create_node File 420"

definition fs_list_directory :: "ext \<Rightarrow> file_system \<Rightarrow> str \<Rightarrow> inode list fs_op" where
  "fs_list_directory x fs path =
     bindE (fs_resolve_path fs path) (\<lambda>dir_inode.
       if ino_type dir_inode \<noteq> Dir then raise (NotDirectory path)
       else db_err (inode_list_children x (fs_tenant_id fs) (ino_id dir_inode)))"

definition fs_remove_directory :: "ext \<Rightarrow> file_system \<Rightarrow> str \<Rightarrow> unit fs_op" where
  "fs_remove_directory x fs path =
     bindE (fs_resolve_path fs path) (\<lambda>dir_inode.
       if ino_type dir_inode \<noteq> Dir then raise (NotDirectory path)
       else
         bindE (db_err (inode_list_children x (fs_tenant_id fs) (ino_id dir_inode))) (\<lambda>children.
           if children \<noteq> [] then raise (DirectoryNotEmpty path)
           else bindE (db_err (inode_delete (fs_tenant_id fs) (ino_id dir_inode))) (\<lambda>_. ret ())))"

text \<open>
  Reading: the text of the current layer when there is one, otherwise the data blocks.  An
  error of the text read falls through to the blocks.
\<close>

definition fs_read_file_internal :: "file_system \<Rightarrow> int \<Rightarrow> bytes fs_op" where
  "fs_read_file_internal fs i =
     bindE (okE (cow_read_text_file (cow_new (fs_tenant_id fs) (fs_current_layer_id fs)) i
              (fs_current_layer_id fs))) (\<lambda>r.
       case r of
         Some (Some content) \<Rightarrow> ret content
       | _ \<Rightarrow> bindE (db_err (block_list (fs_tenant_id fs) i)) (\<lambda>blocks.
                ret (concat (map blk_data blocks))))"

definition fs_read_file :: "file_system \<Rightarrow> str \<Rightarrow> bytes fs_op" where
  "fs_read_file fs path =
     bindE (fs_resolve_path fs path) (\<lambda>inode.
       if ino_type inode \<noteq> File then raise (IsDirectory path)
       else fs_read_file_internal fs (ino_id inode))"

definition no_update :: update_inode_input where
  "no_update = \<lparr>ui_size = None, ui_mode = None, ui_uid = None, ui_gid = None,
     ui_atime = None, ui_mtime = None, ui_ctime = None\<rparr>"

definition fs_write_file :: "ext \<Rightarrow> file_system \<Rightarrow> str \<Rightarrow> bytes \<Rightarrow> unit fs_op" where
  "fs_write_file x fs path data =
     bindE (fs_resolve_path fs path) (\<lambda>inode.
       if ino_type inode \<noteq> File then raise (IsDirectory path)
       else
         bindE (okE (fs_read_file_internal fs (ino_id inode))) (\<lambda>old_data.
         bindE (db_err (cow_write_file x (cow_new (fs_tenant_id fs) (fs_current_layer_id fs)) (ino_id inode) data
                  (case old_data of None \<Rightarrow> None | Some d \<Rightarrow> if d = [] then None else Some d))) (\<lambda>result.
         bindE (lm_err (lm_record_change (fs_tenant_id fs) (ino_id inode) path (cr_change_type result)
                  (Some (cr_size_delta result)) (map_option text_changes_to_json (cr_text_changes result)))) (\<lambda>_.
         bindE now (\<lambda>t.
         bindE (db_err (inode_update (fs_tenant_id fs) (ino_id inode)
                  (no_update\<lparr>ui_size := Some (as_i64 (length data)), ui_mtime := Some t\<rparr>))) (\<lambda>_.
           ret ()))))))"

definition fs_delete_file :: "file_system \<Rightarrow> str \<Rightarrow> unit fs_op" where
  "fs_delete_file fs path =
     bindE (fs_resolve_path fs path) (\<lambda>inode.
       if ino_type inode = Dir then raise (IsDirectory path)
       else
         bindE (db_err (block_delete (fs_tenant_id fs) (ino_id inode))) (\<lambda>_.
         bindE (db_err (inode_delete (fs_tenant_id fs) (ino_id inode))) (\<lambda>_.
           ret ())))"

definition fs_stat :: "file_system \<Rightarrow> str \<Rightarrow> inode fs_op" where
  "fs_stat fs path = fs_resolve_path fs path"

definition fs_chmod :: "file_system \<Rightarrow> str \<Rightarrow> int \<Rightarrow> unit fs_op" where
  "fs_chmod fs path mode =
     bindE (fs_resolve_path fs path) (\<lambda>inode.
     bindE now (\<lambda>t.
     bindE (db_err (inode_update (fs_tenant_id fs) (ino_id inode)
              (no_update\<lparr>ui_mode := Some mode, ui_ctime := Some t\<rparr>))) (\<lambda>_.
       ret ())))"

definition fs_chown :: "file_system \<Rightarrow> str \<Rightarrow> int \<Rightarrow> int \<Rightarrow> unit fs_op" where
  "fs_chown fs path uid gid =
     bindE (fs_resolve_path fs path) (\<lambda>inode.
     bindE now (\<lambda>t.
     bindE (db_err (inode_update (fs_tenant_id fs) (ino_id inode)
              (no_update\<lparr>ui_uid := Some uid, ui_gid := Some gid, ui_ctime := Some t\<rparr>))) (\<lambda>_.
       ret ())))"

section \<open>The tree a file system denotes\<close>

text \<open>
  The abstract view: a partial map from component lists to inodes.  Every operation on
  paths is a read or an update of this map.
\<close>

fun walk :: "inode list \<Rightarrow> uuid \<Rightarrow> int \<Rightarrow> str list \<Rightarrow> int option" where
  "walk is t i [] = Some i"
| "walk is t i (c # cs) =
     (case find (\<lambda>r. ino_tenant_id r = t \<and> ino_parent_id r = Some i \<and> ino_name r = c) is of
        None \<Rightarrow> None
      | Some r \<Rightarrow> walk is t (ino_id r) cs)"

definition tree :: "file_system \<Rightarrow> db \<Rightarrow> str list \<Rightarrow> inode option" where
  "tree fs d cs =
     (case walk (d_inodes d) (fs_tenant_id fs) (fs_root_inode_id fs) cs of
        None \<Rightarrow> None
      | Some i \<Rightarrow> find (\<lambda>r. ino_tenant_id r = fs_tenant_id fs \<and> ino_id r = i) (d_inodes d))"

lemma db_err_apply:
  "db_err m d = (case m d of (Inl e, d') \<Rightarrow> (Inl (Storage (DbError e)), d') | (Inr a, d') \<Rightarrow> (Inr a, d'))"
  by (simp add: db_err_def map_err_def)

lemma lm_err_apply:
  "lm_err m d = (case m d of (Inl e, d') \<Rightarrow> (Inl (Storage (ManagerError e)), d') | (Inr a, d') \<Rightarrow> (Inr a, d'))"
  by (simp add: lm_err_def map_err_def)

lemma preserves_db_err [preserves_rules]: "preserves P m \<Longrightarrow> preserves P (db_err m)"
  by (simp add: db_err_def preserves_map_err)

lemma preserves_lm_err [preserves_rules]: "preserves P m \<Longrightarrow> preserves P (lm_err m)"
  by (simp add: lm_err_def preserves_map_err)

lemma db_err_gets [simp]: "db_err (gets f) = gets f"
  by (simp add: db_err_def)

lemma walk_components_eq:
  "walk_components t q i cs d =
     (case walk (d_inodes d) t i cs of None \<Rightarrow> (Inl (PathNotFound q), d) | Some j \<Rightarrow> (Inr j, d))"
  by (induction cs arbitrary: i)
     (auto simp: inode_get_by_parent_and_name_def simp del: find_None_conv split: option.split)

lemma fs_resolve_path_eq:
  "fs_resolve_path fs path d =
     (case normalize_path path of
        Inl e \<Rightarrow> (Inl e, d)
      | Inr q \<Rightarrow> (case tree fs d (path_parts path) of
          None \<Rightarrow> (Inl (PathNotFound q), d)
        | Some r \<Rightarrow> (Inr r, d)))"
proof (cases "normalize_path path")
  case (Inl e)
  then show ?thesis by (simp add: fs_resolve_path_def bindE_def)
next
  case (Inr q)
  note n = normalize_path_InrD [OF Inr]
  show ?thesis
  proof (cases "path_parts path = []")
    case True
    with n Inr show ?thesis
      by (auto simp: fs_resolve_path_def bindE_def inode_get_def tree_def simp del: find_None_conv split: option.split)
  next
    case False
    with n have "q \<noteq> ''/''" by (auto simp: spell_eq_root dest: good_parts_clean)
    moreover have "path_components q = Inr (path_parts path)" using n by (simp add: path_components_spell)
    ultimately show ?thesis using Inr
      by (auto simp: fs_resolve_path_def bindE_def inode_get_def tree_def walk_components_eq simp del: find_None_conv
          split: option.split)
  qed
qed

section \<open>Paths in the tree are unique\<close>

definition fs_ok :: "file_system \<Rightarrow> db \<Rightarrow> bool" where
  "fs_ok fs d \<longleftrightarrow> wf_db d \<and>
     (\<exists>r \<in> set (d_tenants d). tn_id r = fs_tenant_id fs \<and> tn_root_inode_id r = fs_root_inode_id fs)"

lemma fs_ok_wf: "fs_ok fs d \<Longrightarrow> wf_db d"
  by (simp add: fs_ok_def)

lemma walk_append:
  "walk is t i (cs @ ds) = (case walk is t i cs of None \<Rightarrow> None | Some j \<Rightarrow> walk is t j ds)"
  by (induction cs arbitrary: i) (auto simp del: find_None_conv split: option.split)

lemma walk_snocD:
  assumes "walk is t i (cs @ [c]) = Some k"
  shows "\<exists>j r. walk is t i cs = Some j \<and> r \<in> set is \<and> ino_tenant_id r = t \<and> ino_parent_id r = Some j \<and>
    ino_name r = c \<and> ino_id r = k"
  using assms by (auto simp: walk_append simp del: find_None_conv split: option.splits dest: find_SomeD)

lemma root_no_parent:
  assumes "fs_ok fs d" "r \<in> set (d_inodes d)" "ino_tenant_id r = fs_tenant_id fs" "ino_id r = fs_root_inode_id fs"
  shows "ino_parent_id r = None"
  using assms by (auto simp: fs_ok_def wf_db_def wf_inodes_def inode_key_def)

lemma unique_inode:
  "wf_db d \<Longrightarrow> r \<in> set (d_inodes d) \<Longrightarrow> r' \<in> set (d_inodes d) \<Longrightarrow> ino_tenant_id r = ino_tenant_id r' \<Longrightarrow>
   ino_id r = ino_id r' \<Longrightarrow> r = r'"
  using inode_tbl.lookup_unique [of d r r'] by (simp add: inode_key_def)

lemma walk_inj:
  assumes ok: "fs_ok fs d"
    and "walk (d_inodes d) (fs_tenant_id fs) (fs_root_inode_id fs) cs = Some i"
    and "walk (d_inodes d) (fs_tenant_id fs) (fs_root_inode_id fs) ds = Some i"
  shows "cs = ds"
  using assms(2,3)
proof (induction cs arbitrary: ds i rule: rev_induct)
  case Nil
  show ?case
  proof (cases ds rule: rev_cases)
    case (snoc es e)
    with Nil obtain r j where "r \<in> set (d_inodes d)" "ino_tenant_id r = fs_tenant_id fs"
      "ino_id r = fs_root_inode_id fs" "ino_parent_id r = Some j"
      by (auto dest: walk_snocD)
    with root_no_parent [OF ok] show ?thesis by fastforce
  qed simp
next
  case (snoc c cs)
  from walk_snocD [OF snoc.prems(1)] obtain j r where r: "walk (d_inodes d) (fs_tenant_id fs) (fs_root_inode_id fs) cs = Some j"
    "r \<in> set (d_inodes d)" "ino_tenant_id r = fs_tenant_id fs" "ino_parent_id r = Some j" "ino_name r = c" "ino_id r = i"
    by blast
  show ?case
  proof (cases ds rule: rev_cases)
    case Nil
    with snoc.prems(2) have "i = fs_root_inode_id fs" by simp
    with root_no_parent [OF ok] r show ?thesis by fastforce
  next
    case (snoc es e)
    from walk_snocD [of "d_inodes d" "fs_tenant_id fs" "fs_root_inode_id fs" es e i] snoc.prems snoc
      \<open>walk _ _ _ ds = Some i\<close>
    obtain k q where q: "walk (d_inodes d) (fs_tenant_id fs) (fs_root_inode_id fs) es = Some k"
      "q \<in> set (d_inodes d)" "ino_tenant_id q = fs_tenant_id fs" "ino_parent_id q = Some k" "ino_name q = e" "ino_id q = i"
      by blast
    have "q = r" using unique_inode [OF fs_ok_wf [OF ok] q(2) r(2)] q r by simp
    with q r snoc.IH [OF r(1), of es] snoc show ?thesis by simp
  qed
qed

lemma tree_SomeD:
  assumes "tree fs d cs = Some r"
  shows "walk (d_inodes d) (fs_tenant_id fs) (fs_root_inode_id fs) cs = Some (ino_id r)"
    and "r \<in> set (d_inodes d)" and "ino_tenant_id r = fs_tenant_id fs"
  using assms by (auto simp: tree_def simp del: find_None_conv split: option.splits dest!: find_SomeD)

lemma tree_cong:
  assumes "d_inodes d' = d_inodes d"
  shows "tree fs d' = tree fs d"
  unfolding fun_eq_iff tree_def assms by simp

lemma tree_inj: "fs_ok fs d \<Longrightarrow> tree fs d cs = Some r \<Longrightarrow> tree fs d ds = Some r' \<Longrightarrow> ino_id r = ino_id r' \<Longrightarrow> cs = ds"
  using walk_inj tree_SomeD(1) by metis

lemma tree_of_walk:
  assumes "wf_db d" "walk (d_inodes d) (fs_tenant_id fs) (fs_root_inode_id fs) cs = Some (ino_id r)"
    and "r \<in> set (d_inodes d)" "ino_tenant_id r = fs_tenant_id fs"
  shows "tree fs d cs = Some r"
  using inode_tbl.lookup_by [OF assms(1,3), of "\<lambda>q. ino_tenant_id q = fs_tenant_id fs \<and> ino_id q = ino_id r"] assms
  by (simp add: tree_def inode_key_def)

lemma tree_child:
  assumes "tree fs d cs = Some p"
  shows "tree fs d (cs @ [n]) \<noteq> None \<longleftrightarrow>
    find (\<lambda>r. ino_tenant_id r = fs_tenant_id fs \<and> ino_parent_id r = Some (ino_id p) \<and> ino_name r = n) (d_inodes d) \<noteq> None"
proof -
  have "walk (d_inodes d) (fs_tenant_id fs) (fs_root_inode_id fs) (cs @ [n]) =
    (case find (\<lambda>r. ino_tenant_id r = fs_tenant_id fs \<and> ino_parent_id r = Some (ino_id p) \<and> ino_name r = n) (d_inodes d) of
       None \<Rightarrow> None | Some r \<Rightarrow> Some (ino_id r))"
    by (simp add: walk_append tree_SomeD(1) [OF assms] del: find_None_conv split: option.split)
  moreover have "find (\<lambda>r. ino_tenant_id r = fs_tenant_id fs \<and> ino_id r = ino_id q) (d_inodes d) \<noteq> None"
    if "find (\<lambda>r. ino_tenant_id r = fs_tenant_id fs \<and> ino_parent_id r = Some (ino_id p) \<and> ino_name r = n) (d_inodes d) = Some q" for q
    using find_SomeD [OF that] by auto
  ultimately show ?thesis by (simp add: tree_def del: find_None_conv split: option.split)
qed

section \<open>Adding a node\<close>

lemma walk_snoc_row:
  assumes "ino_parent_id row = Some p" "ino_tenant_id row = t" "p \<noteq> ino_id row"
    and "\<forall>r \<in> set is. ino_parent_id r \<noteq> Some (ino_id row)"
    and "\<forall>r \<in> set is. \<not> (ino_tenant_id r = t \<and> ino_parent_id r = Some p \<and> ino_name r = ino_name row)"
  shows "walk (is @ [row]) t i cs =
    (case walk is t i cs of
       Some j \<Rightarrow> Some j
     | None \<Rightarrow> if \<exists>ds. cs = ds @ [ino_name row] \<and> walk is t i ds = Some p then Some (ino_id row) else None)"
proof (induction cs arbitrary: i)
  case (Cons c cs)
  let ?P = "\<lambda>r. ino_tenant_id r = t \<and> ino_parent_id r = Some i \<and> ino_name r = c"
  have f: "find ?P (is @ [row]) = (case find ?P is of Some r \<Rightarrow> Some r
      | None \<Rightarrow> if i = p \<and> c = ino_name row then Some row else None)"
    using assms(1,2) by (auto simp: find_append simp del: find_None_conv split: option.split)
  have split: "(\<exists>ds. c # cs = ds @ [ino_name row] \<and> walk is t i ds = Some p) \<longleftrightarrow>
      (cs = [] \<and> c = ino_name row \<and> i = p) \<or>
      (\<exists>ds. cs = ds @ [ino_name row] \<and> walk is t i (c # ds) = Some p)"
    by (auto simp: Cons_eq_append_conv simp del: walk.simps(2))
  show ?case
  proof (cases "find ?P is")
    case (Some r)
    then have "\<not> (c = ino_name row \<and> i = p)" using assms(5) by (auto dest: find_SomeD)
    with Some Cons.IH [of "ino_id r"] show ?thesis
      unfolding split by (simp add: f del: find_None_conv split: option.split)
  next
    case None
    show ?thesis
    proof (cases "i = p \<and> c = ino_name row")
      case True
      have leaf: "walk (is @ [row]) t (ino_id row) cs = (if cs = [] then Some (ino_id row) else None)"
      proof (cases cs)
        case (Cons e es)
        have "find (\<lambda>r. ino_tenant_id r = t \<and> ino_parent_id r = Some (ino_id row) \<and> ino_name r = e) (is @ [row]) = None"
          using assms(1,3,4) by auto
        with Cons show ?thesis by (simp del: find_None_conv)
      qed simp
      have "find ?P (is @ [row]) = Some row" unfolding f None using True by simp
      with None True leaf show ?thesis
        unfolding split by (simp del: find_None_conv)
    next
      case False
      with None show ?thesis unfolding split by (auto simp: f simp del: find_None_conv)
    qed
  qed
qed simp

lemma tree_snoc_row:
  assumes ok: "fs_ok fs d" and parent: "tree fs d ds = Some par"
    and row: "ino_parent_id row = Some (ino_id par)" "ino_tenant_id row = fs_tenant_id fs"
      "ino_id row = d_inode_seq d"
    and fresh: "tree fs d (ds @ [ino_name row]) = None"
    and d': "d_inodes d' = d_inodes d @ [row]"
  shows "tree fs d' = (tree fs d)(ds @ [ino_name row] \<mapsto> row)"
proof
  fix cs
  let ?t = "fs_tenant_id fs" and ?i = "fs_root_inode_id fs"
  have seq: "\<forall>r \<in> set (d_inodes d). ino_id r < d_inode_seq d \<and> (\<forall>p. ino_parent_id r = Some p \<longrightarrow> p < d_inode_seq d)"
    using fs_ok_wf [OF ok] by (simp add: wf_db_def wf_inodes_def)
  note par = tree_SomeD [OF parent]
  have "\<forall>r \<in> set (d_inodes d). \<not> (ino_tenant_id r = ?t \<and> ino_parent_id r = Some (ino_id par) \<and> ino_name r = ino_name row)"
    using tree_child [OF parent, of "ino_name row"] fresh by auto
  moreover have "ino_id par \<noteq> ino_id row" using seq par(2) unfolding row(3) by (metis less_irrefl)
  moreover have "\<forall>r \<in> set (d_inodes d). ino_parent_id r \<noteq> Some (ino_id row)"
    using seq unfolding row(3) by (metis less_irrefl)
  ultimately have w: "walk (d_inodes d') ?t ?i cs =
    (case walk (d_inodes d) ?t ?i cs of
       Some j \<Rightarrow> Some j
     | None \<Rightarrow> if \<exists>es. cs = es @ [ino_name row] \<and> walk (d_inodes d) ?t ?i es = Some (ino_id par)
               then Some (ino_id row) else None)" for cs
    unfolding d' using walk_snoc_row [OF row(1,2), of "d_inodes d" ?i cs] by simp
  have here: "(\<exists>es. cs = es @ [ino_name row] \<and> walk (d_inodes d) ?t ?i es = Some (ino_id par)) \<longleftrightarrow>
      cs = ds @ [ino_name row]"
  proof -
    have "walk (d_inodes d) ?t ?i es = Some (ino_id par) \<longleftrightarrow> es = ds" for es
      using walk_inj [OF ok _ par(1), of es] par(1) by blast
    then show ?thesis by simp
  qed
  have idrow: "find (\<lambda>r. ino_tenant_id r = ?t \<and> ino_id r = ino_id row) (d_inodes d') = Some row"
  proof -
    have "\<forall>r \<in> set (d_inodes d). ino_id r \<noteq> ino_id row"
      using seq unfolding row(3) by (metis less_irrefl)
    then have "find (\<lambda>r. ino_tenant_id r = ?t \<and> ino_id r = ino_id row) (d_inodes d) = None"
      by simp
    then show ?thesis using row(2) by (simp add: d' find_append del: find_None_conv)
  qed
  have same: "find (\<lambda>r. ino_tenant_id r = ?t \<and> ino_id r = j) (d_inodes d') =
      find (\<lambda>r. ino_tenant_id r = ?t \<and> ino_id r = j) (d_inodes d)" if "j \<noteq> ino_id row" for j
    using that by (simp add: d' find_append del: find_None_conv split: option.split)
  have below: "j \<noteq> ino_id row" if "walk (d_inodes d) ?t ?i cs = Some j" for j
  proof (cases cs rule: rev_cases)
    case Nil
    have "?i < d_inode_seq d" using ok by (auto simp: fs_ok_def wf_db_def wf_inodes_def)
    with Nil that row(3) show ?thesis by simp
  next
    case (snoc es e)
    with that obtain r where "r \<in> set (d_inodes d)" "ino_id r = j" by (auto dest: walk_snocD)
    with seq show ?thesis unfolding row(3) by (metis less_irrefl)
  qed
  show "tree fs d' cs = ((tree fs d)(ds @ [ino_name row] \<mapsto> row)) cs"
  proof (cases "cs = ds @ [ino_name row]")
    case True
    have "walk (d_inodes d) ?t ?i cs = None"
    proof (rule ccontr)
      assume "walk (d_inodes d) ?t ?i cs \<noteq> None"
      then obtain k where "walk (d_inodes d) ?t ?i (ds @ [ino_name row]) = Some k" using True by auto
      from walk_snocD [OF this] obtain r where "r \<in> set (d_inodes d)" "ino_tenant_id r = ?t" "ino_id r = k" by blast
      with \<open>walk _ _ _ (ds @ _) = Some k\<close> have "tree fs d (ds @ [ino_name row]) = Some r"
        using tree_of_walk [OF fs_ok_wf [OF ok]] by simp
      with fresh show False by simp
    qed
    with True w [of cs] here idrow show ?thesis by (simp add: tree_def)
  next
    case False
    then have "walk (d_inodes d') ?t ?i cs = walk (d_inodes d) ?t ?i cs"
      using w [of cs] here by (simp split: option.split)
    with False same below show ?thesis
      by (simp add: tree_def del: find_None_conv split: option.split)
  qed
qed

lemma split_path_parts:
  assumes "split_path path = Inr (pp, n)"
  shows "path_parts path = path_parts pp @ [n]" "normalize_path pp = Inr pp" "good_part n"
proof -
  from split_path_roundtrip_aux [OF assms] obtain cs where cs: "path_components pp = Inr cs" "normalize_path pp = Inr pp"
    "path_components path = Inr (cs @ [n])" "good_part n" by blast
  have "path_parts pp = cs" "path_parts path = cs @ [n]"
    using cs(1,3) by (auto simp: path_components_eq split: sum.splits)
  with cs show "path_parts path = path_parts pp @ [n]" "normalize_path pp = Inr pp" "good_part n" by simp_all
qed

lemma inode_create_succeeds:
  assumes "fs_ok fs d" "par \<in> set (d_inodes d)" "ino_tenant_id par = fs_tenant_id fs" "good_part n"
    and "find (\<lambda>r. ino_tenant_id r = fs_tenant_id fs \<and> ino_parent_id r = Some (ino_id par) \<and> ino_name r = n) (d_inodes d) = None"
  shows "\<exists>row d'. inode_create \<lparr>ci_tenant_id = fs_tenant_id fs, ci_parent_id = Some (ino_id par), ci_name = n,
     ci_type = ty, ci_mode = mode, ci_uid = 0, ci_gid = 0\<rparr> d = (Inr row, d')"
proof -
  have wf: "wf_db d" using assms(1) by (rule fs_ok_wf)
  have "varchar 255 n" using assms(4) by (intro varchar_short) (simp add: good_part_def MAX_FILENAME_LENGTH_def)
  moreover have "\<forall>r \<in> set (d_inodes d). inode_key r \<noteq> (fs_tenant_id fs, d_inode_seq d)"
    using wf by (auto simp: wf_db_def wf_inodes_def inode_key_def)
  moreover have "\<exists>r \<in> set (d_tenants d). tn_id r = fs_tenant_id fs" using assms(1) by (auto simp: fs_ok_def)
  moreover have "\<exists>r \<in> set (d_inodes d). inode_key r = (fs_tenant_id fs, ino_id par)"
    using assms(2,3) by (auto simp: inode_key_def)
  moreover have "\<forall>r \<in> set (d_inodes d). the (ino_parent_id r) = ino_id par \<longrightarrow>
      ino_tenant_id r = fs_tenant_id fs \<longrightarrow> ino_parent_id r = None \<or> ino_name r \<noteq> n"
    using assms(5) by auto
  ultimately show ?thesis by (simp add: inode_create_def Let_def inode_key_def sibling_key_def)
qed

lemma fs_create_node_ok:
  assumes ok: "fs_ok fs d" and split: "split_path path = Inr (pp, n)"
    and parent: "tree fs d (path_parts pp) = Some par" and dir: "ino_type par = Dir"
    and free: "tree fs d (path_parts path) = None"
  shows "\<exists>row d'. fs_create_node ty mode fs path d = (Inr row, d') \<and>
    tree fs d' = (tree fs d)(path_parts path \<mapsto> row) \<and>
    ino_type row = ty \<and> ino_mode row = mode \<and> ino_size row = 0 \<and> ino_name row = n \<and>
    ino_parent_id row = Some (ino_id par)"
proof -
  note sp = split_path_parts [OF split]
  note par = tree_SomeD [OF parent]
  let ?inp = "\<lparr>ci_tenant_id = fs_tenant_id fs, ci_parent_id = Some (ino_id par), ci_name = n,
     ci_type = ty, ci_mode = mode, ci_uid = 0, ci_gid = 0\<rparr>"
  have none: "find (\<lambda>r. ino_tenant_id r = fs_tenant_id fs \<and> ino_parent_id r = Some (ino_id par) \<and> ino_name r = n) (d_inodes d) = None"
    using tree_child [OF parent, of n] free sp(1) by simp
  obtain row d' where c: "inode_create ?inp d = (Inr row, d')"
    using inode_create_succeeds [OF ok par(2,3) sp(3) none] by blast
  note new = inode_create_InrD [OF c]
  have "fs_resolve_path fs pp d = (Inr par, d)" by (simp add: fs_resolve_path_eq sp(2) parent)
  then have run: "fs_create_node ty mode fs path d = (Inr row, d')"
    using c none dir
    by (simp add: fs_create_node_def split bindE_def inode_get_by_parent_and_name_def db_err_apply
        del: find_None_conv)
  have "tree fs d (path_parts pp @ [ino_name row]) = None" using free sp(1) by (simp add: new(1))
  from tree_snoc_row [OF ok parent _ _ _ this, of d']
  have "tree fs d' = (tree fs d)(path_parts path \<mapsto> row)"
    by (simp add: new(2) sp(1)) (simp add: new(1))
  with run show ?thesis by (simp add: new(1))
qed

text \<open>
  C34.  What \<open>create_file\<close> answers, in every case, in terms of the tree of paths: the parent
  does not exist, is not a directory, the name is taken, or a new empty file is returned and
  the tree is extended by exactly that path.
\<close>

theorem create_file_outcome:
  assumes "fs_ok fs d" and "split_path path = Inr (parent_path, name)"
  shows "case tree fs d (path_parts parent_path) of
      None \<Rightarrow> fs_create_file fs path d = (Inl (PathNotFound parent_path), d)
    | Some parent \<Rightarrow>
        if ino_type parent \<noteq> Dir then fs_create_file fs path d = (Inl (NotDirectory parent_path), d)
        else if tree fs d (path_parts path) \<noteq> None then fs_create_file fs path d = (Inl (AlreadyExists path), d)
        else (\<exists>row d'. fs_create_file fs path d = (Inr row, d') \<and>
          tree fs d' = (tree fs d)(path_parts path \<mapsto> row) \<and>
          ino_type row = File \<and> ino_mode row = 420 \<and> ino_size row = 0 \<and> ino_name row = name \<and>
          ino_parent_id row = Some (ino_id parent))"
proof (cases "tree fs d (path_parts parent_path)")
  case None
  then have "fs_resolve_path fs parent_path d = (Inl (PathNotFound parent_path), d)"
    by (simp add: fs_resolve_path_eq split_path_parts(2) [OF assms(2)])
  then have "fs_create_file fs path d = (Inl (PathNotFound parent_path), d)"
    by (simp add: fs_create_file_def fs_create_node_def assms(2) bindE_def)
  with None show ?thesis by simp
next
  case (Some par)
  have res: "fs_resolve_path fs parent_path d = (Inr par, d)"
    by (simp add: fs_resolve_path_eq split_path_parts(2) [OF assms(2)] Some)
  show ?thesis
  proof (cases "ino_type par = Dir")
    case False
    then have "fs_create_file fs path d = (Inl (NotDirectory parent_path), d)"
      using res by (simp add: fs_create_file_def fs_create_node_def assms(2) bindE_def)
    with Some False show ?thesis by simp
  next
    case True
    show ?thesis
    proof (cases "tree fs d (path_parts path) = None")
      case False
      then have "find (\<lambda>r. ino_tenant_id r = fs_tenant_id fs \<and> ino_parent_id r = Some (ino_id par) \<and> ino_name r = name) (d_inodes d) \<noteq> None"
        using tree_child [OF Some, of name] split_path_parts(1) [OF assms(2)] by simp
      then have "fs_create_file fs path d = (Inl (AlreadyExists path), d)"
        using res True by (simp add: fs_create_file_def fs_create_node_def assms(2) bindE_def
            inode_get_by_parent_and_name_def del: find_None_conv)
      with Some True False show ?thesis by simp
    next
      case free: True
      from fs_create_node_ok [OF assms Some True free, of File 420] Some True free show ?thesis
        by (simp add: fs_create_file_def)
    qed
  qed
qed

section \<open>Removing a node\<close>

lemma sibling_find:
  assumes "wf_db d" "r \<in> set (d_inodes d)" "ino_tenant_id r = t" "ino_parent_id r = Some p" "ino_name r = n"
  shows "find (\<lambda>r. ino_tenant_id r = t \<and> ino_parent_id r = Some p \<and> ino_name r = n) (d_inodes d) = Some r"
  using inode_by_name_iff [OF assms(1), of t p n r] assms(2-5)
  by (simp add: inode_get_by_parent_and_name_def)

lemma subtree_start: "set ids \<subseteq> set (subtree_ids n is t ids)"
  by (cases n) (auto simp: Let_def)

lemma subtree_reach:
  assumes "wf_db d" "k \<in> set (subtree_ids n (d_inodes d) t ids)"
  shows "\<exists>i \<in> set ids. \<exists>es. walk (d_inodes d) t i es = Some k"
  using assms(2)
proof (induction n arbitrary: ids)
  case 0
  then have "k \<in> set ids" by simp
  moreover have "walk (d_inodes d) t k [] = Some k" by simp
  ultimately show ?case by blast
next
  case (Suc n)
  let ?kids = "map ino_id (filter (\<lambda>i. ino_tenant_id i = t \<and>
     (case ino_parent_id i of None \<Rightarrow> False | Some p \<Rightarrow> p \<in> set ids)) (d_inodes d))"
  show ?case
  proof (cases "k \<in> set ids")
    case True
    moreover have "walk (d_inodes d) t k [] = Some k" by simp
    ultimately show ?thesis by blast
  next
    case False
    with Suc.prems have "k \<in> set (subtree_ids n (d_inodes d) t ?kids)"
      by (auto simp: Let_def split: if_splits)
    from Suc.IH [OF this] obtain i es where i: "i \<in> set ?kids" "walk (d_inodes d) t i es = Some k" by blast
    then obtain r p where r: "r \<in> set (d_inodes d)" "ino_tenant_id r = t" "ino_parent_id r = Some p"
      "p \<in> set ids" "ino_id r = i" by (auto split: option.splits)
    have "walk (d_inodes d) t p (ino_name r # es) = Some k"
      using sibling_find [OF assms(1) r(1-3) refl] r(5) i(2) by simp
    with r(4) show ?thesis by blast
  qed
qed

lemma find_kept:
  assumes "\<And>r r'. r \<in> set xs \<Longrightarrow> r' \<in> set xs \<Longrightarrow> P r \<Longrightarrow> P r' \<Longrightarrow> r = r'"
  shows "find P (delete_rows Q xs) = (case find P xs of None \<Rightarrow> None | Some r \<Rightarrow> if Q r then None else Some r)"
  using assms
proof (induction xs)
  case (Cons x xs)
  have IH: "find P (delete_rows Q xs) = (case find P xs of None \<Rightarrow> None | Some r \<Rightarrow> if Q r then None else Some r)"
    by (rule Cons.IH) (auto intro: Cons.prems)
  show ?case
  proof (cases "P x")
    case True
    have "find P (delete_rows Q xs) = None" if "Q x"
    proof -
      have "Q r" if "r \<in> set xs" "P r" for r
      proof -
        have "x = r" by (rule Cons.prems) (simp_all add: that True)
        with \<open>Q x\<close> show ?thesis by simp
      qed
      then show ?thesis by auto
    qed
    with True show ?thesis by (auto simp: delete_rows_def simp del: find_None_conv)
  next
    case False
    with IH show ?thesis by (simp add: delete_rows_def del: find_None_conv)
  qed
qed (simp add: delete_rows_def)

lemma walk_delete:
  assumes wf: "wf_db d"
  shows "walk (delete_rows (\<lambda>r. ino_tenant_id r = t \<and> ino_id r \<in> D) (d_inodes d)) t i cs =
    (if \<exists>n. 0 < n \<and> n \<le> length cs \<and> (\<exists>k \<in> D. walk (d_inodes d) t i (take n cs) = Some k) then None
     else walk (d_inodes d) t i cs)"
proof (induction cs arbitrary: i)
  case (Cons c cs)
  let ?P = "\<lambda>r. ino_tenant_id r = t \<and> ino_parent_id r = Some i \<and> ino_name r = c"
  let ?Q = "\<lambda>r. ino_tenant_id r = t \<and> ino_id r \<in> D"
  have f: "find ?P (delete_rows ?Q (d_inodes d)) =
      (case find ?P (d_inodes d) of None \<Rightarrow> None | Some r \<Rightarrow> if ?Q r then None else Some r)"
  proof (rule find_kept)
    fix r r' assume r: "r \<in> set (d_inodes d)" "r' \<in> set (d_inodes d)" "?P r" "?P r'"
    have "find ?P (d_inodes d) = Some r" using r(3) by (intro sibling_find [OF wf r(1)]) auto
    moreover have "find ?P (d_inodes d) = Some r'" using r(4) by (intro sibling_find [OF wf r(2)]) auto
    ultimately show "r = r'" by simp
  qed
  have take_split: "(\<exists>n. 0 < n \<and> n \<le> length (c # cs) \<and> R (take n (c # cs))) \<longleftrightarrow>
      R [c] \<or> (\<exists>n. 0 < n \<and> n \<le> length cs \<and> R (c # take n cs))" for R
  proof
    assume "\<exists>n. 0 < n \<and> n \<le> length (c # cs) \<and> R (take n (c # cs))"
    then obtain n where n: "0 < n" "n \<le> Suc (length cs)" "R (take n (c # cs))" by auto
    then obtain m where "n = Suc m" by (cases n) auto
    with n show "R [c] \<or> (\<exists>n. 0 < n \<and> n \<le> length cs \<and> R (c # take n cs))" by (cases m) auto
  next
    assume "R [c] \<or> (\<exists>n. 0 < n \<and> n \<le> length cs \<and> R (c # take n cs))"
    then show "\<exists>n. 0 < n \<and> n \<le> length (c # cs) \<and> R (take n (c # cs))"
    proof (elim disjE exE)
      assume "R [c]"
      then show ?thesis by (intro exI [of _ 1]) simp
    next
      fix n assume "0 < n \<and> n \<le> length cs \<and> R (c # take n cs)"
      then show ?thesis by (intro exI [of _ "Suc n"]) simp
    qed
  qed
  show ?case
  proof (cases "find ?P (d_inodes d)")
    case None
    then show ?thesis unfolding take_split [of "\<lambda>x. \<exists>k \<in> D. walk (d_inodes d) t i x = Some k"]
      by (simp add: f del: find_None_conv)
  next
    case (Some r)
    then have "ino_tenant_id r = t" by (auto dest: find_SomeD)
    with Some Cons.IH [of "ino_id r"] show ?thesis
      unfolding take_split [of "\<lambda>x. \<exists>k \<in> D. walk (d_inodes d) t i x = Some k"]
      by (auto simp: f simp del: find_None_conv)
  qed
qed simp

lemma tree_delete:
  assumes ok: "fs_ok fs d" and r: "tree fs d ds = Some r"
    and D: "ino_id r \<in> D" "\<forall>k \<in> D. \<exists>es. walk (d_inodes d) (fs_tenant_id fs) (ino_id r) es = Some k"
    and root: "ds = [] \<longrightarrow> (\<forall>c. tree fs d [c] = None)"
    and d': "d_inodes d' = delete_rows (\<lambda>q. ino_tenant_id q = fs_tenant_id fs \<and> ino_id q \<in> D) (d_inodes d)"
  shows "tree fs d' cs = (if take (length ds) cs = ds then None else tree fs d cs)"
proof -
  let ?t = "fs_tenant_id fs" and ?i = "fs_root_inode_id fs"
  have wf: "wf_db d" using ok by (rule fs_ok_wf)
  have byid: "find (\<lambda>q. ino_tenant_id q = ?t \<and> ino_id q = j) (d_inodes d') =
      (case find (\<lambda>q. ino_tenant_id q = ?t \<and> ino_id q = j) (d_inodes d) of None \<Rightarrow> None
       | Some q \<Rightarrow> if ino_tenant_id q = ?t \<and> ino_id q \<in> D then None else Some q)" for j
    unfolding d'
  proof (rule find_kept)
    fix q q' assume q: "q \<in> set (d_inodes d)" "q' \<in> set (d_inodes d)"
      "ino_tenant_id q = ?t \<and> ino_id q = j" "ino_tenant_id q' = ?t \<and> ino_id q' = j"
    show "q = q'" by (rule unique_inode [OF wf q(1,2)]) (use q(3,4) in simp_all)
  qed
  have gone: "find (\<lambda>q. ino_tenant_id q = ?t \<and> ino_id q = j) (d_inodes d') = None" if "j \<in> D" for j
  proof (cases "find (\<lambda>q. ino_tenant_id q = ?t \<and> ino_id q = j) (d_inodes d)")
    case (Some q)
    with find_SomeD [OF Some] that show ?thesis unfolding byid Some by simp
  qed (simp add: byid del: find_None_conv)
  have kept: "find (\<lambda>q. ino_tenant_id q = ?t \<and> ino_id q = j) (d_inodes d') =
      find (\<lambda>q. ino_tenant_id q = ?t \<and> ino_id q = j) (d_inodes d)" if "j \<notin> D" for j
  proof (cases "find (\<lambda>q. ino_tenant_id q = ?t \<and> ino_id q = j) (d_inodes d)")
    case (Some q)
    with find_SomeD [OF Some] that show ?thesis unfolding byid Some by simp
  qed (simp add: byid del: find_None_conv)
  have reach: "\<exists>es. take n cs = ds @ es" if "k \<in> D" "walk (d_inodes d) ?t ?i (take n cs) = Some k" for n k
  proof -
    from D(2) that(1) obtain es where "walk (d_inodes d) ?t (ino_id r) es = Some k" by blast
    then have "walk (d_inodes d) ?t ?i (ds @ es) = Some k"
      by (simp add: walk_append tree_SomeD(1) [OF r])
    from walk_inj [OF ok that(2) this] show ?thesis by blast
  qed
  note w = walk_delete [OF wf, of ?t D ?i cs, folded d']
  show ?thesis
  proof (cases "take (length ds) cs = ds")
    case True
    show ?thesis
    proof (cases "ds = []")
      case False
      have "0 < length ds \<and> length ds \<le> length cs" using True False by (metis length_greater_0_conv length_take min.cobounded1)
      moreover have "walk (d_inodes d) ?t ?i (take (length ds) cs) = Some (ino_id r)"
        unfolding True by (rule tree_SomeD(1) [OF r])
      ultimately have "walk (d_inodes d') ?t ?i cs = None" using w D(1) by auto
      with True show ?thesis by (simp add: tree_def)
    next
      case root_case: True
      show ?thesis
      proof (cases cs)
        case Nil
        have "?i \<in> D" using tree_SomeD(1) [OF r] D(1) root_case by simp
        with Nil root_case gone show ?thesis by (simp add: tree_def)
      next
        case (Cons c es)
        have "find (\<lambda>q. ino_tenant_id q = ?t \<and> ino_parent_id q = Some ?i \<and> ino_name q = c) (d_inodes d) = None"
          using root root_case tree_child [of fs d "[]" r c] r tree_SomeD(1) [OF r] by auto
        then have "find (\<lambda>q. ino_tenant_id q = ?t \<and> ino_parent_id q = Some ?i \<and> ino_name q = c) (d_inodes d') = None"
          by (auto simp: d')
        with Cons root_case show ?thesis by (simp add: tree_def del: find_None_conv)
      qed
    qed
  next
    case False
    have no: "k \<notin> D" if "walk (d_inodes d) ?t ?i (take n cs) = Some k" for n k
    proof
      assume "k \<in> D"
      from reach [OF this that] obtain es where "take n cs = ds @ es" by blast
      then have "take (length ds) cs = ds"
        by (metis append_eq_conv_conj min.absorb1 length_append le_add1 length_take min.bounded_iff order_refl take_take)
      with False show False by simp
    qed
    then have same: "walk (d_inodes d') ?t ?i cs = walk (d_inodes d) ?t ?i cs" using w by auto
    have "tree fs d' cs = tree fs d cs"
    proof (cases "walk (d_inodes d) ?t ?i cs")
      case (Some j)
      then have "j \<notin> D" using no [of "length cs"] by simp
      with Some same kept show ?thesis by (simp add: tree_def)
    qed (simp add: tree_def same)
    with False show ?thesis by simp
  qed
qed

lemma delete_inode_rows_inodes:
  "d_inodes (delete_inode_rows t i d) = delete_rows (\<lambda>r. ino_tenant_id r = t \<and>
     ino_id r \<in> (if exists_row (\<lambda>r. inode_key r = (t, i)) (d_inodes d)
                 then set (subtree_ids (length (d_inodes d)) (d_inodes d) t [i]) else {})) (d_inodes d)"
  by (simp add: delete_inode_rows_def Let_def)

lemma tree_inode_delete:
  assumes ok: "fs_ok fs d" and r: "tree fs d ds = Some r"
    and root: "ds = [] \<longrightarrow> (\<forall>c. tree fs d [c] = None)"
    and del: "inode_delete (fs_tenant_id fs) (ino_id r) d = (Inr b, d')"
  shows "tree fs d' cs = (if take (length ds) cs = ds then None else tree fs d cs)"
proof (rule tree_delete [OF ok r _ _ root])
  let ?D = "set (subtree_ids (length (d_inodes d)) (d_inodes d) (fs_tenant_id fs) [ino_id r])"
  have "exists_row (\<lambda>q. inode_key q = (fs_tenant_id fs, ino_id r)) (d_inodes d)"
    using tree_SomeD(2,3) [OF r] by (auto simp: inode_key_def)
  then show "d_inodes d' = delete_rows (\<lambda>q. ino_tenant_id q = fs_tenant_id fs \<and> ino_id q \<in> ?D) (d_inodes d)"
    using del by (auto simp: inode_delete_def delete_inode_rows_inodes simp del: exists_row_iff)
  show "ino_id r \<in> ?D" using subtree_start by fastforce
  show "\<forall>k \<in> ?D. \<exists>es. walk (d_inodes d) (fs_tenant_id fs) (ino_id r) es = Some k"
    using subtree_reach [OF fs_ok_wf [OF ok], of _ _ "fs_tenant_id fs" "[ino_id r]"] by auto
qed

text \<open>
  C35.  What \<open>delete_file\<close> answers, in every case: a missing path and a directory are refused
  without effect; otherwise the deletion succeeds and afterwards exactly the path itself and
  whatever lay below it are gone from the tree.
\<close>

theorem delete_file_outcome:
  assumes "fs_ok fs d" and "normalize_path path = Inr q"
  shows "case tree fs d (path_parts path) of
      None \<Rightarrow> fs_delete_file fs path d = (Inl (PathNotFound q), d)
    | Some r \<Rightarrow>
        if ino_type r = Dir then fs_delete_file fs path d = (Inl (IsDirectory path), d)
        else path_parts path \<noteq> [] \<longrightarrow>
          (\<exists>d'. fs_delete_file fs path d = (Inr (), d') \<and>
            (\<forall>cs. tree fs d' cs =
               (if take (length (path_parts path)) cs = path_parts path then None else tree fs d cs)))"
proof (cases "tree fs d (path_parts path)")
  case None
  then show ?thesis by (simp add: fs_delete_file_def fs_resolve_path_eq assms(2) bindE_def)
next
  case (Some r)
  let ?d1 = "snd (block_delete (fs_tenant_id fs) (ino_id r) d)"
  have same: "d_inodes ?d1 = d_inodes d" "d_tenants ?d1 = d_tenants d" by (simp_all add: block_delete_def)
  have ok1: "fs_ok fs ?d1"
    using assms(1) preservesD [OF preserves_wf_block_delete] by (auto simp: fs_ok_def same)
  have tree1: "tree fs ?d1 = tree fs d" by (rule tree_cong [OF same(1)])
  obtain b d' where del: "inode_delete (fs_tenant_id fs) (ino_id r) ?d1 = (Inr b, d')"
    by (simp add: inode_delete_def)
  have run: "ino_type r \<noteq> Dir \<Longrightarrow> fs_delete_file fs path d = (Inr (), d')"
    using Some del by (simp add: fs_delete_file_def fs_resolve_path_eq assms(2) bindE_def db_err_apply
        block_delete_def)
  have "tree fs d' cs = (if take (length (path_parts path)) cs = path_parts path then None else tree fs d cs)"
    if "path_parts path \<noteq> []" for cs
    using tree_inode_delete [OF ok1 _ _ del, of "path_parts path" cs] Some that by (simp add: tree1)
  with run Some show ?thesis
    by (auto simp: fs_delete_file_def fs_resolve_path_eq assms(2) bindE_def)
qed

lemma list_children_empty:
  assumes "wf_db d" "tree fs d cs = Some r" "sort_by le (filter (\<lambda>q. ino_tenant_id q = fs_tenant_id fs \<and> ino_parent_id q = Some (ino_id r)) (d_inodes d)) = []"
  shows "tree fs d (cs @ [c]) = None"
  using tree_child [OF assms(2), of c] assms(3) by (auto simp: filter_empty_conv)

text \<open>
  \<open>remove_directory\<close> removes a directory exactly when it exists, is a directory and is
  empty, each refusal having its own error and no effect; a removed directory disappears
  from the tree and nothing else does.
\<close>

theorem remove_directory_outcome:
  assumes "fs_ok fs d" and "normalize_path path = Inr q"
  shows "case tree fs d (path_parts path) of
      None \<Rightarrow> fs_remove_directory x fs path d = (Inl (PathNotFound q), d)
    | Some r \<Rightarrow>
        if ino_type r \<noteq> Dir then fs_remove_directory x fs path d = (Inl (NotDirectory path), d)
        else if list_ex (\<lambda>c. ino_tenant_id c = fs_tenant_id fs \<and> ino_parent_id c = Some (ino_id r)) (d_inodes d)
        then fs_remove_directory x fs path d = (Inl (DirectoryNotEmpty path), d)
        else (\<exists>d'. fs_remove_directory x fs path d = (Inr (), d') \<and>
          (\<forall>cs. tree fs d' cs =
             (if take (length (path_parts path)) cs = path_parts path then None else tree fs d cs)))"
proof (cases "tree fs d (path_parts path)")
  case None
  then show ?thesis by (simp add: fs_remove_directory_def fs_resolve_path_eq assms(2) bindE_def)
next
  case (Some r)
  let ?kids = "filter (\<lambda>c. ino_tenant_id c = fs_tenant_id fs \<and> ino_parent_id c = Some (ino_id r)) (d_inodes d)"
  have kids: "list_ex (\<lambda>c. ino_tenant_id c = fs_tenant_id fs \<and> ino_parent_id c = Some (ino_id r)) (d_inodes d)
      \<longleftrightarrow> ?kids \<noteq> []" by (auto simp: list_ex_iff filter_empty_conv)
  have res: "fs_resolve_path fs path d = (Inr r, d)" by (simp add: fs_resolve_path_eq assms(2) Some)
  obtain b d' where del: "inode_delete (fs_tenant_id fs) (ino_id r) d = (Inr b, d')"
    by (simp add: inode_delete_def)
  have run: "ino_type r = Dir \<Longrightarrow> ?kids = [] \<Longrightarrow> fs_remove_directory x fs path d = (Inr (), d')"
    using del by (simp add: fs_remove_directory_def res bindE_def inode_list_children_def db_err_apply)
  have "tree fs d' cs = (if take (length (path_parts path)) cs = path_parts path then None else tree fs d cs)"
    if "?kids = []" for cs
  proof (rule tree_inode_delete [OF assms(1) Some _ del], intro impI allI)
    fix c assume "path_parts path = []"
    with list_children_empty [OF fs_ok_wf [OF assms(1)] Some, of "\<lambda>a b. True" c] that
    show "tree fs d [c] = None" by simp
  qed
  with run Some res kids show ?thesis
    by (auto simp: fs_remove_directory_def bindE_def inode_list_children_def simp del: filter_empty_conv)
qed

lemma reads_resolve: "reads (fs_resolve_path fs path)"
  by (auto simp: reads_def fs_resolve_path_eq split: sum.split option.split)

lemma reads_read_internal: "reads (fs_read_file_internal fs i)"
  by (auto simp: reads_def fs_read_file_internal_def bindE_def okE_def cow_read_text_file_eq block_list_def
      split: option.split)

lemmas resolve_rules [preserves_rules] = reads_preserves [OF reads_resolve] reads_preserves [OF reads_read_internal]

section \<open>Identifiers stay fresh\<close>

lemma drawn_fs [preserves_rules]:
  "preserves ids_drawn (fs_create_node ty mode fs path)"
  "preserves ids_drawn (fs_write_file x fs path data)"
  "preserves ids_drawn (fs_delete_file fs path)"
  "preserves ids_drawn (fs_remove_directory x fs path)"
  "preserves ids_drawn (fs_chmod fs path m)"
  "preserves ids_drawn (fs_chown fs path u g)"
  "preserves ids_drawn (fs_new t)"
  unfolding fs_create_node_def fs_write_file_def fs_delete_file_def fs_remove_directory_def fs_chmod_def
    fs_chown_def fs_new_def inode_get_by_parent_and_name_def inode_list_children_def db_err_gets tenant_get_by_id_def
  by (auto intro!: preserves_rules split: prod.split)

section \<open>Invariants of the file system operations\<close>

lemma preserves_layers_ok_frame:
  assumes "preserves wf_db m" and "\<And>v. preserves (\<lambda>d. layer_view d = v) m"
  shows "preserves layers_ok m"
proof (rule preservesI)
  fix d assume "layers_ok d"
  then have "wf_db d" "layer_inv d" by (simp_all add: layers_ok_def)
  moreover have "layer_view (snd (m d)) = layer_view d" by (rule preservesD [OF assms(2) refl])
  ultimately show "layers_ok (snd (m d))"
    unfolding layers_ok_def
    using layer_inv_via_view [of "snd (m d)" d] preservesD [OF assms(1), of d] by blast
qed

named_theorems view_rules \<open>operations that leave the graph of layers alone\<close>

lemma layer_view_delete_inode_rows [simp]: "layer_view (delete_inode_rows t i d) = layer_view d"
  by (simp add: delete_inode_rows_def Let_def layer_view_def)

lemma layer_view_basic:
  "layer_view (snd (new_v4 d)) = layer_view d" "layer_view (snd (now d)) = layer_view d"
  "layer_view (snd (inode_create ci d)) = layer_view d"
  "layer_view (snd (inode_update t i u d)) = layer_view d"
  "layer_view (snd (block_delete t i d)) = layer_view d"
  "layer_view (snd (block_create x cb d)) = layer_view d"
  "layer_view (snd (tenant_create n d)) = layer_view d"
  by (simp_all add: layer_view_def inode_create_def inode_update_def block_delete_def block_create_def
      tenant_create_def Let_def split: option.split)

lemma layer_view_inode_delete: "layer_view (snd (inode_delete t i d)) = layer_view d"
  by (simp add: inode_delete_def)

lemmas view_basic [view_rules] =
  preserves_eqI [of layer_view, OF layer_view_basic(1)]
  preserves_eqI [of layer_view, OF layer_view_basic(2)]
  preserves_eqI [of layer_view, OF layer_view_basic(3)]
  preserves_eqI [of layer_view, OF layer_view_basic(4)]
  preserves_eqI [of layer_view, OF layer_view_inode_delete]
  preserves_eqI [of layer_view, OF layer_view_basic(5)]
  preserves_eqI [of layer_view, OF layer_view_basic(6)]
  preserves_eqI [of layer_view, OF layer_view_basic(7)]

lemma view_text [view_rules]:
  "preserves (\<lambda>d. layer_view d = v) (modify (delete_text_lines P))"
  "preserves (\<lambda>d. layer_view d = v) (modify (delete_text_meta Q))"
  "preserves (\<lambda>d. layer_view d = v) (text_create_metadata m)"
  "preserves (\<lambda>d. layer_view d = v) (text_create_line_mappings t i l ms)"
proof -
  show "preserves (\<lambda>d. layer_view d = v) (text_create_line_mappings t i l ms)"
  proof (rule preserves_eqI)
    fix d
    show "layer_view (snd (text_create_line_mappings t i l ms d)) = layer_view d"
      by (auto simp: text_create_line_mappings_def layer_view_def split: sum.split
          dest!: text_insert_lines_InrD(3))
  qed
qed (rule preserves_eqI, simp add: layer_view_def text_create_metadata_def Let_def)+

lemma view_store_line [view_rules]: "preserves (\<lambda>d. layer_view d = v) (store_line x enc c)"
proof (rule preserves_eqI)
  fix d
  have "other_tables (snd (store_line x enc c d)) = other_tables d"
    by (rule preservesD [OF preserves_store_line refl])
  note f = other_tables_frame [OF this]
  show "layer_view (snd (store_line x enc c d)) = layer_view d"
    by (simp add: layer_view_def f(4,6))
qed

lemma view_cow_write [view_rules]: "preserves (\<lambda>d. layer_view d = v) (cow_write_file x h i data old)"
  unfolding cow_write_file_def cow_write_text_file_def cow_write_binary_file_def cow_delete_old_text_def Let_def
  by (auto intro!: preserves_rules view_rules split: file_type_info.split)

lemmas layers_ok_basic [preserves_rules] =
  preserves_layers_ok_frame [OF preserves_wf_now view_basic(2)]
  preserves_layers_ok_frame [OF preserves_wf_inode_create view_basic(3)]
  preserves_layers_ok_frame [OF preserves_wf_inode_update view_basic(4)]
  preserves_layers_ok_frame [OF preserves_wf_inode_delete view_basic(5)]
  preserves_layers_ok_frame [OF preserves_wf_block_delete view_basic(6)]
  preserves_layers_ok_frame [OF preserves_wf_tenant_create view_basic(8)]
  preserves_layers_ok_frame [OF preserves_wf_cow_write_file view_cow_write]

lemma preserves_layers_ok_fs [preserves_rules]:
  "preserves layers_ok (fs_create_node ty mode fs path)"
  "preserves layers_ok (fs_write_file x fs path data)"
  "preserves layers_ok (fs_delete_file fs path)"
  "preserves layers_ok (fs_remove_directory x fs path)"
  "preserves layers_ok (fs_chmod fs path m)"
  "preserves layers_ok (fs_chown fs path u g)"
  "preserves layers_ok (fs_new t)"
  unfolding fs_create_node_def fs_write_file_def fs_delete_file_def fs_remove_directory_def fs_chmod_def
    fs_chown_def fs_new_def inode_get_by_parent_and_name_def inode_list_children_def db_err_gets tenant_get_by_id_def
    lm_get_current_layer_def layer_get_current_layer_def layer_get_def storage_gets
  by (auto intro!: preserves_rules split: prod.split)

section \<open>Instances\<close>

text \<open>The file system of a tenant with its base layer, for the instances below.\<close>

definition example_fs :: file_system where
  "example_fs = \<lparr>fs_tenant_id = 0, fs_root_inode_id = 1, fs_current_layer_id = 1\<rparr>"

lemma example_fs_ok: "fs_ok example_fs example_db"
  by (simp add: fs_ok_def example_ok [unfolded layers_ok_def]) (simp add: example_fs_def example_db_eq)

lemma example_paths: "split_path ''/f'' = Inr (''/'', ''f'')" "normalize_path ''/'' = Inr ''/''" "path_parts ''/'' = []"
  "normalize_path ''/f'' = Inr ''/f''" "path_parts ''/f'' = [''f'']"
  by code_simp+

lemma example_tree: "tree example_fs example_db [] = Some (hd (d_inodes example_db))"
  "tree example_fs example_db [''f''] = None"
  by (simp_all add: tree_def example_fs_def example_db_eq)

lemma example_root: "hd (d_inodes example_db) = \<lparr>ino_id = 1, ino_tenant_id = 0, ino_parent_id = None,
   ino_name = ''/'', ino_type = Dir, ino_mode = 493, ino_uid = 0,
   ino_gid = 0, ino_size = 4096, ino_atime = 0, ino_mtime = 0, ino_ctime = 0\<rparr>"
  by (simp add: example_db_eq)

theorem create_file_outcome_witness:
  "\<exists>row d'. fs_create_file example_fs ''/f'' example_db = (Inr row, d') \<and>
     tree example_fs d' = (tree example_fs example_db)([''f''] \<mapsto> row) \<and>
     ino_type row = File \<and> ino_mode row = 420 \<and> ino_size row = 0 \<and> ino_name row = ''f'' \<and>
     ino_parent_id row = Some 1"
  using create_file_outcome [OF example_fs_ok example_paths(1)]
  unfolding example_paths(3,5) example_tree option.case example_root by simp

definition example_file_db :: db where
  "example_file_db = snd (fs_create_file example_fs ''/f'' example_db)"

lemma example_file_ok: "fs_ok example_fs example_file_db" by code_simp

lemma example_file: "tree example_fs example_file_db [''f''] =
      Some \<lparr>ino_id = 2, ino_tenant_id = 0, ino_parent_id = Some 1, ino_name = ''f'', ino_type = File,
        ino_mode = 420, ino_uid = 0, ino_gid = 0, ino_size = 0, ino_atime = 3, ino_mtime = 3, ino_ctime = 3\<rparr>"
  by code_simp

theorem delete_file_outcome_witness:
  "\<exists>d'. fs_delete_file example_fs ''/f'' example_file_db = (Inr (), d') \<and>
    (\<forall>cs. tree example_fs d' cs =
       (if take 1 cs = [''f''] then None else tree example_fs example_file_db cs))"
  using delete_file_outcome [OF example_file_ok example_paths(4)] example_file
  unfolding example_paths(5) by simp

definition example_dir_db :: db where
  "example_dir_db = snd (fs_create_directory example_fs ''/f'' example_db)"

lemma example_dir_ok: "fs_ok example_fs example_dir_db" by code_simp

theorem remove_directory_outcome_witness:
  "\<exists>d'. fs_remove_directory example_ext example_fs ''/f'' example_dir_db = (Inr (), d') \<and>
    (\<forall>cs. tree example_fs d' cs =
       (if take 1 cs = [''f''] then None else tree example_fs example_dir_db cs))"
proof -
  have "tree example_fs example_dir_db [''f''] =
      Some \<lparr>ino_id = 2, ino_tenant_id = 0, ino_parent_id = Some 1, ino_name = ''f'', ino_type = Dir,
        ino_mode = 493, ino_uid = 0, ino_gid = 0, ino_size = 0, ino_atime = 3, ino_mtime = 3, ino_ctime = 3\<rparr>"
    "\<not> list_ex (\<lambda>c. ino_tenant_id c = fs_tenant_id example_fs \<and> ino_parent_id c = Some 2)
       (d_inodes example_dir_db)"
    by code_simp+
  with remove_directory_outcome [OF example_dir_ok example_paths(4), of example_ext] show ?thesis
    unfolding example_paths(5) by simp
qed

end
