(* ===== verification/FileContent.thy ===== *)
theory FileContent
  imports FileSystem
begin

text \<open>
  What a file holds after it was written: the composition of \<open>write_file\<close> and \<open>read_file\<close>
  of \<open>src/src/fs/operations.rs\<close> with the copy-on-write handler, the layer manager and the
  repositories below them.
\<close>

section \<open>Recording a change\<close>

definition entry_frame :: "db \<Rightarrow> db \<Rightarrow> bool" where
  "entry_frame d d' \<longleftrightarrow>
     d'\<lparr>d_entries := [], d_layers := [], d_draws := 0, d_clock := 0\<rparr> =
     d\<lparr>d_entries := [], d_layers := [], d_draws := 0, d_clock := 0\<rparr>"

lemma entry_frame_fields:
  assumes "entry_frame d d'"
  shows "d_tenants d' = d_tenants d" "d_inodes d' = d_inodes d" "d_blocks d' = d_blocks d"
    "d_current d' = d_current d" "d_text_blocks d' = d_text_blocks d" "d_text_meta d' = d_text_meta d"
    "d_text_lines d' = d_text_lines d" "d_inode_seq d' = d_inode_seq d" "d_entropy d' = d_entropy d"
  using assms unfolding entry_frame_def by (cases d; cases d'; simp)+

text \<open>A change is recorded under the path and the kind it was given, in the current layer.\<close>

definition recorded :: "uuid \<Rightarrow> str \<Rightarrow> change_type \<Rightarrow> db \<Rightarrow> bool" where
  "recorded l path change d \<longleftrightarrow>
     (\<exists>e \<in> set (d_entries d). le_layer_id e = l \<and> le_path e = path \<and> le_change_type e = change)"

lemma fresh_entry: "ids_drawn d \<Longrightarrow> \<not> exists_row (\<lambda>e. le_id e = d_entropy d (d_draws d)) (d_entries d)"
proof
  assume d: "ids_drawn d" and "exists_row (\<lambda>e. le_id e = d_entropy d (d_draws d)) (d_entries d)"
  then obtain e where e: "e \<in> set (d_entries d)" "le_id e = d_entropy d (d_draws d)"
    by (auto simp: exists_row_def)
  then have "d_entropy d (d_draws d) \<in> db_ids d" unfolding db_ids_def e(2) [symmetric] by simp
  with ids_drawn_fresh [OF d] show False by simp
qed

lemma add_entry_succeeds:
  assumes drawn: "ids_drawn d" and layer: "\<exists>r \<in> set (d_layers d). ly_id r = ce_layer_id inp"
    and inode: "\<exists>q \<in> set (d_inodes d). inode_key q = (ce_tenant_id inp, ce_inode_id inp)"
  shows "\<exists>e d'. layer_add_entry inp d = (Inr e, d') \<and> ids_drawn d' \<and> entry_frame d d' \<and>
    recorded (ce_layer_id inp) (ce_path inp) (ce_change_type inp) d'"
proof (cases "find (\<lambda>e. entry_key e = (ce_layer_id inp, ce_path inp)) (d_entries d)")
  case (Some old)
  have fresh: "\<not> exists_row (\<lambda>e. le_id e = d_entropy d (d_draws d)) (d_entries d)"
    by (rule fresh_entry [OF drawn])
  obtain d' where d': "layer_add_entry inp d = (Inr (old\<lparr>le_change_type := ce_change_type inp, le_size_delta := ce_size_delta inp,
                               le_text_changes := ce_text_changes inp, le_created_at := d_clock d\<rparr>), d')"
    "d' = d\<lparr>d_draws := Suc (d_draws d), d_clock := Suc (d_clock d),
       d_entries := d_entries d', d_layers := d_layers d'\<rparr>"
    "d_entries d' = update_rows (\<lambda>e. entry_key e = (ce_layer_id inp, ce_path inp))
       (\<lambda>e. e\<lparr>le_change_type := ce_change_type inp, le_size_delta := ce_size_delta inp,
                               le_text_changes := ce_text_changes inp, le_created_at := d_clock d\<rparr>) (d_entries d)"
    "map layer_shape (d_layers d') = map layer_shape (d_layers d)"
    using Some fresh by (simp add: layer_add_entry_def bindE_def Let_def)
  have "ids_drawn d'"
  proof (rule ids_drawn_step [OF drawn])
    have "le_id ` set (d_entries d') = le_id ` set (d_entries d)"
      unfolding d'(3) by (rule image_update_rows) simp
    moreover have "ly_id ` set (d_layers d') = ly_id ` set (d_layers d)"
      by (rule layer_ids_via_shape [OF d'(4)])
    ultimately show "db_ids d' \<subseteq> db_ids d \<union> d_entropy d ` {d_draws d..<d_draws d'}"
      by (subst d'(2)) (auto simp: db_ids_def)
  qed (subst d'(2), simp)+
  moreover have "entry_frame d d'" unfolding entry_frame_def by (subst d'(2)) simp
  moreover have "recorded (ce_layer_id inp) (ce_path inp) (ce_change_type inp) d'"
  proof -
    from Some have "old \<in> set (d_entries d)" "entry_key old = (ce_layer_id inp, ce_path inp)"
      by (auto dest: find_SomeD)
    then show ?thesis
      unfolding recorded_def d'(3) update_rows_def set_map entry_key_def by (intro bexI [OF _ imageI]) auto
  qed
  ultimately show ?thesis using d'(1) by blast
next
  case None
  let ?row = "\<lparr>le_id = d_entropy d (d_draws d), le_layer_id = ce_layer_id inp, le_tenant_id = ce_tenant_id inp,
      le_inode_id = ce_inode_id inp, le_path = ce_path inp, le_change_type = ce_change_type inp,
      le_size_delta = ce_size_delta inp, le_text_changes = ce_text_changes inp, le_created_at = d_clock d\<rparr>"
  let ?d' = "d\<lparr>d_draws := Suc (d_draws d), d_clock := Suc (d_clock d),
      d_entries := d_entries d @ [?row], d_layers := entry_inserted ?row (d_layers d)\<rparr>"
  have run: "layer_add_entry inp d = (Inr ?row, ?d')"
    using None fresh_entry [OF drawn] layer inode
    by (simp add: layer_add_entry_def bindE_def Let_def exists_row_def del: find_None_conv)
  have "ly_id ` set (d_layers ?d') = ly_id ` set (d_layers d)"
    by (rule layer_ids_via_shape) simp
  then have "ids_drawn ?d'" by (intro ids_drawn_step [OF drawn]) (auto simp: db_ids_def)
  moreover have "entry_frame d ?d'" by (simp add: entry_frame_def)
  moreover have "recorded (ce_layer_id inp) (ce_path inp) (ce_change_type inp) ?d'"
    by (simp add: recorded_def)
  ultimately show ?thesis using run by blast
qed

lemma record_change_succeeds:
  assumes "ids_drawn d" and "layer_get_current_layer t d = (Inr (Some l), d)"
    and "layer_get t l d = (Inr (Some r), d)" and "\<not> ly_is_readonly r"
    and "\<exists>q \<in> set (d_inodes d). inode_key q = (t, i)"
  shows "\<exists>d'. lm_record_change t i path change delta changes d = (Inr (), d') \<and> ids_drawn d' \<and>
    entry_frame d d' \<and> recorded l path change d'"
proof -
  let ?inp = "\<lparr>ce_layer_id = l, ce_tenant_id = t, ce_inode_id = i, ce_path = path,
                   ce_change_type = change, ce_size_delta = delta, ce_text_changes = changes\<rparr>"
  have "\<exists>r \<in> set (d_layers d). ly_id r = l"
    using assms(3) by (auto simp: layer_get_def dest!: find_SomeD)
  with add_entry_succeeds [OF assms(1), of ?inp] assms(5) obtain e d' where
    "layer_add_entry ?inp d = (Inr e, d')" "ids_drawn d'" "entry_frame d d'" "recorded l path change d'"
    by auto
  with assms(2-4) show ?thesis by (simp add: lm_record_change_def bindE_def storage_apply)
qed

lemma preserves_wf_record_change: "preserves wf_db (lm_record_change t i p c sd tc)"
  unfolding lm_record_change_def layer_get_current_layer_def layer_get_def storage_gets
  by (auto intro!: preserves_rules)

section \<open>Updating the attributes of an inode\<close>

lemma find_updated:
  "(\<And>r. Q (f r) = Q r) \<Longrightarrow>
   find Q (update_rows P f rs) = map_option (\<lambda>r. if P r then f r else r) (find Q rs)"
  by (induction rs) (auto simp: update_rows_def)

lemma walk_update:
  assumes "\<And>r. ino_id (f r) = ino_id r" "\<And>r. ino_tenant_id (f r) = ino_tenant_id r"
    "\<And>r. ino_parent_id (f r) = ino_parent_id r" "\<And>r. ino_name (f r) = ino_name r"
  shows "walk (update_rows P f is) t i cs = walk is t i cs"
proof (induction cs arbitrary: i)
  case (Cons c cs)
  show ?case using Cons
    by (auto simp: assms find_updated simp del: find_None_conv split: option.split)
qed simp

lemma apply_update_keeps [simp]:
  "ino_id (apply_update u r) = ino_id r" "ino_tenant_id (apply_update u r) = ino_tenant_id r"
  "ino_parent_id (apply_update u r) = ino_parent_id r" "ino_name (apply_update u r) = ino_name r"
  "ino_type (apply_update u r) = ino_type r"
  by (simp_all add: apply_update_def)

lemma tree_inode_update:
  assumes ok: "fs_ok fs d" and at: "tree fs d p = Some r" and "\<not> no_updates u"
  shows "\<exists>d'. inode_update (fs_tenant_id fs) (ino_id r) u d = (Inr (apply_update u r), d') \<and>
    d' = d\<lparr>d_inodes := d_inodes d'\<rparr> \<and> tree fs d' = (tree fs d)(p \<mapsto> apply_update u r)"
proof -
  let ?P = "\<lambda>q. ino_tenant_id q = fs_tenant_id fs \<and> ino_id q = ino_id r"
  let ?d' = "d\<lparr>d_inodes := update_rows ?P (apply_update u) (d_inodes d)\<rparr>"
  have found: "find ?P (d_inodes d) = Some r"
    using at by (auto simp: tree_def simp del: find_None_conv split: option.splits dest: find_SomeD)
  then have run: "inode_update (fs_tenant_id fs) (ino_id r) u d = (Inr (apply_update u r), ?d')"
    using assms(3) by (simp add: inode_update_def)
  have "tree fs ?d' cs = ((tree fs d)(p \<mapsto> apply_update u r)) cs" for cs
  proof -
    have find: "find (\<lambda>q. ino_tenant_id q = fs_tenant_id fs \<and> ino_id q = j) (d_inodes ?d') =
        map_option (\<lambda>q. if ?P q then apply_update u q else q)
          (find (\<lambda>q. ino_tenant_id q = fs_tenant_id fs \<and> ino_id q = j) (d_inodes d))" for j
      by (simp add: find_updated)
    have eq: "tree fs ?d' cs = map_option (\<lambda>q. if ?P q then apply_update u q else q) (tree fs d cs)"
      unfolding tree_def find
      by (simp add: walk_update split: option.split del: find_None_conv)
    show ?thesis
    proof (cases "tree fs d cs")
      case None
      with at eq show ?thesis by auto
    next
      case (Some q)
      then have "ino_tenant_id q = fs_tenant_id fs"
        by (auto simp: tree_def split: option.splits dest: find_SomeD)
      with eq Some have eq: "tree fs ?d' cs = Some (if ino_id q = ino_id r then apply_update u q else q)"
        by simp
      show ?thesis
      proof (cases "ino_id q = ino_id r")
        case True
        then have cs: "cs = p" by (rule tree_inj [OF ok Some at])
        with Some at have "q = r" by simp
        then have "tree fs ?d' p = Some (apply_update u r)" using eq unfolding cs by simp
        then show ?thesis unfolding cs by simp
      next
        case False
        then have "cs \<noteq> p" using Some at by auto
        with False show ?thesis unfolding eq by (simp add: Some)
      qed
    qed
  qed
  then have "tree fs ?d' = (tree fs d)(p \<mapsto> apply_update u r)" by (rule ext)
  with run show ?thesis by (intro exI [of _ ?d'] conjI) simp_all
qed

section \<open>Writing, then reading\<close>

text \<open>
  The state in which the layer of a file system takes changes: it is the current layer of
  the tenant and it is writable.
\<close>

definition writable_layer :: "file_system \<Rightarrow> db \<Rightarrow> bool" where
  "writable_layer fs d \<longleftrightarrow>
     layer_get_current_layer (fs_tenant_id fs) d = (Inr (Some (fs_current_layer_id fs)), d) \<and>
     (\<exists>l. layer_get (fs_tenant_id fs) (fs_current_layer_id fs) d = (Inr (Some l), d) \<and> \<not> ly_is_readonly l)"

abbreviation file_text :: "file_system \<Rightarrow> inode \<Rightarrow> db \<Rightarrow> str option" where
  "file_text fs r d \<equiv> text_content (fs_tenant_id fs) (ino_id r) (fs_current_layer_id fs) d"

abbreviation file_blocks :: "file_system \<Rightarrow> inode \<Rightarrow> db \<Rightarrow> bytes" where
  "file_blocks fs r d \<equiv> binary_content (fs_tenant_id fs) (ino_id r) d"

lemma read_internal_eq:
  "fs_read_file_internal fs i d =
     (Inr (case text_content (fs_tenant_id fs) i (fs_current_layer_id fs) d of
        Some c \<Rightarrow> c | None \<Rightarrow> binary_content (fs_tenant_id fs) i d), d)"
  by (simp add: fs_read_file_internal_def okE_def bindE_def cow_read_text_file_eq cow_new_def block_list_def
      binary_content_def own_blocks_def split: option.split)

lemma inode_in_table:
  "tree fs d p = Some r \<Longrightarrow> \<exists>q \<in> set (d_inodes d). inode_key q = (fs_tenant_id fs, ino_id r)"
  by (auto simp: tree_def inode_key_def simp del: find_None_conv split: option.splits dest: find_SomeD)

text \<open>
  The steps after the handler has stored the data: the change is recorded, size and
  modification time of the inode are updated, and the texts and blocks stay as they are.
\<close>

definition touched :: "nat \<Rightarrow> timestamp \<Rightarrow> inode \<Rightarrow> inode" where
  "touched n t = apply_update (no_update\<lparr>ui_size := Some (as_i64 n), ui_mtime := Some t\<rparr>)"

lemma write_file_finishes:
  assumes ok: "fs_ok fs d" and norm: "normalize_path path = Inr q"
    and at: "tree fs d (path_parts path) = Some r" and is_file: "ino_type r = File"
    and handler: "cow_write_file x (cow_new (fs_tenant_id fs) (fs_current_layer_id fs)) (ino_id r) data
        (case fs_read_file_internal fs (ino_id r) d of (Inl e, _) \<Rightarrow> None
         | (Inr b, _) \<Rightarrow> if b = [] then None else Some b) d = (Inr res, d1)"
    and ids: "ids_drawn d1" and wf: "wf_db d1"
    and frame: "d_inodes d1 = d_inodes d" "d_tenants d1 = d_tenants d" "d_layers d1 = d_layers d"
      "d_current d1 = d_current d"
    and layer: "writable_layer fs d"
  shows "\<exists>d' t. fs_write_file x fs path data d = (Inr (), d') \<and>
    tree fs d' = (tree fs d)(path_parts path \<mapsto> touched (length data) t r) \<and>
    d_blocks d' = d_blocks d1 \<and> d_text_blocks d' = d_text_blocks d1 \<and> d_text_meta d' = d_text_meta d1 \<and>
    d_text_lines d' = d_text_lines d1 \<and>
    recorded (fs_current_layer_id fs) path (cr_change_type res) d'"
proof -
  let ?t = "fs_tenant_id fs"
  have tree1: "tree fs d1 = tree fs d" by (rule tree_cong [OF frame(1)])
  obtain l where cur: "layer_get_current_layer ?t d1 = (Inr (Some (fs_current_layer_id fs)), d1)"
    "layer_get ?t (fs_current_layer_id fs) d1 = (Inr (Some l), d1)" "\<not> ly_is_readonly l"
    using layer by (auto simp: writable_layer_def layer_get_current_layer_def layer_get_def frame)
  obtain d2 where rec: "lm_record_change ?t (ino_id r) path (cr_change_type res) (Some (cr_size_delta res))
        (map_option text_changes_to_json (cr_text_changes res)) d1 = (Inr (), d2)" "entry_frame d1 d2"
      "recorded (fs_current_layer_id fs) path (cr_change_type res) d2"
    using record_change_succeeds [OF ids cur] inode_in_table [OF at] frame(1) by metis
  note f2 = entry_frame_fields [OF rec(2)]
  let ?d3 = "d2\<lparr>d_clock := Suc (d_clock d2)\<rparr>"
  let ?u = "no_update\<lparr>ui_size := Some (as_i64 (length data)), ui_mtime := Some (d_clock d2)\<rparr>"
  have "wf_db d2" using preservesD [OF preserves_wf_record_change wf] rec(1) by (metis snd_conv)
  then have "wf_db ?d3" using preservesD [OF preserves_wf_now, of d2] by (simp add: now_def)
  then have ok3: "fs_ok fs ?d3"
    using ok f2 frame by (simp add: fs_ok_def)
  have tree3: "tree fs ?d3 = tree fs d" using tree_cong [of ?d3 d] f2 frame by simp
  then have "tree fs ?d3 (path_parts path) = Some r" using at by simp
  from tree_inode_update [OF ok3 this, of ?u] obtain d4 where
    upd: "inode_update ?t (ino_id r) ?u ?d3 = (Inr (apply_update ?u r), d4)"
      "d4 = ?d3\<lparr>d_inodes := d_inodes d4\<rparr>" "tree fs d4 = (tree fs ?d3)(path_parts path \<mapsto> apply_update ?u r)"
    by (auto simp: no_updates_def)
  have "fs_write_file x fs path data d = (Inr (), d4)"
    using handler norm at is_file rec(1) upd(1)
    by (simp add: fs_write_file_def bindE_def fs_resolve_path_eq read_internal_eq okE_def db_err_apply lm_err_apply now_def
        split: option.splits)
  moreover have "d_blocks d4 = d_blocks d1" "d_text_blocks d4 = d_text_blocks d1" "d_text_meta d4 = d_text_meta d1"
    "d_text_lines d4 = d_text_lines d1" "d_entries d4 = d_entries d2"
    by (subst upd(2), simp add: f2)+
  ultimately show ?thesis
    using rec(3) upd(3) unfolding tree3 by (intro exI [of _ d4] exI [of _ "d_clock d2"]) (simp add: touched_def recorded_def)
qed

lemma text_None_no_meta: "text_content t i l d = None \<Longrightarrow> \<forall>m \<in> set (d_text_meta d). meta_key m \<noteq> (t, i, l)"
  by (auto simp: text_content_def Let_def split: option.splits)

text \<open>
  C1.  Writing data that is recognised as text to an existing file succeeds, records the change
  in the current layer, updates size and modification time of that one inode, and a following
  read returns the text with its line endings normalised to LF; the only other loss is that a
  text of a single line break reads back empty.
\<close>

theorem write_text_then_read:
  assumes "fs_ok fs d" and "ids_drawn d" and "writable_layer fs d"
    and "normalize_path path = Inr q" and "tree fs d (path_parts path) = Some r" and "ino_type r = File"
    and "is_text (detect detection_config_default data)"
    and "store_ok x (set (lines (from_utf8_lossy data))) d"
    and "length (lines (from_utf8_lossy data)) < 2 ^ 31"
    and "file_text fs r d \<noteq> Some []"
  shows "\<exists>d' t. fs_write_file x fs path data d = (Inr (), d') \<and>
    fs_read_file fs path d' =
      (Inr (if from_utf8_lossy data \<in> {[NL], [CR, NL]} then [] else crlf_to_lf (from_utf8_lossy data)), d') \<and>
    tree fs d' = (tree fs d)(path_parts path \<mapsto> touched (length data) t r) \<and>
    (\<exists>change. recorded (fs_current_layer_id fs) path change d')"
proof -
  let ?h = "cow_new (fs_tenant_id fs) (fs_current_layer_id fs)"
  let ?s = "from_utf8_lossy data"
  let ?old = "case fs_read_file_internal fs (ino_id r) d of (Inl e, _) \<Rightarrow> None
         | (Inr b, _) \<Rightarrow> if b = [] then None else Some b"
  have h [simp]: "cow_tenant_id ?h = fs_tenant_id fs" "cow_layer_id ?h = fs_current_layer_id fs"
    "cow_detector ?h = detection_config_default" by (simp_all add: cow_new_def)
  obtain e le n where det: "detect detection_config_default data = Text e le n"
    using assms(7) by (cases "detect detection_config_default data") auto
  have ready: "file_ready (fs_tenant_id fs) (ino_id r) (fs_current_layer_id fs) d"
    using assms(1,3) inode_in_table [OF assms(5)]
    by (auto simp: file_ready_def fs_ok_def writable_layer_def layer_get_def dest!: find_SomeD)
  have "\<forall>m \<in> set (d_text_meta d). meta_key m \<noteq> (fs_tenant_id fs, ino_id r, fs_current_layer_id fs)"
    if "?old = None"
    using that assms(10) by (intro text_None_no_meta) (auto simp: read_internal_eq split: option.splits if_splits)
  then obtain res d1 where w: "cow_write_text_file x ?h (ino_id r) data ?old e le d = (Inr res, d1)"
    and d1: "wf_db d1" "ids_drawn d1" "text_frame d d1"
      "file_text fs r d1 = Some (unlines (lines ?s) (ends_with_nl ?s))"
    using cow_write_text_spec [of x data d ?h "ino_id r" ?old e le] assms(2,8,9) ready by auto
  have "cow_write_file x ?h (ino_id r) data ?old d = (Inr res, d1)"
    by (simp add: cow_write_file_def det w)
  from write_file_finishes [OF assms(1,4,5,6) this d1(2,1) _ _ _ _ assms(3)] d1(3)
  obtain d' t where d': "fs_write_file x fs path data d = (Inr (), d')"
    "tree fs d' = (tree fs d)(path_parts path \<mapsto> touched (length data) t r)"
    "d_text_blocks d' = d_text_blocks d1" "d_text_meta d' = d_text_meta d1" "d_text_lines d' = d_text_lines d1"
    "recorded (fs_current_layer_id fs) path (cr_change_type res) d'"
    by (auto simp: text_frame_def)
  have "file_text fs r d' = Some (unlines (lines ?s) (ends_with_nl ?s))"
    using d1(4) text_content_cong [of d' d1] d'(3-5) by simp
  moreover have "ino_type (touched (length data) t r) = File" "ino_id (touched (length data) t r) = ino_id r"
    using assms(6) by (simp_all add: touched_def)
  ultimately have "fs_read_file fs path d' =
      (Inr (if ?s \<in> {[NL], [CR, NL]} then [] else crlf_to_lf ?s), d')"
    using assms(4) d'(2)
    by (simp add: fs_read_file_def bindE_def fs_resolve_path_eq read_internal_eq unlines_lines)
  with d' show ?thesis by blast
qed

lemma write_binary_core:
  assumes "fs_ok fs d" and "ids_drawn d" and "writable_layer fs d"
    and "normalize_path path = Inr q" and "tree fs d (path_parts path) = Some r" and "ino_type r = File"
    and "is_binary (detect detection_config_default data)" and "length data < 2 ^ 31"
    and "file_text fs r d = None"
  shows "\<exists>d' t. fs_write_file x fs path data d = (Inr (), d') \<and>
    fs_read_file fs path d' = (Inr data, d') \<and>
    tree fs d' = (tree fs d)(path_parts path \<mapsto> touched (length data) t r) \<and>
    (\<exists>change. recorded (fs_current_layer_id fs) path change d')"
proof -
  let ?h = "cow_new (fs_tenant_id fs) (fs_current_layer_id fs)"
  let ?old = "case fs_read_file_internal fs (ino_id r) d of (Inl e, _) \<Rightarrow> None
         | (Inr b, _) \<Rightarrow> if b = [] then None else Some b"
  let ?size = "case ?old of None \<Rightarrow> 0 | Some d \<Rightarrow> length d"
  have h [simp]: "cow_tenant_id ?h = fs_tenant_id fs" "cow_detector ?h = detection_config_default"
    by (simp_all add: cow_new_def)
  have det: "detect detection_config_default data = Binary"
    using assms(7) by (cases "detect detection_config_default data") auto
  from cow_write_binary_spec [OF fs_ok_wf [OF assms(1)] assms(2), of ?h "ino_id r" data x "?old = None" ?size]
    inode_in_table [OF assms(5)] assms(8)
  obtain res d1 where w: "cow_write_binary_file x ?h (ino_id r) data (?old = None) ?size d = (Inr res, d1)"
    and d1: "wf_db d1" "ids_drawn d1" "blocks_frame d d1" "file_blocks fs r d1 = data" by auto
  note f1 = blocks_frame_fields [OF d1(3)]
  have f: "d_inodes d1 = d_inodes d" "d_tenants d1 = d_tenants d" "d_layers d1 = d_layers d"
    "d_current d1 = d_current d" "d_text_blocks d1 = d_text_blocks d" "d_text_meta d1 = d_text_meta d"
    "d_text_lines d1 = d_text_lines d" by (subst f1, simp)+
  have "cow_write_file x ?h (ino_id r) data ?old d = (Inr res, d1)"
    by (simp add: cow_write_file_def det w)
  from write_file_finishes [OF assms(1,4,5,6) this d1(2,1) f(1-4) assms(3)]
  obtain d' t where d': "fs_write_file x fs path data d = (Inr (), d')"
    "tree fs d' = (tree fs d)(path_parts path \<mapsto> touched (length data) t r)" "d_blocks d' = d_blocks d1"
    "d_text_blocks d' = d_text_blocks d1" "d_text_meta d' = d_text_meta d1" "d_text_lines d' = d_text_lines d1"
    "recorded (fs_current_layer_id fs) path (cr_change_type res) d'"
    by blast
  have "file_text fs r d' = None" using text_content_cong [of d' d] d'(4-6) f assms(9) by simp
  moreover have "file_blocks fs r d' = data" using d1(4) d'(3) by (simp add: binary_content_def own_blocks_def)
  moreover have "ino_type (touched (length data) t r) = File" "ino_id (touched (length data) t r) = ino_id r"
    using assms(6) by (simp_all add: touched_def)
  ultimately have "fs_read_file fs path d' = (Inr data, d')"
    using assms(4) d'(2) by (simp add: fs_read_file_def bindE_def fs_resolve_path_eq read_internal_eq)
  with d'(1,2,7) show ?thesis by blast
qed

text \<open>
  C2.  Writing binary data to a file that holds no text in the current layer succeeds, and a
  following read returns exactly the data; nothing else of the tree changes.
\<close>

theorem write_binary_then_read:
  assumes "fs_ok fs d" and "ids_drawn d" and "writable_layer fs d"
    and "normalize_path path = Inr q" and "tree fs d (path_parts path) = Some r" and "ino_type r = File"
    and "is_binary (detect detection_config_default data)" and "length data < 2 ^ 31"
    and "file_text fs r d = None"
  shows "\<exists>d' t. fs_write_file x fs path data d = (Inr (), d') \<and>
    fs_read_file fs path d' = (Inr data, d') \<and>
    tree fs d' = (tree fs d)(path_parts path \<mapsto> touched (length data) t r) \<and>
    (\<exists>change. recorded (fs_current_layer_id fs) path change d')"
  by (rule write_binary_core [OF assms])

lemma fst_bindE_Inl: "fst (m d) = Inl e \<Longrightarrow> fst (bindE m f d) = Inl e"
  by (cases "m d") (auto simp: bindE_def)

text \<open>
  C36.  Once the text of a file is empty in the current layer (empty data was written to it, or
  a single line break, which reads back as empty) every further text write to it fails: the
  handler takes it for a new file and inserts its metadata a second time, which the primary key
  refuses.
\<close>

theorem write_after_empty_text_fails:
  assumes "fs_ok fs d" and "writable_layer fs d"
    and "normalize_path path = Inr q" and "tree fs d (path_parts path) = Some r" and "ino_type r = File"
    and "is_text (detect detection_config_default data)"
    and "file_text fs r d = Some []"
  shows "fst (fs_write_file x fs path data d) = Inl (Storage (DbError UniqueViolation))"
proof -
  let ?h = "cow_new (fs_tenant_id fs) (fs_current_layer_id fs)"
  have h [simp]: "cow_tenant_id ?h = fs_tenant_id fs" "cow_layer_id ?h = fs_current_layer_id fs"
    "cow_detector ?h = detection_config_default" by (simp_all add: cow_new_def)
  obtain e le n where det: "detect detection_config_default data = Text e le n"
    using assms(6) by (cases "detect detection_config_default data") auto
  have ready: "file_ready (fs_tenant_id fs) (ino_id r) (fs_current_layer_id fs) d"
    using assms(1,2) inode_in_table [OF assms(4)]
    by (auto simp: file_ready_def fs_ok_def writable_layer_def layer_get_def dest!: find_SomeD)
  have "exists_row (\<lambda>m. meta_key m = (fs_tenant_id fs, ino_id r, fs_current_layer_id fs)) (d_text_meta d)"
    using assms(7) by (auto simp: text_content_def exists_row_def Let_def split: option.splits dest: find_SomeD)
  then have "fst (text_tail x (fs_tenant_id fs) (ino_id r) (fs_current_layer_id fs) ls e le b d) = Inl UniqueViolation" for ls b
    using ready line_ending_valid [of le] by (auto simp: text_tail_def bindE_def text_create_metadata_def file_ready_def Let_def exists_row_def meta_key_def)
  then have "fst (cow_write_file x ?h (ino_id r) data None d) = Inl UniqueViolation"
    by (simp add: cow_write_file_def det cow_write_text_file_eq fst_bindE_Inl)
  then show ?thesis
    using assms(3,4,5,7)
    by (auto simp: fs_write_file_def bindE_def fs_resolve_path_eq read_internal_eq okE_def db_err_apply
        split: prod.splits sum.splits)
qed

text \<open>
  \<open>chmod\<close> and \<open>chown\<close> change exactly the mode, or the owner and the group, and the
  change time of the inode at the path; with an unknown path they change nothing.
\<close>

theorem chmod_chown_outcome:
  assumes "fs_ok fs d" and "normalize_path path = Inr q"
  shows "case tree fs d (path_parts path) of
      None \<Rightarrow> fs_chmod fs path m d = (Inl (PathNotFound q), d) \<and> fs_chown fs path u g d = (Inl (PathNotFound q), d)
    | Some r \<Rightarrow>
        (\<exists>d'. fs_chmod fs path m d = (Inr (), d') \<and>
          tree fs d' = (tree fs d)(path_parts path \<mapsto> r\<lparr>ino_mode := m, ino_ctime := d_clock d\<rparr>)) \<and>
        (\<exists>d'. fs_chown fs path u g d = (Inr (), d') \<and>
          tree fs d' = (tree fs d)(path_parts path \<mapsto> r\<lparr>ino_uid := u, ino_gid := g, ino_ctime := d_clock d\<rparr>))"
proof (cases "tree fs d (path_parts path)")
  case None
  then show ?thesis by (simp add: fs_chmod_def fs_chown_def fs_resolve_path_eq assms(2) bindE_def)
next
  case (Some r)
  let ?d1 = "d\<lparr>d_clock := Suc (d_clock d)\<rparr>"
  have "wf_db ?d1" using preservesD [OF preserves_wf_now fs_ok_wf [OF assms(1)]] by (simp add: now_def)
  then have ok1: "fs_ok fs ?d1" using assms(1) by (simp add: fs_ok_def)
  have tree1: "tree fs ?d1 = tree fs d" by (rule tree_cong) simp
  then have "tree fs ?d1 (path_parts path) = Some r" using Some by simp
  note upd = tree_inode_update [OF ok1 this, unfolded tree1]
  let ?um = "no_update\<lparr>ui_mode := Some m, ui_ctime := Some (d_clock d)\<rparr>"
  let ?uo = "no_update\<lparr>ui_uid := Some u, ui_gid := Some g, ui_ctime := Some (d_clock d)\<rparr>"
  obtain d2 where "inode_update (fs_tenant_id fs) (ino_id r) ?um ?d1 = (Inr (apply_update ?um r), d2)"
    "tree fs d2 = (tree fs d)(path_parts path \<mapsto> apply_update ?um r)"
    using upd [of ?um] by (auto simp: no_updates_def)
  moreover obtain d3 where "inode_update (fs_tenant_id fs) (ino_id r) ?uo ?d1 = (Inr (apply_update ?uo r), d3)"
    "tree fs d3 = (tree fs d)(path_parts path \<mapsto> apply_update ?uo r)"
    using upd [of ?uo] by (auto simp: no_updates_def)
  ultimately show ?thesis
    using Some
    by (simp add: fs_chmod_def fs_chown_def fs_resolve_path_eq assms(2) bindE_def now_def db_err_apply
        apply_update_def no_update_def)
qed

section \<open>Instances\<close>

lemma example_file_drawn: "ids_drawn example_file_db"
  unfolding example_file_db_def fs_create_file_def by (rule preservesD [OF drawn_fs(1) example_ids])

lemma example_file_writable: "writable_layer example_fs example_file_db"
proof -
  have "find (\<lambda>c. tcl_tenant_id c = 0) (d_current example_file_db) = Some \<lparr>tcl_tenant_id = 0, tcl_layer_id = 1, tcl_updated_at = 2\<rparr>"
    "map_option ly_is_readonly (find (\<lambda>r. ly_tenant_id r = 0 \<and> ly_id r = 1) (d_layers example_file_db)) = Some False"
    by code_simp+
  then show ?thesis
    by (auto simp: writable_layer_def layer_get_current_layer_def layer_get_def example_fs_def simp del: find_None_conv)
qed

lemma example_hi: "is_text (detect detection_config_default ''hi'')" "from_utf8_lossy ''hi'' = ''hi''"
  "lines ''hi'' = [''hi'']" "crlf_to_lf ''hi'' = ''hi''"
proof -
  show "from_utf8_lossy ''hi'' = ''hi''" by (rule lossy_valid) code_simp
  show "lines ''hi'' = [''hi'']" by code_simp
  show "crlf_to_lf ''hi'' = ''hi''" by code_simp
  show "is_text (detect detection_config_default ''hi'')" by (simp add: detect_hi)
qed

lemma example_file_store: "store_ok example_ext {''hi''} example_file_db"
proof -
  have "d_text_blocks example_file_db = []" by code_simp
  then show ?thesis
    using fs_ok_wf [OF example_file_ok] by (simp add: store_ok_def addressed_def example_ext_def)
qed

lemma example_file_no_text: "d_text_meta example_file_db = []" by code_simp

theorem write_text_then_read_witness:
  "\<exists>d' t. fs_write_file example_ext example_fs ''/f'' ''hi'' example_file_db = (Inr (), d') \<and>
    fs_read_file example_fs ''/f'' d' = (Inr ''hi'', d')"
proof -
  have "text_content 0 2 1 example_file_db \<noteq> Some []"
    by (simp add: text_content_def example_file_no_text)
  then show ?thesis
    using write_text_then_read [OF example_file_ok example_file_drawn example_file_writable example_paths(4), unfolded
      example_paths(5), OF example_file, of "''hi''" example_ext] example_file_store
    by (simp add: example_hi example_fs_def)
      blast
qed

theorem write_binary_then_read_witness:
  "\<exists>d' t. fs_write_file example_ext example_fs ''/f'' [CHR 0x00] example_file_db = (Inr (), d') \<and>
    fs_read_file example_fs ''/f'' d' = (Inr [CHR 0x00], d')"
proof -
  have "text_content 0 2 1 example_file_db = None"
    by (simp add: text_content_def example_file_no_text)
  then show ?thesis
    using write_binary_then_read [OF example_file_ok example_file_drawn example_file_writable example_paths(4), unfolded
      example_paths(5), OF example_file, of "[CHR 0x00]" example_ext]
    by (simp add: detect_nul example_fs_def) blast
qed

theorem chmod_chown_outcome_witness:
  "\<exists>d'. fs_chmod example_fs ''/f'' 384 example_file_db = (Inr (), d') \<and>
     map_option ino_mode (tree example_fs d' [''f'']) = Some 384"
  using chmod_chown_outcome [OF example_file_ok example_paths(4), of 384 0 0] example_file
  unfolding example_paths(5) by fastforce

text \<open>The state after empty data was written to the file.\<close>

definition example_empty_text_db :: db where
  "example_empty_text_db = example_file_db\<lparr>d_text_meta :=
     [\<lparr>tm_tenant_id = 0, tm_inode_id = 2, tm_layer_id = 1, tm_total_lines = 0, tm_encoding = ''UTF-8'',
       tm_line_ending = ''LF'', tm_has_trailing_newline = False, tm_created_at = 4\<rparr>]\<rparr>"

lemma example_empty_text_ok: "fs_ok example_fs example_empty_text_db" by code_simp

lemma example_empty_text: "tree example_fs example_empty_text_db = tree example_fs example_file_db"
  by (rule tree_cong) (simp add: example_empty_text_db_def)

theorem write_after_empty_text_fails_witness:
  "fst (fs_write_file example_ext example_fs ''/f'' ''hi'' example_empty_text_db) =
     Inl (Storage (DbError UniqueViolation))"
proof (rule write_after_empty_text_fails [OF example_empty_text_ok _ example_paths(4)])
  show "writable_layer example_fs example_empty_text_db"
    using example_file_writable by (simp add: writable_layer_def layer_get_current_layer_def layer_get_def
        example_empty_text_db_def del: find_None_conv)
  show "tree example_fs example_empty_text_db (path_parts ''/f'') = Some \<lparr>ino_id = 2, ino_tenant_id = 0,
      ino_parent_id = Some 1, ino_name = ''f'', ino_type = File, ino_mode = 420, ino_uid = 0, ino_gid = 0,
      ino_size = 0, ino_atime = 3, ino_mtime = 3, ino_ctime = 3\<rparr>"
    unfolding example_empty_text example_paths(5) by (rule example_file)
  have "d_text_lines example_file_db = []" by code_simp
  then show "file_text example_fs \<lparr>ino_id = 2, ino_tenant_id = 0,
      ino_parent_id = Some 1, ino_name = ''f'', ino_type = File, ino_mode = 420, ino_uid = 0, ino_gid = 0,
      ino_size = 0, ino_atime = 3, ino_mtime = 3, ino_ctime = 3\<rparr> example_empty_text_db = Some []"
    by (simp add: text_content_def example_empty_text_db_def example_fs_def meta_key_def file_rows_def map_filter_simps)
qed (simp_all add: detect_hi)

end
