(* ===== verification/UnionView.thy ===== *)
theory UnionView
  imports FileContent "HOL-Library.AList"
begin

text \<open>
  The merged view of the files of a tenant over its chain of layers:
  \<open>src/src/layer/union_view.rs\<close>.
\<close>

datatype file_state =
    Exists uuid int
  | Deleted uuid
  | NotFound

fun file_state_exists :: "file_state \<Rightarrow> bool" where
  "file_state_exists (Exists l i) = True"
| "file_state_exists (Deleted l) = False"
| "file_state_exists NotFound = False"

fun file_state_inode_id :: "file_state \<Rightarrow> int option" where
  "file_state_inode_id (Exists l i) = Some i"
| "file_state_inode_id (Deleted l) = None"
| "file_state_inode_id NotFound = None"

fun file_state_layer_id :: "file_state \<Rightarrow> uuid option" where
  "file_state_layer_id (Exists l i) = Some l"
| "file_state_layer_id (Deleted l) = Some l"
| "file_state_layer_id NotFound = None"

record union_view =
  uv_tenant_id :: uuid
  uv_layer_chain :: "layer list"

record directory_entry =
  de_name :: str
  de_inode_id :: int
  de_layer_id :: uuid

record file_version =
  fv_layer_id :: uuid
  fv_layer_name :: str
  fv_change_type :: change_type
  fv_inode_id :: int
  fv_size_delta :: "int option"
  fv_created_at :: timestamp

definition union_from_layer :: "uuid \<Rightarrow> uuid \<Rightarrow> union_view db_op" where
  "union_from_layer t l =
     bindE (layer_get_layer_chain t l) (\<lambda>chain. ret \<lparr>uv_tenant_id = t, uv_layer_chain = chain\<rparr>)"

definition union_from_current :: "uuid \<Rightarrow> union_view option db_op" where
  "union_from_current t =
     bindE (layer_get_current_layer t) (\<lambda>c.
       case c of
         None \<Rightarrow> ret None
       | Some current_layer_id \<Rightarrow> bindE (union_from_layer t current_layer_id) (\<lambda>v. ret (Some v)))"

definition union_current_layer_id :: "union_view \<Rightarrow> uuid option" where
  "union_current_layer_id v = (case uv_layer_chain v of [] \<Rightarrow> None | l # ls \<Rightarrow> Some (ly_id l))"

text \<open>The search goes through the chain from the current layer to the base.\<close>

definition state_of_entry :: "layer \<Rightarrow> layer_entry \<Rightarrow> file_state" where
  "state_of_entry layer e =
     (case le_change_type e of
        Delete \<Rightarrow> Deleted (ly_id layer)
      | Add \<Rightarrow> Exists (ly_id layer) (le_inode_id e)
      | Modify \<Rightarrow> Exists (ly_id layer) (le_inode_id e))"

fun lookup_in_chain :: "uuid \<Rightarrow> str \<Rightarrow> layer list \<Rightarrow> file_state db_op" where
  "lookup_in_chain t path [] = ret NotFound"
| "lookup_in_chain t path (layer # layers) =
     bindE (layer_list_entries t (ly_id layer)) (\<lambda>entries.
       case find (\<lambda>e. le_path e = path) entries of
         Some e \<Rightarrow> ret (state_of_entry layer e)
       | None \<Rightarrow> lookup_in_chain t path layers)"

definition union_lookup_file :: "union_view \<Rightarrow> str \<Rightarrow> file_state db_op" where
  "union_lookup_file v path = lookup_in_chain (uv_tenant_id v) path (uv_layer_chain v)"

text \<open>\<open>rfind\<close> of a character, and the two functions on the path of an entry.\<close>

definition trim_slashes :: "str \<Rightarrow> str" where
  "trim_slashes p = rev (dropWhile (\<lambda>c. c = CHR ''/'') (rev p))"

definition rfind :: "char \<Rightarrow> str \<Rightarrow> nat option" where
  "rfind c s = (if c \<in> set s then Some (length s - Suc (length (takeWhile (\<lambda>x. x \<noteq> c) (rev s)))) else None)"

definition get_parent_path :: "str \<Rightarrow> str option" where
  "get_parent_path p =
     (let path = trim_slashes p in
      if path = [] \<or> path = ''/'' then None
      else case rfind CHR ''/'' path of
        None \<Rightarrow> Some []
      | Some pos \<Rightarrow> if pos = 0 then Some ''/'' else Some (take pos path))"

definition get_filename :: "str \<Rightarrow> str" where
  "get_filename p =
     (let path = trim_slashes p in
      case rfind CHR ''/'' path of
        None \<Rightarrow> path
      | Some pos \<Rightarrow> drop (pos + 1) path)"

text \<open>
  A listing collects the entries from the oldest layer to the newest in a hash map.  The
  association list stands for it; the order of its values is not specified by the library
  and no statement below depends on it.
\<close>

definition list_entry ::
  "str \<Rightarrow> layer \<Rightarrow> layer_entry \<Rightarrow> (str \<times> directory_entry) list \<Rightarrow> (str \<times> directory_entry) list" where
  "list_entry dir_path layer e result_map =
     (case get_parent_path (le_path e) of
        None \<Rightarrow> result_map
      | Some parent \<Rightarrow>
          if parent = dir_path \<or> (dir_path = ''/'' \<and> parent = [])
          then let name = get_filename (le_path e) in
            (case le_change_type e of
               Delete \<Rightarrow> AList.delete name result_map
             | _ \<Rightarrow> AList.update name
                 \<lparr>de_name = name, de_inode_id = le_inode_id e, de_layer_id = ly_id layer\<rparr> result_map)
          else result_map)"

fun list_layers_into ::
  "uuid \<Rightarrow> str \<Rightarrow> layer list \<Rightarrow> (str \<times> directory_entry) list \<Rightarrow> (str \<times> directory_entry) list db_op" where
  "list_layers_into t dir_path [] result_map = ret result_map"
| "list_layers_into t dir_path (layer # layers) result_map =
     bindE (layer_list_entries t (ly_id layer)) (\<lambda>entries.
       list_layers_into t dir_path layers (fold (list_entry dir_path layer) entries result_map))"

definition union_list_directory :: "union_view \<Rightarrow> str \<Rightarrow> directory_entry list db_op" where
  "union_list_directory v dir_path =
     bindE (list_layers_into (uv_tenant_id v) dir_path (rev (uv_layer_chain v)) []) (\<lambda>result_map.
       ret (map snd result_map))"

definition version_of_entry :: "layer \<Rightarrow> layer_entry \<Rightarrow> file_version" where
  "version_of_entry layer e =
     \<lparr>fv_layer_id = ly_id layer, fv_layer_name = ly_name layer, fv_change_type = le_change_type e,
      fv_inode_id = le_inode_id e, fv_size_delta = le_size_delta e, fv_created_at = le_created_at e\<rparr>"

fun history_in_chain :: "uuid \<Rightarrow> str \<Rightarrow> layer list \<Rightarrow> file_version list db_op" where
  "history_in_chain t path [] = ret []"
| "history_in_chain t path (layer # layers) =
     bindE (layer_list_entries t (ly_id layer)) (\<lambda>entries.
     bindE (history_in_chain t path layers) (\<lambda>older.
       ret (map (version_of_entry layer) (filter (\<lambda>e. le_path e = path) entries) @ older)))"

definition union_get_file_history :: "union_view \<Rightarrow> str \<Rightarrow> file_version list db_op" where
  "union_get_file_history v path = history_in_chain (uv_tenant_id v) path (uv_layer_chain v)"

definition union_find_file_layer :: "union_view \<Rightarrow> str \<Rightarrow> uuid option db_op" where
  "union_find_file_layer v path = bindE (union_lookup_file v path) (\<lambda>state. ret (file_state_layer_id state))"

definition union_file_exists :: "union_view \<Rightarrow> str \<Rightarrow> bool db_op" where
  "union_file_exists v path = bindE (union_lookup_file v path) (\<lambda>state. ret (file_state_exists state))"

section \<open>Reading the entries of a layer\<close>

text \<open>The entries of a layer as the view reads them.\<close>

definition entries_of :: "db \<Rightarrow> uuid \<Rightarrow> uuid \<Rightarrow> layer_entry list" where
  "entries_of d t l = sort_key le_created_at (filter (\<lambda>e. le_tenant_id e = t \<and> le_layer_id e = l) (d_entries d))"

lemma bind_list_entries [simp]: "bindE (layer_list_entries t l) f d = f (entries_of d t l) d"
  by (simp add: layer_list_entries_def entries_of_def bindE_def)

lemma find_filter: "find P xs = (case filter P xs of [] \<Rightarrow> None | e # _ \<Rightarrow> Some e)"
  by (induction xs) auto

lemma set_entries_of: "set (entries_of d t l) = {e \<in> set (d_entries d). le_tenant_id e = t \<and> le_layer_id e = l}"
  by (auto simp: entries_of_def)

lemma entry_paths_distinct:
  assumes "wf_db d"
  shows "distinct (map le_path (entries_of d t l))"
proof -
  have "distinct (map entry_key (d_entries d))" using assms by (simp add: wf_db_def wf_layers_def)
  have inj: "inj_on le_path (set (entries_of d t l))"
    using \<open>distinct (map entry_key (d_entries d))\<close>
    unfolding set_entries_of distinct_map inj_on_def entry_key_def by auto
  have "distinct (entries_of d t l)"
    using \<open>distinct (map entry_key (d_entries d))\<close> by (simp add: entries_of_def distinct_map)
  with inj show ?thesis by (simp add: distinct_map)
qed

section \<open>The view as an overlay of maps\<close>

definition layer_map :: "db \<Rightarrow> uuid \<Rightarrow> layer \<Rightarrow> str \<rightharpoonup> file_state" where
  "layer_map d t layer = (\<lambda>path.
     map_option (state_of_entry layer) (find (\<lambda>e. le_path e = path) (entries_of d t (ly_id layer))))"

definition overlay :: "db \<Rightarrow> uuid \<Rightarrow> layer list \<Rightarrow> str \<rightharpoonup> file_state" where
  "overlay d t chain = foldr (\<lambda>layer below. below ++ layer_map d t layer) chain Map.empty"

lemma overlay_simps [simp]:
  "overlay d t [] = Map.empty" "overlay d t (l # ls) = overlay d t ls ++ layer_map d t l"
  by (simp_all add: overlay_def)

lemma lookup_in_chain_eq:
  "lookup_in_chain t path chain d = (Inr (case overlay d t chain path of None \<Rightarrow> NotFound | Some s \<Rightarrow> s), d)"
  by (induction chain)
     (auto simp: layer_map_def map_add_def simp del: find_None_conv split: option.split)


lemma history_in_chain_eq:
  "\<exists>h. history_in_chain t path chain d = (Inr h, d) \<and>
     lookup_in_chain t path chain d =
       (Inr (case h of [] \<Rightarrow> NotFound
             | f # _ \<Rightarrow> (case fv_change_type f of
                 Delete \<Rightarrow> Deleted (fv_layer_id f) | _ \<Rightarrow> Exists (fv_layer_id f) (fv_inode_id f))), d) \<and>
     set (map fv_layer_id h) \<subseteq> set (map ly_id chain)"
proof (induction chain)
  case (Cons l ls)
  then obtain h where h: "history_in_chain t path ls d = (Inr h, d)" "set (map fv_layer_id h) \<subseteq> set (map ly_id ls)"
    "lookup_in_chain t path ls d =
       (Inr (case h of [] \<Rightarrow> NotFound
             | f # _ \<Rightarrow> (case fv_change_type f of
                 Delete \<Rightarrow> Deleted (fv_layer_id f) | _ \<Rightarrow> Exists (fv_layer_id f) (fv_inode_id f))), d)" by blast
  let ?here = "filter (\<lambda>e. le_path e = path) (entries_of d t (ly_id l))"
  show ?case
    using h by (cases ?here)
      (auto simp: find_filter bindE_Inr [where m = "history_in_chain t path ls", OF h(1)] version_of_entry_def state_of_entry_def split: change_type.split)
qed simp

text \<open>
  The history of a path and the lookup agree: the history lists versions of layers of the
  chain only, and the newest one decides what the lookup answers; a path without history is
  not found.
\<close>

theorem history_decides_lookup:
  "\<exists>h. union_get_file_history v path d = (Inr h, d) \<and>
     union_lookup_file v path d =
       (Inr (case h of [] \<Rightarrow> NotFound
             | f # _ \<Rightarrow> (case fv_change_type f of
                 Delete \<Rightarrow> Deleted (fv_layer_id f) | _ \<Rightarrow> Exists (fv_layer_id f) (fv_inode_id f))), d) \<and>
     set (map fv_layer_id h) \<subseteq> set (map ly_id (uv_layer_chain v))"
  using history_in_chain_eq [of "uv_tenant_id v" path "uv_layer_chain v" d]
  by (simp add: union_get_file_history_def union_lookup_file_def)

section \<open>Paths of entries\<close>

lemma trim_slashes_id: "p \<noteq> [] \<Longrightarrow> last p \<noteq> CHR ''/'' \<Longrightarrow> trim_slashes p = p"
  by (cases p rule: rev_cases) (simp_all add: trim_slashes_def)

lemma rfind_append: "c \<notin> set q \<Longrightarrow> rfind c (p @ c # q) = Some (length p)"
proof -
  assume "c \<notin> set q"
  then have "takeWhile (\<lambda>x. x \<noteq> c) (rev q @ c # rev p) = rev q"
    by (subst takeWhile_append2) auto
  then show ?thesis by (simp add: rfind_def)
qed

lemma spell_snoc: "spell (cs @ [c]) = (if cs = [] then ''/'' @ c else spell cs @ ''/'' @ c)"
proof -
  have "cs \<noteq> [] \<Longrightarrow> join ''/'' (cs @ [c]) = join ''/'' cs @ ''/'' @ c"
    by (induction "''/''" cs rule: join.induct) (auto simp: join_Cons)
  then show ?thesis by (simp add: spell_def)
qed

lemma spell_single [simp]: "spell [c] = CHR ''/'' # c"
  by (simp add: spell_def)

lemma parent_and_name_of_spell:
  assumes "c \<noteq> []" "CHR ''/'' \<notin> set c"
  shows "get_parent_path (spell (cs @ [c])) = Some (spell cs)" "get_filename (spell (cs @ [c])) = c"
proof -
  have last: "last c \<noteq> CHR ''/''" using assms by (metis last_in_set)
  then have trim: "trim_slashes (spell (cs @ [c])) = spell (cs @ [c])"
    using assms(1) by (intro trim_slashes_id) (auto simp: spell_snoc)
  have rf: "rfind CHR ''/'' (spell (cs @ [c])) = Some (if cs = [] then 0 else length (spell cs))"
    using rfind_append [OF assms(2), of "[]"] rfind_append [OF assms(2), of "spell cs"] by (simp add: spell_snoc)
  have s: "spell cs \<noteq> []" by (simp add: spell_def)
  have ne: "spell (cs @ [c]) \<noteq> []" "spell (cs @ [c]) \<noteq> ''/''"
    using assms(1) s by (auto simp: spell_snoc append_eq_Cons_conv)
  show "get_parent_path (spell (cs @ [c])) = Some (spell cs)"
    using ne s by (auto simp: get_parent_path_def trim rf Let_def) (auto simp: spell_snoc)
  show "get_filename (spell (cs @ [c])) = c"
    by (simp add: get_filename_def trim rf) (auto simp: spell_snoc)
qed

lemma root_has_no_parent: "get_parent_path ''/'' = None"
  by (simp add: get_parent_path_def trim_slashes_def)

lemma spell_inj:
  "good_parts cs \<Longrightarrow> good_parts ds \<Longrightarrow> spell cs = spell ds \<longleftrightarrow> cs = ds"
  using path_parts_spell good_parts_clean by metis

section \<open>Listings\<close>

definition canonical :: "str \<Rightarrow> bool" where
  "canonical p \<longleftrightarrow> normalize_path p = Inr p"

lemma canonical_iff: "canonical p \<longleftrightarrow> (\<exists>cs. good_parts cs \<and> p = spell cs)"
proof
  assume "canonical p"
  then have "normalize_path p = Inr p" by (simp only: canonical_def)
  then show "\<exists>cs. good_parts cs \<and> p = spell cs" using normalize_path_InrD by blast
next
  assume "\<exists>cs. good_parts cs \<and> p = spell cs"
  then obtain cs where "good_parts cs" "p = spell cs" by blast
  then show "canonical p" using normalize_path_spell [of cs] by (simp add: canonical_def)
qed

text \<open>What one entry, and then one layer, does to the collected map.\<close>

definition listed :: "layer \<Rightarrow> layer_entry \<Rightarrow> str \<Rightarrow> directory_entry option" where
  "listed layer e n = (if le_change_type e = Delete then None
     else Some \<lparr>de_name = n, de_inode_id = le_inode_id e, de_layer_id = ly_id layer\<rparr>)"

lemma list_entry_map:
  assumes "canonical (le_path e)" and "good_parts ds" and "good_parts (ds @ [n])"
  shows "map_of (list_entry (spell ds) layer e m) n =
     (if le_path e = spell (ds @ [n]) then listed layer e n else map_of m n)"
proof -
  obtain cs where cs: "good_parts cs" "le_path e = spell cs" using assms(1) by (auto simp: canonical_iff)
  show ?thesis
  proof (cases cs rule: rev_cases)
    case Nil
    then have "le_path e \<noteq> spell (ds @ [n])" using cs(2) spell_inj [OF cs(1) assms(3)] by auto
    with Nil cs show ?thesis by (simp add: list_entry_def root_has_no_parent)
  next
    case (snoc xs c)
    have c: "c \<noteq> []" "CHR ''/'' \<notin> set c" using good_parts_clean [OF cs(1)] snoc by auto
    have xs: "good_parts xs" using good_parts_butlast [OF cs(1)] snoc by simp
    have "spell xs \<noteq> []" by (simp add: spell_def)
    moreover have "spell xs = spell ds \<longleftrightarrow> xs = ds" by (rule spell_inj [OF xs assms(2)])
    moreover have "spell (xs @ [c]) = spell (ds @ [n]) \<longleftrightarrow> xs = ds \<and> c = n"
      using spell_inj [OF cs(1)] assms(3) snoc by simp
    ultimately show ?thesis
      using snoc cs(2) parent_and_name_of_spell [OF c, of xs]
      by (auto simp: list_entry_def listed_def Let_def update_conv' delete_conv' split: change_type.split)
  qed
qed

lemma fold_list_entry_map:
  assumes "\<forall>e \<in> set es. canonical (le_path e)" and "distinct (map le_path es)"
    and "good_parts ds" and "good_parts (ds @ [n])"
  shows "map_of (fold (list_entry (spell ds) layer) es m) n =
     (case find (\<lambda>e. le_path e = spell (ds @ [n])) es of None \<Rightarrow> map_of m n | Some e \<Rightarrow> listed layer e n)"
  using assms(1,2)
proof (induction es arbitrary: m)
  case (Cons e es)
  have "find (\<lambda>e. le_path e = spell (ds @ [n])) es = None" if "le_path e = spell (ds @ [n])"
    using that Cons.prems(2) by (force simp: find_None_iff)
  with Cons list_entry_map [OF _ assms(3,4), of e layer m] show ?case
    by (auto simp: simp del: find_None_conv split: option.split)
qed simp

text \<open>The map keeps one value per name, filed under its own name, and names make paths.\<close>

definition map_ok :: "str list \<Rightarrow> (str \<times> directory_entry) list \<Rightarrow> bool" where
  "map_ok ds m \<longleftrightarrow> distinct (map fst m) \<and> (\<forall>(n, e) \<in> set m. de_name e = n \<and> good_parts (ds @ [n]))"

lemma set_alist_update: "set (AList.update k v al) \<subseteq> insert (k, v) (set al)"
  by (induction al) auto

lemma set_alist_delete: "set (AList.delete k al) \<subseteq> set al"
  by (induction al) auto

lemma list_entry_ok:
  assumes "canonical (le_path e)" and "good_parts ds" and "map_ok ds m"
  shows "map_ok ds (list_entry (spell ds) layer e m)"
proof -
  obtain cs where cs: "good_parts cs" "le_path e = spell cs" using assms(1) by (auto simp: canonical_iff)
  show ?thesis
  proof (cases cs rule: rev_cases)
    case Nil
    with cs assms(3) show ?thesis by (simp add: list_entry_def root_has_no_parent)
  next
    case (snoc xs c)
    have c: "c \<noteq> []" "CHR ''/'' \<notin> set c" using good_parts_clean [OF cs(1)] snoc by auto
    have xs: "good_parts xs" using good_parts_butlast [OF cs(1)] snoc by simp
    have ne: "spell xs \<noteq> []" by (simp add: spell_def)
    have eq: "spell xs = spell ds \<longleftrightarrow> xs = ds" by (rule spell_inj [OF xs assms(2)])
    have upd: "map_ok ds (AList.update c v m)" if "xs = ds" "de_name v = c" for v
      using assms(3) that cs(1) snoc set_alist_update [of c v m]
      unfolding map_ok_def by (fastforce intro: distinct_update)
    have del: "map_ok ds (AList.delete c m)"
      using assms(3) set_alist_delete [of c m] unfolding map_ok_def by (fastforce intro: distinct_delete)
    show ?thesis
      using upd del assms(3) snoc cs(2) ne eq parent_and_name_of_spell [OF c, of xs]
      by (auto simp: list_entry_def Let_def split: change_type.split)
  qed
qed

lemma list_layers_into_eq:
  "list_layers_into t p ls m d =
     (Inr (fold (\<lambda>l. fold (list_entry p l) (entries_of d t (ly_id l))) ls m), d)"
  by (induction ls arbitrary: m) simp_all

text \<open>The map after the layers from the base up to the newest one.\<close>

definition collected :: "db \<Rightarrow> uuid \<Rightarrow> str \<Rightarrow> layer list \<Rightarrow> (str \<times> directory_entry) list" where
  "collected d t p ls = fold (\<lambda>l. fold (list_entry p l) (entries_of d t (ly_id l))) (rev ls) []"

lemma collected_simps [simp]:
  "collected d t p [] = []"
  "collected d t p (l # ls) = fold (list_entry p l) (entries_of d t (ly_id l)) (collected d t p ls)"
  by (simp_all add: collected_def)

lemma list_directory_eq:
  "union_list_directory v p d = (Inr (map snd (collected d (uv_tenant_id v) p (uv_layer_chain v))), d)"
  by (simp add: union_list_directory_def bindE_Inr [OF list_layers_into_eq] collected_def)

lemma listing_map:
  assumes "wf_db d" and canon: "\<forall>e \<in> set (d_entries d). canonical (le_path e)" and ds: "good_parts ds"
  shows "map_ok ds (collected d t (spell ds) ls)"
    and "good_parts (ds @ [n]) \<Longrightarrow> map_of (collected d t (spell ds) ls) n =
      (case overlay d t ls (spell (ds @ [n])) of
         Some (Exists l i) \<Rightarrow> Some \<lparr>de_name = n, de_inode_id = i, de_layer_id = l\<rparr> | _ \<Rightarrow> None)"
proof -
  have canon: "\<forall>e \<in> set (entries_of d t k). canonical (le_path e)" for k
    using canon by (auto simp: set_entries_of)
  have ok: "map_ok ds (fold (list_entry (spell ds) l) es m)"
    if "\<forall>e \<in> set es. canonical (le_path e)" "map_ok ds m" for es m l
    using that by (induction es arbitrary: m) (auto intro: list_entry_ok [OF _ ds])
  show "map_ok ds (collected d t (spell ds) ls)"
    by (induction ls) (auto simp: map_ok_def [of _ "[]"] intro!: ok canon)
  assume n: "good_parts (ds @ [n])"
  show "map_of (collected d t (spell ds) ls) n =
      (case overlay d t ls (spell (ds @ [n])) of
         Some (Exists l i) \<Rightarrow> Some \<lparr>de_name = n, de_inode_id = i, de_layer_id = l\<rparr> | _ \<Rightarrow> None)"
  proof (induction ls)
    case (Cons l ls)
    have "map_of (collected d t (spell ds) (l # ls)) n =
        (case find (\<lambda>e. le_path e = spell (ds @ [n])) (entries_of d t (ly_id l)) of
           None \<Rightarrow> map_of (collected d t (spell ds) ls) n | Some e \<Rightarrow> listed l e n)"
      using fold_list_entry_map [OF canon entry_paths_distinct [OF assms(1)] ds n] by simp
    with Cons.IH show ?case
      by (auto simp: layer_map_def listed_def state_of_entry_def map_add_def simp del: find_None_conv
          split: option.split change_type.split)
  qed simp
qed

text \<open>
  C16.  Listings and lookups agree: when the recorded paths are in normal form, the listing of a
  directory has one entry for each file directly inside it that a lookup finds, with the inode
  and the layer the lookup reports, and no other entry; in particular no tombstone and no entry
  hidden by a newer layer shows up.
\<close>

theorem listing_agrees_with_lookup:
  assumes "wf_db d" and "list_all (\<lambda>e. canonical (le_path e)) (d_entries d)" and "canonical dir"
  shows "\<exists>es. union_list_directory v dir d = (Inr es, d) \<and> distinct (map de_name es) \<and>
    set es = {\<lparr>de_name = n, de_inode_id = i, de_layer_id = l\<rparr> | n i l.
      good_parts (path_parts dir @ [n]) \<and>
      union_lookup_file v (spell (path_parts dir @ [n])) d = (Inr (Exists l i), d)}"
proof -
  let ?t = "uv_tenant_id v" and ?ls = "uv_layer_chain v" and ?ds = "path_parts dir"
  have dir: "good_parts ?ds" "dir = spell ?ds"
    using assms(3) normalize_path_InrD [of dir dir] by (simp_all only: canonical_def)
  let ?m = "collected d ?t (spell ?ds) ?ls"
  have canon: "\<forall>e \<in> set (d_entries d). canonical (le_path e)" using assms(2) by (simp add: list_all_iff)
  note m = listing_map [OF assms(1) canon dir(1), where t = ?t and ls = ?ls]
  have lookup: "overlay d ?t ?ls p = Some (Exists l i) \<longleftrightarrow> union_lookup_file v p d = (Inr (Exists l i), d)" for p l i
    by (simp add: union_lookup_file_def lookup_in_chain_eq split: option.split)
  have dist: "distinct (map fst ?m)" and keys: "\<And>n e. (n, e) \<in> set ?m \<Longrightarrow> de_name e = n \<and> good_parts (?ds @ [n])"
    using m(1) by (auto simp: map_ok_def)
  have entry: "(n, e) \<in> set ?m \<longleftrightarrow> good_parts (?ds @ [n]) \<and> (\<exists>l i. e = \<lparr>de_name = n, de_inode_id = i, de_layer_id = l\<rparr> \<and>
      union_lookup_file v (spell (?ds @ [n])) d = (Inr (Exists l i), d))" for n e
  proof -
    have "(n, e) \<in> set ?m \<longleftrightarrow> good_parts (?ds @ [n]) \<and> map_of ?m n = Some e"
      using keys map_of_eq_Some_iff [OF dist] by blast
    then show ?thesis
      unfolding lookup [symmetric] by (auto simp: m(2) split: option.splits file_state.splits)
  qed
  have run: "union_list_directory v dir d = (Inr (map snd ?m), d)"
    by (subst dir(2)) (rule list_directory_eq)
  have names: "map de_name (map snd ?m) = map fst ?m" using keys by auto
  have "distinct (map de_name (map snd ?m))" unfolding names by (rule dist)
  moreover have "set (map snd ?m) = {\<lparr>de_name = n, de_inode_id = i, de_layer_id = l\<rparr> | n i l.
      good_parts (?ds @ [n]) \<and> union_lookup_file v (spell (?ds @ [n])) d = (Inr (Exists l i), d)}"
  proof (rule set_eqI)
    fix e
    have "e \<in> set (map snd ?m) \<longleftrightarrow> (\<exists>n. (n, e) \<in> set ?m)" by force
    then show "e \<in> set (map snd ?m) \<longleftrightarrow> e \<in> {\<lparr>de_name = n, de_inode_id = i, de_layer_id = l\<rparr> | n i l.
      good_parts (?ds @ [n]) \<and> union_lookup_file v (spell (?ds @ [n])) d = (Inr (Exists l i), d)}"
      unfolding entry by blast
  qed
  ultimately show ?thesis using run by (intro exI [of _ "map snd ?m"]) simp
qed

section \<open>Changes show up in the view\<close>

lemma view_of_current:
  assumes "layers_ok d" and "layer_get_current_layer t d = (Inr (Some l), d)"
  shows "\<exists>r c. union_from_current t d = (Inr (Some \<lparr>uv_tenant_id = t, uv_layer_chain = r # c\<rparr>), d) \<and> ly_id r = l"
proof -
  obtain r where r: "layer_get t l d = (Inr (Some r), d)"
    using current_at_layer [OF assms] by blast
  have wf: "wf_db d" "layer_inv d" using assms(1) by (simp_all add: layers_ok_def)
  from r have r': "r \<in> set (d_layers d)" "ly_tenant_id r = t" "ly_id r = l"
    using layer_get_iff [OF wf(1)] by blast+
  from layer_chain_exists [OF wf r'(1)] obtain c where "layer_get_layer_chain t l d = (Inr (r # c), d)"
    by (auto simp: r'(2,3))
  then have "union_from_layer t l d = (Inr \<lparr>uv_tenant_id = t, uv_layer_chain = r # c\<rparr>, d)"
    by (simp add: union_from_layer_def bindE_def)
  with assms(2) r'(3) show ?thesis
    by (intro exI [of _ r] exI [of _ c]) (simp add: union_from_current_def bindE_def)
qed

definition entries_owned :: "db \<Rightarrow> bool" where
  "entries_owned d \<longleftrightarrow> list_all (\<lambda>e. (le_layer_id e, le_tenant_id e) \<in> layer_ref ` set (d_layers d)) (d_entries d)"

lemma add_entry_visible:
  assumes "layer_add_entry inp d = (Inr e, d')"
    and "\<forall>q \<in> set (d_entries d). le_layer_id q = ce_layer_id inp \<longrightarrow> le_tenant_id q = ce_tenant_id inp"
  shows "\<exists>q \<in> set (d_entries d'). le_layer_id q = ce_layer_id inp \<and> le_path q = ce_path inp \<and>
      le_change_type q = ce_change_type inp \<and> le_tenant_id q = ce_tenant_id inp"
    and "map layer_shape (d_layers d') = map layer_shape (d_layers d)" and "d_current d' = d_current d"
proof -
  let ?upd = "\<lambda>e. e\<lparr>le_change_type := ce_change_type inp, le_size_delta := ce_size_delta inp,
      le_text_changes := ce_text_changes inp, le_created_at := d_clock d\<rparr>"
  consider (old) old where "find (\<lambda>e. entry_key e = (ce_layer_id inp, ce_path inp)) (d_entries d) = Some old"
      "d_entries d' = update_rows (\<lambda>e. entry_key e = (ce_layer_id inp, ce_path inp)) ?upd (d_entries d)"
    | (new) q where "d_entries d' = d_entries d @ [q]" "le_layer_id q = ce_layer_id inp" "le_path q = ce_path inp"
      "le_change_type q = ce_change_type inp" "le_tenant_id q = ce_tenant_id inp"
    using assms(1) by (auto simp: layer_add_entry_def bindE_def new_v4_def now_def Let_def simp del: find_None_conv
        split: if_splits option.splits)
  then show "\<exists>q \<in> set (d_entries d'). le_layer_id q = ce_layer_id inp \<and> le_path q = ce_path inp \<and>
      le_change_type q = ce_change_type inp \<and> le_tenant_id q = ce_tenant_id inp"
  proof cases
    case (old old)
    then have o: "old \<in> set (d_entries d)" "entry_key old = (ce_layer_id inp, ce_path inp)"
      by (auto dest: find_SomeD)
    then have "?upd old \<in> set (d_entries d')"
      unfolding old(2) update_rows_def set_map by (intro image_eqI [OF _ o(1)]) simp
    with o assms(2) show ?thesis by (intro bexI [of _ "?upd old"]) (auto simp: entry_key_def)
  qed auto
  show "map layer_shape (d_layers d') = map layer_shape (d_layers d)" "d_current d' = d_current d"
    using assms(1) by (auto simp: layer_add_entry_def bindE_def new_v4_def now_def Let_def simp del: find_None_conv
        split: if_splits option.splits)
qed

lemma overlay_top:
  assumes "wf_db d" and "q \<in> set (d_entries d)" "le_tenant_id q = t" "le_layer_id q = ly_id r"
  shows "overlay d t (r # c) (le_path q) = Some (state_of_entry r q)"
proof -
  have q: "q \<in> set (entries_of d t (ly_id r))" using assms(2-4) by (simp add: set_entries_of)
  have "find (\<lambda>e. le_path e = le_path q) (entries_of d t (ly_id r)) = Some q"
    by (rule find_keyed [OF entry_paths_distinct [OF assms(1)] q]) simp_all
  then show ?thesis by (simp add: layer_map_def)
qed

text \<open>
  C17.  A recorded change is what the union view of the current layer shows for its path: a
  tombstone in that layer after a recorded deletion, a file of that layer otherwise, whatever
  older layers hold.
\<close>

theorem recorded_change_visible:
  assumes "layers_ok d" and "entries_owned d" and "lm_record_change t i path change delta changes d = (Inr (), d')"
  shows "\<exists>v l. layer_get_current_layer t d' = (Inr (Some l), d') \<and> union_from_current t d' = (Inr (Some v), d') \<and>
    (\<exists>j. union_lookup_file v path d' = (Inr (if change = Delete then Deleted l else Exists l j), d'))"
proof -
  have wf: "wf_db d" using assms(1) by (simp add: layers_ok_def)
  from assms(3) obtain l r e where cur: "layer_get_current_layer t d = (Inr (Some l), d)"
    and r: "layer_get t l d = (Inr (Some r), d)"
    and add: "layer_add_entry \<lparr>ce_layer_id = l, ce_tenant_id = t, ce_inode_id = i, ce_path = path,
                   ce_change_type = change, ce_size_delta = delta, ce_text_changes = changes\<rparr> d = (Inr e, d')"
    by (auto simp: lm_record_change_def bindE_eq_Inr storage_apply layer_get_current_layer_def layer_get_def ok_or_def
        simp del: find_None_conv split: option.splits if_splits sum.splits prod.splits)
  have lt: "r \<in> set (d_layers d)" "ly_tenant_id r = t" "ly_id r = l"
    using r layer_get_iff [OF wf] by blast+
  have owned: "le_tenant_id q = t" if "q \<in> set (d_entries d)" "le_layer_id q = l" for q
  proof -
    have "(l, le_tenant_id q) \<in> layer_ref ` set (d_layers d)"
      using assms(2) that by (auto simp: entries_owned_def list_all_iff)
    then obtain r' where r': "r' \<in> set (d_layers d)" "ly_id r' = l" "ly_tenant_id r' = le_tenant_id q"
      by (auto simp: layer_ref_def)
    have "distinct (map ly_id (d_layers d))" using wf by (simp add: wf_db_def wf_layers_def)
    then have "r' = r" using r' lt by (simp add: distinct_map inj_on_def)
    with r' lt show ?thesis by simp
  qed
  from add_entry_visible [OF add] owned obtain q where q: "q \<in> set (d_entries d')" "le_layer_id q = l" "le_path q = path"
      "le_change_type q = change" "le_tenant_id q = t"
    and frame: "d_current d' = d_current d" by auto
  have ok': "layers_ok d'"
    using preservesD [OF preserves_layers_ok_add_entry assms(1)] add by (metis snd_conv)
  have cur': "layer_get_current_layer t d' = (Inr (Some l), d')"
    using cur frame by (simp add: layer_get_current_layer_def)
  from view_of_current [OF ok' cur'] obtain r' c where
    v: "union_from_current t d' = (Inr (Some \<lparr>uv_tenant_id = t, uv_layer_chain = r' # c\<rparr>), d')" "ly_id r' = l" by blast
  have "wf_db d'" using ok' by (simp add: layers_ok_def)
  from overlay_top [OF this q(1,5)] q(2,3) v(2)
  have "overlay d' t (r' # c) path = Some (state_of_entry r' q)" by simp
  then have "union_lookup_file \<lparr>uv_tenant_id = t, uv_layer_chain = r' # c\<rparr> path d' = (Inr (state_of_entry r' q), d')"
    unfolding union_lookup_file_def lookup_in_chain_eq by simp
  moreover have "state_of_entry r' q = (if change = Delete then Deleted l else Exists l (le_inode_id q))"
    using q(4) v(2) by (cases change) (auto simp: state_of_entry_def)
  ultimately show ?thesis using cur' v(1) by (intro exI conjI) auto
qed

text \<open>A database with one recorded file.\<close>

definition example_entry_db :: db where
  "example_entry_db = snd (lm_record_change 0 2 ''/f'' Add (Some 2) None example_file_db)"

lemma example_entry_ok: "layers_ok example_entry_db" by code_simp

lemma example_entry_db_eq: "lm_record_change 0 2 ''/f'' Add (Some 2) None example_file_db = (Inr (), example_entry_db)"
proof -
  have "case fst (lm_record_change 0 2 ''/f'' Add (Some 2) None example_file_db) of Inl _ \<Rightarrow> False | Inr _ \<Rightarrow> True"
    by code_simp
  then show ?thesis
    by (cases "lm_record_change 0 2 ''/f'' Add (Some 2) None example_file_db") (auto simp: example_entry_db_def split: sum.splits)
qed

theorem recorded_change_visible_witness:
  "\<exists>v l. layer_get_current_layer 0 example_entry_db = (Inr (Some l), example_entry_db) \<and>
    union_from_current 0 example_entry_db = (Inr (Some v), example_entry_db) \<and>
    (\<exists>j. union_lookup_file v ''/f'' example_entry_db = (Inr (Exists l j), example_entry_db))"
proof -
  have "layers_ok example_file_db" by code_simp
  moreover have "entries_owned example_file_db" by code_simp
  ultimately show ?thesis using recorded_change_visible [OF _ _ example_entry_db_eq] by simp
qed

theorem listing_agrees_with_lookup_witness:
  "\<exists>es. union_list_directory \<lparr>uv_tenant_id = 0, uv_layer_chain = d_layers example_entry_db\<rparr> ''/'' example_entry_db =
      (Inr es, example_entry_db) \<and> distinct (map de_name es)"
proof -
  have "wf_db example_entry_db" using example_entry_ok by (simp add: layers_ok_def)
  moreover have "list_all (\<lambda>e. canonical (le_path e)) (d_entries example_entry_db)" by code_simp
  moreover have "canonical ''/''" by code_simp
  ultimately show ?thesis using listing_agrees_with_lookup by blast
qed

end
