(* ===== verification/Resolver.thy ===== *)
theory Resolver
  imports Models "HOL-Library.Sublist"
begin

text \<open>
  Which mount of a tenant serves a path, and where its data lives:
  \<open>src/src/composition/resolver.rs\<close>.  The first section is the part of \<open>std::path\<close> that the
  resolver uses, on Unix: a path is its text, two paths are equal when their components are, and
  \<open>starts_with\<close> and \<open>strip_prefix\<close> compare components.
\<close>

section \<open>Paths of the standard library\<close>

datatype path_component = RootDir | CurDir | ParentDir | Normal str

text \<open>
  Repeated separators and inner \<open>.\<close> are skipped; a leading separator is \<open>RootDir\<close>, a leading
  \<open>.\<close> is \<open>CurDir\<close>.
\<close>

definition start_dir :: "str \<Rightarrow> path_component option" where
  "start_dir p =
     (if starts_with ''/'' p then Some RootDir
      else if p = ''.'' \<or> starts_with ''./'' p then Some CurDir
      else None)"

definition path_body :: "str \<Rightarrow> str" where
  "path_body p = (case start_dir p of None \<Rightarrow> p | Some _ \<Rightarrow> tl p)"

definition significant :: "str \<Rightarrow> bool" where
  "significant s \<longleftrightarrow> s \<noteq> [] \<and> s \<noteq> ''.''"

definition piece_component :: "str \<Rightarrow> path_component" where
  "piece_component s = (if s = ''..'' then ParentDir else Normal s)"

definition body_comps :: "str list \<Rightarrow> path_component list" where
  "body_comps ps = map piece_component (filter significant ps)"

definition path_comps :: "str \<Rightarrow> path_component list" where
  "path_comps p =
     (case start_dir p of None \<Rightarrow> [] | Some c \<Rightarrow> [c]) @ body_comps (split_on CHR ''/'' (path_body p))"

definition path_eq :: "str \<Rightarrow> str \<Rightarrow> bool" where
  "path_eq p q \<longleftrightarrow> path_comps p = path_comps q"

definition path_starts_with :: "str \<Rightarrow> str \<Rightarrow> bool" where
  "path_starts_with p base \<longleftrightarrow> prefix (path_comps base) (path_comps p)"

text \<open>
  What \<open>Components\<close> still holds, as a path, after \<open>k\<close> components have been taken: separators
  and \<open>.\<close> are trimmed at its ends.
\<close>

fun drop_comps :: "nat \<Rightarrow> str list \<Rightarrow> str list" where
  "drop_comps 0 ps = ps"
| "drop_comps (Suc k) [] = []"
| "drop_comps (Suc k) (p # ps) = (if significant p then drop_comps k ps else drop_comps (Suc k) ps)"

definition trim_left :: "str list \<Rightarrow> str list" where
  "trim_left ps = dropWhile (\<lambda>p. \<not> significant p) ps"

definition trim_right :: "str list \<Rightarrow> str list" where
  "trim_right ps = rev (trim_left (rev ps))"

definition rest_after :: "nat \<Rightarrow> str \<Rightarrow> str" where
  "rest_after k p =
     (let pieces = split_on CHR ''/'' (path_body p) in
      if k = 0 then take (length p - length (path_body p)) p @ join ''/'' (trim_right pieces)
      else join ''/'' (trim_right (trim_left
             (drop_comps (k - (case start_dir p of None \<Rightarrow> 0 | Some _ \<Rightarrow> 1)) pieces))))"

definition path_strip_prefix :: "str \<Rightarrow> str \<Rightarrow> str option" where
  "path_strip_prefix p base =
     (if path_starts_with p base then Some (rest_after (length (path_comps base)) p) else None)"

definition path_join :: "str \<Rightarrow> str \<Rightarrow> str" where
  "path_join base p =
     (if starts_with ''/'' p then p
      else if base \<noteq> [] \<and> last base \<noteq> CHR ''/'' then base @ ''/'' @ p
      else base @ p)"

section \<open>The resolver\<close>

datatype resolved_source =
    ResolvedHost str
  | ResolvedLayer uuid uuid str
  | ResolvedWorkingLayer str

record resolved_path =
  rs_mount_entry :: mount_entry
  rs_relative_path :: str
  rs_source :: resolved_source

text \<open>The errors, which the code builds as messages that quote the paths.\<close>

datatype resolve_error =
    PathExists str
  | NestedUnder str str
  | NestsExisting str str
  | ResolutionError
  | NoMountFound str

definition uuid_nil :: uuid where
  "uuid_nil = 0"

fun validate_no_conflict :: "mount_entry list \<Rightarrow> str \<Rightarrow> bool \<Rightarrow> resolve_error + unit" where
  "validate_no_conflict [] new_path is_file = Inr ()"
| "validate_no_conflict (e # existing) new_path is_file =
     (if path_eq (me_virtual_path e) new_path then Inl (PathExists new_path)
      else if \<not> is_file \<and> \<not> me_is_file e \<and> path_starts_with new_path (me_virtual_path e)
        then Inl (NestedUnder new_path (me_virtual_path e))
      else if \<not> is_file \<and> \<not> me_is_file e \<and> path_starts_with (me_virtual_path e) new_path
        then Inl (NestsExisting (me_virtual_path e) new_path)
      else validate_no_conflict existing new_path is_file)"

fun longest_match :: "str \<Rightarrow> mount_entry list \<Rightarrow> mount_entry option \<Rightarrow> nat \<Rightarrow> mount_entry option" where
  "longest_match path [] best_match best_match_len = best_match"
| "longest_match path (m # mounts) best_match best_match_len =
     (if \<not> me_is_file m \<and> path_starts_with path (me_virtual_path m) \<and>
         best_match_len < length (me_virtual_path m)
      then longest_match path mounts (Some m) (length (me_virtual_path m))
      else longest_match path mounts best_match best_match_len)"

definition find_mount :: "mount_entry list \<Rightarrow> str \<Rightarrow> resolve_error + mount_entry" where
  "find_mount mounts path =
     (case find (\<lambda>m. me_is_file m \<and> path_eq (me_virtual_path m) path) mounts of
        Some m \<Rightarrow> Inr m
      | None \<Rightarrow> (case longest_match path mounts None 0 of
          None \<Rightarrow> Inl (NoMountFound path)
        | Some m \<Rightarrow> Inr m))"

definition below_subpath :: "str option \<Rightarrow> str \<Rightarrow> str" where
  "below_subpath subpath relative_path =
     (case subpath of Some sub \<Rightarrow> path_join sub relative_path | None \<Rightarrow> relative_path)"

definition resolve_source :: "mount_entry \<Rightarrow> str \<Rightarrow> resolved_source" where
  "resolve_source m relative_path =
     (case me_source m of
        Host host_path \<Rightarrow>
          ResolvedHost (if me_is_file m then host_path else path_join host_path relative_path)
      | Layer source_mount_id layer_id subpath \<Rightarrow>
          ResolvedLayer uuid_nil (case layer_id of None \<Rightarrow> uuid_nil | Some l \<Rightarrow> l)
            (below_subpath subpath relative_path)
      | Published publish_name subpath \<Rightarrow>
          ResolvedLayer uuid_nil uuid_nil (below_subpath subpath relative_path)
      | WorkingLayer \<Rightarrow> ResolvedWorkingLayer relative_path)"

definition resolve_path :: "mount_entry list \<Rightarrow> str \<Rightarrow> resolve_error + resolved_path" where
  "resolve_path mounts path =
     (case find_mount mounts path of
        Inl e \<Rightarrow> Inl e
      | Inr m \<Rightarrow>
          (case (if me_is_file m then Some [] else path_strip_prefix path (me_virtual_path m)) of
             None \<Rightarrow> Inl ResolutionError
           | Some relative_path \<Rightarrow>
               Inr \<lparr>rs_mount_entry = m, rs_relative_path = relative_path,
                    rs_source = resolve_source m relative_path\<rparr>))"

section \<open>Lemmas on paths\<close>

lemma body_comps_simps [simp]:
  "body_comps [] = []"
  "body_comps (p # ps) = (if significant p then piece_component p # body_comps ps else body_comps ps)"
  "body_comps (ps @ qs) = body_comps ps @ body_comps qs"
  by (simp_all add: body_comps_def)

lemma body_comps_drop: "body_comps (drop_comps k ps) = drop k (body_comps ps)"
  by (induction k ps rule: drop_comps.induct) auto

lemma body_comps_trim_left [simp]: "body_comps (trim_left ps) = body_comps ps"
  unfolding trim_left_def by (induction ps) auto

lemma body_comps_rev: "body_comps (rev ps) = rev (body_comps ps)"
  by (induction ps) auto

lemma body_comps_trim_right [simp]: "body_comps (trim_right ps) = body_comps ps"
  by (simp add: trim_right_def body_comps_rev)

lemma set_drop_comps: "set (drop_comps k ps) \<subseteq> set ps"
  by (induction k ps rule: drop_comps.induct) auto

lemma set_trim_left: "set (trim_left ps) \<subseteq> set ps"
  by (auto simp: trim_left_def dest: set_dropWhileD)

lemma set_trim_right: "set (trim_right ps) \<subseteq> set ps"
  using set_trim_left [of "rev ps"] by (simp add: trim_right_def)

lemma trim_right_prefix: "prefix (trim_right ps) ps"
  by (metis prefix_def rev_append rev_rev_ident takeWhile_dropWhile_id trim_left_def trim_right_def)

lemma hd_trim_left: "trim_left ps \<noteq> [] \<Longrightarrow> significant (hd (trim_left ps))"
  unfolding trim_left_def using hd_dropWhile [of "\<lambda>p. \<not> significant p" ps] by simp

lemma hd_trimmed:
  assumes "trim_right (trim_left ps) \<noteq> []"
  shows "significant (hd (trim_right (trim_left ps)))"
proof -
  from trim_right_prefix [of "trim_left ps"] assms
  have "hd (trim_right (trim_left ps)) = hd (trim_left ps)" "trim_left ps \<noteq> []"
    by (auto simp: prefix_def) (metis hd_append)
  with hd_trim_left show ?thesis by metis
qed

lemma start_dir_None_iff:
  "start_dir p = None \<longleftrightarrow> hd (split_on CHR ''/'' p) \<noteq> ''.'' \<and> (p = [] \<or> hd p \<noteq> CHR ''/'')"
proof (cases p)
  case (Cons c r)
  show ?thesis
    by (cases r; cases "split_on CHR ''/'' r")
       (auto simp: Cons start_dir_def starts_with_def split: list.splits)
qed (simp add: start_dir_def starts_with_def)

lemma path_comps_joined:
  assumes "\<forall>p \<in> set ts. CHR ''/'' \<notin> set p" and "ts \<noteq> [] \<Longrightarrow> significant (hd ts)"
  shows "path_comps (join ''/'' ts) = body_comps ts"
proof (cases "ts = []")
  case True
  then show ?thesis by (simp add: path_comps_def start_dir_def path_body_def starts_with_def significant_def)
next
  case False
  let ?r = "join ''/'' ts"
  from False assms(1) have s: "split_on CHR ''/'' ?r = ts" by (intro split_on_join) auto
  obtain t us where ts: "ts = t # us" using False by (cases ts) auto
  with assms(2) have t: "significant t" by simp
  then obtain c u where tc: "t = c # u" by (cases t) (auto simp: significant_def)
  with assms(1) ts have "c \<noteq> CHR ''/''" by auto
  moreover have "hd ?r = c" using ts tc by (cases us) auto
  ultimately have "start_dir ?r = None"
    using t ts s by (simp add: start_dir_None_iff significant_def del: join.simps)
  then show ?thesis by (simp add: path_comps_def path_body_def s)
qed

lemma path_comps_rest_after:
  assumes "k \<noteq> 0"
  shows "path_comps (rest_after k p) = drop k (path_comps p)"
proof -
  let ?ps = "split_on CHR ''/'' (path_body p)"
  let ?j = "k - (case start_dir p of None \<Rightarrow> 0 | Some _ \<Rightarrow> 1)"
  let ?ts = "trim_right (trim_left (drop_comps ?j ?ps))"
  have "set ?ts \<subseteq> set ?ps"
    using set_trim_right set_trim_left set_drop_comps by (meson order_trans)
  then have "\<forall>q \<in> set ?ts. CHR ''/'' \<notin> set q" by (blast dest: split_on_no_sep)
  then have "path_comps (join ''/'' ?ts) = body_comps ?ts"
    by (rule path_comps_joined) (rule hd_trimmed)
  also have "\<dots> = drop ?j (body_comps ?ps)" by (simp add: body_comps_drop)
  also have "\<dots> = drop k (path_comps p)"
    using assms by (cases "start_dir p"; cases k) (simp_all add: path_comps_def)
  finally show ?thesis using assms by (simp add: rest_after_def Let_def)
qed

lemma path_comps_eq_Nil: "path_comps p = [] \<Longrightarrow> p = []"
proof (rule ccontr)
  assume c: "path_comps p = []" and "p \<noteq> []"
  then obtain c r where p: "p = c # r" by (cases p) auto
  from c have n: "start_dir p = None" by (simp add: path_comps_def split: option.splits)
  then have b: "path_body p = p" by (simp add: path_body_def)
  from n p have h: "hd (split_on CHR ''/'' p) \<noteq> ''.''" "c \<noteq> CHR ''/''"
    using start_dir_None_iff [of p] by (simp_all del: split_on.simps)
  then have "hd (split_on CHR ''/'' p) \<noteq> ''.''" by blast
  moreover have "hd (split_on CHR ''/'' p) \<noteq> []"
    using h(2) unfolding p by (cases "split_on CHR ''/'' r") auto
  ultimately have "significant (hd (split_on CHR ''/'' p))" by (simp add: significant_def)
  then have "body_comps (split_on CHR ''/'' p) \<noteq> []"
    by (cases "split_on CHR ''/'' p") auto
  with c n b show False by (simp add: path_comps_def)
qed

lemma path_starts_with_refl [simp]: "path_starts_with p p"
  by (simp add: path_starts_with_def)

lemma strip_prefix_comps:
  assumes "path_starts_with p base" and "base \<noteq> []"
  shows "\<exists>r. path_strip_prefix p base = Some r \<and> path_comps p = path_comps base @ path_comps r"
proof -
  from assms(2) path_comps_eq_Nil have "length (path_comps base) \<noteq> 0" by auto
  from path_comps_rest_after [OF this, of p] assms(1) show ?thesis
    by (auto simp: path_strip_prefix_def path_starts_with_def prefix_def)
qed

section \<open>Conflicts between mounts\<close>

text \<open>
  Two mounts overlap when they name the same path, or when both are directories and some path
  lies below both.
\<close>

definition overlap :: "bool \<Rightarrow> str \<Rightarrow> bool \<Rightarrow> str \<Rightarrow> bool" where
  "overlap f p g q \<longleftrightarrow> path_eq p q \<or> (\<not> f \<and> \<not> g \<and> (\<exists>r. path_starts_with r p \<and> path_starts_with r q))"

lemma overlap_code [code]:
  "overlap f p g q \<longleftrightarrow>
     path_eq p q \<or> (\<not> f \<and> \<not> g \<and> (path_starts_with p q \<or> path_starts_with q p))"
  unfolding overlap_def path_starts_with_def path_eq_def
  by (metis prefix_order.refl prefix_same_cases)

lemma overlap_sym: "overlap f p g q \<longleftrightarrow> overlap g q f p"
  by (auto simp: overlap_def path_eq_def)

lemma validate_no_conflict_code:
  "validate_no_conflict existing new_path is_file = Inr () \<longleftrightarrow>
     list_all (\<lambda>e. \<not> overlap (me_is_file e) (me_virtual_path e) is_file new_path) existing"
  by (induction existing) (auto simp: overlap_code)

text \<open>
  C20.  A new mount is accepted exactly when it overlaps none of the existing ones.
\<close>

theorem validate_no_conflict_exact:
  "validate_no_conflict existing new_path is_file = Inr () \<longleftrightarrow>
     list_all (\<lambda>e. \<not> overlap (me_is_file e) (me_virtual_path e) is_file new_path) existing"
  by (rule validate_no_conflict_code)

definition compatible :: "mount_entry \<Rightarrow> mount_entry \<Rightarrow> bool" where
  "compatible a b \<longleftrightarrow> \<not> overlap (me_is_file a) (me_virtual_path a) (me_is_file b) (me_virtual_path b)"

text \<open>The lists of mounts that the validation lets arise, one mount after the other.\<close>

fun validated :: "mount_entry list \<Rightarrow> bool" where
  "validated [] \<longleftrightarrow> True"
| "validated (m # existing) \<longleftrightarrow>
     validate_no_conflict existing (me_virtual_path m) (me_is_file m) = Inr () \<and> validated existing"

lemma compatible_sym: "compatible a b \<longleftrightarrow> compatible b a"
  by (simp add: compatible_def overlap_sym)

lemma not_compatible_self [simp]: "\<not> compatible m m"
  by (simp add: compatible_def overlap_def path_eq_def)

lemma validated_iff: "validated ms \<longleftrightarrow> distinct ms \<and> pairwise compatible (set ms)"
proof (induction ms)
  case (Cons m ms)
  have "validate_no_conflict ms (me_virtual_path m) (me_is_file m) = Inr () \<longleftrightarrow>
      (\<forall>e \<in> set ms. compatible m e)"
    unfolding validate_no_conflict_code list_all_iff compatible_def
    by (auto simp: overlap_sym)
  with Cons.IH show ?case
    by (auto simp: pairwise_insert compatible_sym)
qed simp

section \<open>Which mount serves a path\<close>

lemma longest_match_cases:
  fixes ms path
  defines "dirs \<equiv> {m \<in> set ms. \<not> me_is_file m \<and> path_starts_with path (me_virtual_path m)}"
  shows "(longest_match path ms best n = best \<and> (\<forall>m \<in> dirs. length (me_virtual_path m) \<le> n)) \<or>
    (\<exists>m \<in> dirs. longest_match path ms best n = Some m \<and> n < length (me_virtual_path m) \<and>
       (\<forall>m' \<in> dirs. length (me_virtual_path m') \<le> length (me_virtual_path m)))"
  unfolding dirs_def
proof (induction ms arbitrary: best n)
  case (Cons m ms)
  show ?case
  proof (cases "\<not> me_is_file m \<and> path_starts_with path (me_virtual_path m) \<and> n < length (me_virtual_path m)")
    case True
    then have "longest_match path (m # ms) best n = longest_match path ms (Some m) (length (me_virtual_path m))"
      by simp
    with True Cons.IH [of "Some m" "length (me_virtual_path m)"] show ?thesis
      by (elim disjE) (force intro!: disjI2 bexI [of _ m], force intro!: disjI2)
  next
    case False
    then have "longest_match path (m # ms) best n = longest_match path ms best n" by auto
    with False Cons.IH [of best n] show ?thesis
      by (elim disjE) (force intro!: disjI1, force intro!: disjI2)
  qed
qed simp

text \<open>A directory mount that can serve a path: one with an empty virtual path never does.\<close>

definition serves :: "str \<Rightarrow> mount_entry \<Rightarrow> bool" where
  "serves path m \<longleftrightarrow> \<not> me_is_file m \<and> me_virtual_path m \<noteq> [] \<and> path_starts_with path (me_virtual_path m)"

definition names_file :: "str \<Rightarrow> mount_entry \<Rightarrow> bool" where
  "names_file path m \<longleftrightarrow> me_is_file m \<and> path_eq (me_virtual_path m) path"

lemma longest_match_None:
  "longest_match path ms None 0 = None \<longleftrightarrow> \<not> (\<exists>m \<in> set ms. serves path m)"
  using longest_match_cases [of path ms None 0] by (fastforce simp: serves_def)

lemma longest_match_Some:
  assumes "longest_match path ms None 0 = Some m"
  shows "m \<in> set ms" and "serves path m"
    and "\<And>m'. m' \<in> set ms \<Longrightarrow> serves path m' \<Longrightarrow> length (me_virtual_path m') \<le> length (me_virtual_path m)"
  using longest_match_cases [of path ms None 0] assms by (auto simp: serves_def)

lemma find_mount_cases:
  obtains (file_mount) m where "find_mount ms path = Inr m" "m \<in> set ms" "names_file path m"
  | (dir_mount) m where "find_mount ms path = Inr m" "m \<in> set ms" "serves path m"
      "\<not> (\<exists>f \<in> set ms. names_file path f)"
      "\<And>m'. m' \<in> set ms \<Longrightarrow> serves path m' \<Longrightarrow> length (me_virtual_path m') \<le> length (me_virtual_path m)"
  | (no_mount) "find_mount ms path = Inl (NoMountFound path)"
      "\<not> (\<exists>m \<in> set ms. serves path m \<or> names_file path m)"
proof -
  have f: "find (\<lambda>m. me_is_file m \<and> path_eq (me_virtual_path m) path) ms = find (names_file path) ms"
    by (rule find_cong_set) (simp add: names_file_def)
  show thesis
  proof (cases "find (names_file path) ms")
    case (Some m)
    with find_SomeD [OF Some] f file_mount show thesis by (simp add: find_mount_def)
  next
    case None
    then have nf: "\<not> (\<exists>f \<in> set ms. names_file path f)" by simp
    show thesis
    proof (cases "longest_match path ms None 0")
      case None
      then have "\<not> (\<exists>m \<in> set ms. serves path m)" by (rule iffD1 [OF longest_match_None])
      moreover have "find_mount ms path = Inl (NoMountFound path)"
        using None \<open>find (names_file path) ms = None\<close> f by (simp add: find_mount_def del: find_None_conv)
      ultimately show thesis using no_mount nf by blast
    next
      case (Some m)
      with \<open>find (names_file path) ms = None\<close> f have "find_mount ms path = Inr m"
        by (simp add: find_mount_def del: find_None_conv)
      from dir_mount [OF this] longest_match_Some [OF Some] nf show thesis by blast
    qed
  qed
qed


lemma validated_one_server:
  assumes "validated ms" "a \<in> set ms" "b \<in> set ms"
    and "serves path a \<and> serves path b \<or> names_file path a \<and> names_file path b"
  shows "a = b"
proof (rule ccontr)
  assume "a \<noteq> b"
  with assms(1-3) have "compatible a b" by (auto simp: validated_iff pairwise_def)
  with assms(4) show False
    by (auto simp: compatible_def overlap_def serves_def names_file_def path_eq_def)
qed

text \<open>
  C19.  On mounts that were validated one after the other the answer does not depend on the order
  in which they are listed.
\<close>

theorem resolve_order_independent:
  assumes "validated ms" and "set ms' = set ms"
  shows "resolve_path ms' path = resolve_path ms path"
proof -
  note one = validated_one_server [OF assms(1), of _ _ path]
  have "find_mount ms' path = find_mount ms path"
  proof (cases rule: find_mount_cases [of ms path])
    case (file_mount m)
    show ?thesis
      by (cases rule: find_mount_cases [of ms' path]) (use file_mount one assms(2) in auto)
  next
    case (dir_mount m)
    show ?thesis
      by (cases rule: find_mount_cases [of ms' path]) (use dir_mount one assms(2) in auto)
  next
    case no_mount
    show ?thesis
      by (cases rule: find_mount_cases [of ms' path]) (use no_mount assms(2) in auto)
  qed
  then show ?thesis by (simp add: resolve_path_def)
qed

definition example_mount :: "nat \<Rightarrow> str \<Rightarrow> bool \<Rightarrow> mount_entry" where
  "example_mount i path is_file =
     \<lparr>me_id = i, me_tenant_id = 0, me_name = path, me_virtual_path = path, me_source = Host ''/data'',
      me_mode = ReadOnly, me_is_file = is_file, me_enabled = True, me_current_layer_id = None,
      me_metadata = None, me_created_at = 0, me_updated_at = 0\<rparr>"

theorem resolve_order_independent_witness:
  "resolve_path [example_mount 1 ''/a'' False, example_mount 2 ''/a/f'' True] ''/a/x'' =
   resolve_path [example_mount 2 ''/a/f'' True, example_mount 1 ''/a'' False] ''/a/x''"
proof (rule resolve_order_independent)
  show "validated [example_mount 2 ''/a/f'' True, example_mount 1 ''/a'' False]" by code_simp
qed auto

end
