(* ===== verification/Mounts.thy ===== *)
theory Mounts
  imports Resolver Fresh
begin

text \<open>
  The repository of mount entries: \<open>src/src/storage/mount_entry.rs\<close>, on the table of
  \<open>src/migrations/20260129230626_create_mount_entries.sql\<close>.  An \<open>anyhow!\<close> message is the error
  \<open>Message\<close>.
\<close>

section \<open>Rows and entries\<close>

text \<open>The columns of a source: type, host path, source mount, layer, subpath and publish name.\<close>

fun source_columns ::
  "mount_source \<Rightarrow> str \<times> str option \<times> uuid option \<times> uuid option \<times> str option \<times> str option" where
  "source_columns (Host path) = (''host'', Some path, None, None, None, None)"
| "source_columns (Layer source_mount_id layer_id subpath) =
     (''layer'', None, Some source_mount_id, layer_id, subpath, None)"
| "source_columns (Published publish_name subpath) =
     (''published'', None, None, None, subpath, Some publish_name)"
| "source_columns WorkingLayer = (''working_layer'', None, None, None, None, None)"

text \<open>A column that is NULL cannot be read as a value that is not optional.\<close>

definition column :: "'a option \<Rightarrow> db_error + 'a" where
  "column c = (case c of None \<Rightarrow> Inl DecodeError | Some v \<Rightarrow> Inr v)"

definition source_of_row :: "mount_row \<Rightarrow> db_error + mount_source" where
  "source_of_row r =
     (if mr_source_type r = ''host'' then map_sum id Host (column (mr_host_path r))
      else if mr_source_type r = ''layer'' then
        map_sum id (\<lambda>m. Layer m (mr_source_layer_id r) (mr_source_subpath r)) (column (mr_source_mount_id r))
      else if mr_source_type r = ''published'' then
        map_sum id (\<lambda>n. Published n (mr_source_subpath r)) (column (mr_source_publish_name r))
      else if mr_source_type r = ''working_layer'' then Inr WorkingLayer
      else Inl (Message (''Unknown source type: '' @ mr_source_type r)))"

definition row_to_mount_entry :: "ext \<Rightarrow> mount_row \<Rightarrow> db_error + mount_entry" where
  "row_to_mount_entry x r =
     (case (decode_timestamp x (mr_created_at r), decode_timestamp x (mr_updated_at r)) of
        (Some created_at, Some updated_at) \<Rightarrow>
          (case source_of_row r of
             Inl e \<Rightarrow> Inl e
           | Inr source \<Rightarrow>
               (case parse_mode (mr_mode r) of
                  None \<Rightarrow> Inl (Message (''Invalid mode: '' @ mr_mode r))
                | Some mode \<Rightarrow>
                    Inr \<lparr>me_id = mr_id r, me_tenant_id = mr_tenant_id r, me_name = mr_name r,
                         me_virtual_path = mr_virtual_path r, me_source = source, me_mode = mode,
                         me_is_file = mr_is_file r, me_enabled = mr_enabled r,
                         me_current_layer_id = mr_current_layer_id r, me_metadata = mr_metadata r,
                         me_created_at = created_at, me_updated_at = updated_at\<rparr>))
      | _ \<Rightarrow> Inl DecodeError)"

fun decode_rows :: "('r \<Rightarrow> db_error + 'a) \<Rightarrow> 'r list \<Rightarrow> db_error + 'a list" where
  "decode_rows f [] = Inr []"
| "decode_rows f (r # rs) =
     (case f r of Inl e \<Rightarrow> Inl e | Inr a \<Rightarrow> map_sum id (Cons a) (decode_rows f rs))"

definition decode_optional :: "('r \<Rightarrow> db_error + 'a) \<Rightarrow> 'r option \<Rightarrow> db_error + 'a option" where
  "decode_optional f r = (case r of None \<Rightarrow> Inr None | Some r \<Rightarrow> map_sum id Some (f r))"

section \<open>Queries\<close>

definition mount_get :: "ext \<Rightarrow> uuid \<Rightarrow> mount_entry option db_op" where
  "mount_get x m = (\<lambda>d.
     (decode_optional (row_to_mount_entry x) (find (\<lambda>r. mr_id r = m) (d_mounts d)), d))"

definition mount_get_by_name :: "ext \<Rightarrow> uuid \<Rightarrow> str \<Rightarrow> mount_entry option db_op" where
  "mount_get_by_name x t n = (\<lambda>d.
     (decode_optional (row_to_mount_entry x)
        (find (\<lambda>r. mr_tenant_id r = t \<and> mr_name r = n) (d_mounts d)), d))"

definition mount_get_by_path :: "ext \<Rightarrow> uuid \<Rightarrow> str \<Rightarrow> mount_entry option db_op" where
  "mount_get_by_path x t p = (\<lambda>d.
     (decode_optional (row_to_mount_entry x)
        (find (\<lambda>r. mr_tenant_id r = t \<and> mr_virtual_path r = p) (d_mounts d)), d))"

definition mount_list :: "ext \<Rightarrow> uuid \<Rightarrow> mount_entry list db_op" where
  "mount_list x t = (\<lambda>d.
     (decode_rows (row_to_mount_entry x)
        (sort_by (\<lambda>a b. collate_le x (mr_name a) (mr_name b))
           (filter (\<lambda>r. mr_tenant_id r = t) (d_mounts d))), d))"

definition mount_check_path_conflict :: "ext \<Rightarrow> uuid \<Rightarrow> str \<Rightarrow> bool \<Rightarrow> uuid option \<Rightarrow> bool db_op" where
  "mount_check_path_conflict x t path is_file exclude_id =
     bindE (mount_list x t) (\<lambda>existing.
       let filtered = (case exclude_id of
             None \<Rightarrow> existing
           | Some m \<Rightarrow> filter (\<lambda>e. me_id e \<noteq> m) existing)
       in ret (case validate_no_conflict filtered path is_file of Inr _ \<Rightarrow> False | Inl _ \<Rightarrow> True))"

section \<open>Changes\<close>

definition quoted :: "str \<Rightarrow> str" where
  "quoted s = CHR 0x27 # s @ [CHR 0x27]"

text \<open>The row that the insertion binds, and the constraints it has to meet.\<close>

definition mount_row_of :: "uuid \<Rightarrow> uuid \<Rightarrow> create_mount_entry \<Rightarrow> timestamp \<Rightarrow> mount_row" where
  "mount_row_of i t input time =
     (case source_columns (cm_source input) of
        (source_type, host_path, source_mount_id, source_layer_id, source_subpath, source_publish_name) \<Rightarrow>
          \<lparr>mr_id = i, mr_tenant_id = t, mr_name = cm_name input, mr_virtual_path = cm_virtual_path input,
           mr_is_file = cm_is_file input, mr_source_type = source_type, mr_host_path = host_path,
           mr_source_mount_id = source_mount_id, mr_source_layer_id = source_layer_id,
           mr_source_subpath = source_subpath, mr_source_publish_name = source_publish_name,
           mr_current_layer_id = None, mr_mode = mode_as_str (cm_mode input), mr_enabled = True,
           mr_metadata = cm_metadata input, mr_created_at = time, mr_updated_at = time\<rparr>)"

definition valid_source :: "mount_row \<Rightarrow> bool" where
  "valid_source r \<longleftrightarrow>
     (mr_source_type r = ''host'' \<and> mr_host_path r \<noteq> None) \<or>
     (mr_source_type r = ''layer'' \<and> mr_source_mount_id r \<noteq> None) \<or>
     (mr_source_type r = ''published'' \<and> mr_source_publish_name r \<noteq> None) \<or>
     mr_source_type r = ''working_layer''"

definition mount_row_error :: "db \<Rightarrow> mount_row \<Rightarrow> db_error option" where
  "mount_row_error d r =
     (if \<not> varchar 255 (mr_name r) \<or> (case mr_source_publish_name r of None \<Rightarrow> False | Some n \<Rightarrow> \<not> varchar 255 n)
        then Some ValueTooLong
      else if \<not> valid_source r \<or> mr_mode r \<notin> {''ro'', ''rw'', ''cow''} then Some CheckViolation
      else if exists_row (\<lambda>m. mr_id m = mr_id r) (d_mounts d) then Some UniqueViolation
      else if exists_row (\<lambda>m. mount_name_key m = mount_name_key r) (d_mounts d) then Some UniqueViolation
      else if exists_row (\<lambda>m. mount_path_key m = mount_path_key r) (d_mounts d) then Some UniqueViolation
      else if \<not> exists_row (\<lambda>t. tn_id t = mr_tenant_id r) (d_tenants d) then Some ForeignKeyViolation
      else if (case mr_source_mount_id r of None \<Rightarrow> False
               | Some s \<Rightarrow> s \<noteq> mr_id r \<and> \<not> exists_row (\<lambda>m. mr_id m = s) (d_mounts d))
        then Some ForeignKeyViolation
      else None)"

definition insert_mount_row :: "mount_row \<Rightarrow> unit db_op" where
  "insert_mount_row r = (\<lambda>d.
     case mount_row_error d r of
       Some e \<Rightarrow> (Inl e, d)
     | None \<Rightarrow> (Inr (), d\<lparr>d_mounts := d_mounts d @ [r]\<rparr>))"

definition mount_entry_of :: "uuid \<Rightarrow> uuid \<Rightarrow> create_mount_entry \<Rightarrow> timestamp \<Rightarrow> timestamp \<Rightarrow> mount_entry" where
  "mount_entry_of i t input created updated =
     \<lparr>me_id = i, me_tenant_id = t, me_name = cm_name input, me_virtual_path = cm_virtual_path input,
      me_source = cm_source input, me_mode = cm_mode input, me_is_file = cm_is_file input,
      me_enabled = True, me_current_layer_id = None, me_metadata = cm_metadata input,
      me_created_at = created, me_updated_at = updated\<rparr>"

definition insert_mount :: "uuid \<Rightarrow> create_mount_entry \<Rightarrow> mount_entry db_op" where
  "insert_mount t input =
     bindE new_v4 (\<lambda>mount_entry_id. bindE now (\<lambda>time.
     bindE (insert_mount_row (mount_row_of mount_entry_id t input time)) (\<lambda>_.
       ret (mount_entry_of mount_entry_id t input time time))))"

definition mount_create :: "ext \<Rightarrow> uuid \<Rightarrow> create_mount_entry \<Rightarrow> mount_entry db_op" where
  "mount_create x t input =
     bindE (mount_check_path_conflict x t (cm_virtual_path input) (cm_is_file input) None) (\<lambda>conflict.
       if conflict
       then raise (Message (''MountPathConflict: path '' @ quoted (cm_virtual_path input) @
                   '' conflicts with existing mounts''))
       else insert_mount t input)"

definition apply_mount_update :: "update_mount_entry \<Rightarrow> timestamp \<Rightarrow> mount_row \<Rightarrow> mount_row" where
  "apply_mount_update u time r =
     r\<lparr>mr_mode := (case um_mode u of None \<Rightarrow> mr_mode r | Some m \<Rightarrow> mode_as_str m),
       mr_enabled := (case um_enabled u of None \<Rightarrow> mr_enabled r | Some b \<Rightarrow> b),
       mr_metadata := (case um_metadata u of None \<Rightarrow> mr_metadata r | Some j \<Rightarrow> Some j),
       mr_updated_at := time\<rparr>"

definition mount_update :: "ext \<Rightarrow> uuid \<Rightarrow> update_mount_entry \<Rightarrow> mount_entry db_op" where
  "mount_update x m u =
     bindE now (\<lambda>time d.
       case find (\<lambda>r. mr_id r = m) (d_mounts d) of
         None \<Rightarrow> (Inl RowNotFound, d)
       | Some r \<Rightarrow> (row_to_mount_entry x (apply_mount_update u time r),
                   d\<lparr>d_mounts := update_rows (\<lambda>r. mr_id r = m) (apply_mount_update u time) (d_mounts d)\<rparr>))"

definition mount_delete :: "uuid \<Rightarrow> bool db_op" where
  "mount_delete m = bindE (delete_mounts (\<lambda>r. mr_id r = m)) (\<lambda>n. ret (0 < n))"

text \<open>
  \<open>set_mount_entries\<close> replaces all mounts of a tenant: the new ones are first validated against
  each other (on temporary entries, which take an identifier and two times each), then one
  transaction deletes the old ones and inserts the new ones.
\<close>

definition show_resolve_error :: "resolve_error \<Rightarrow> str" where
  "show_resolve_error e =
     (case e of
        PathExists p \<Rightarrow> ''MountPathConflict: path '' @ quoted p @ '' already exists''
      | NestedUnder p q \<Rightarrow> ''MountPathConflict: path '' @ quoted p @ '' is nested under existing mount '' @ quoted q
      | NestsExisting p q \<Rightarrow> ''MountPathConflict: existing mount '' @ quoted p @ '' is nested under new path '' @ quoted q
      | ResolutionError \<Rightarrow> ''Path resolution error''
      | NoMountFound p \<Rightarrow> ''No mount entry found for path '' @ quoted p)"

fun validate_entries :: "uuid \<Rightarrow> mount_entry list \<Rightarrow> create_mount_entry list \<Rightarrow> unit db_op" where
  "validate_entries t temp [] = ret ()"
| "validate_entries t temp (entry # entries) =
     bindE (lift_res (map_sum (\<lambda>e. Message (show_resolve_error e)) id
              (validate_no_conflict temp (cm_virtual_path entry) (cm_is_file entry)))) (\<lambda>_.
     bindE new_v4 (\<lambda>i. bindE now (\<lambda>created. bindE now (\<lambda>updated.
       validate_entries t (temp @ [mount_entry_of i t entry created updated]) entries))))"

definition mount_set_entries :: "uuid \<Rightarrow> create_mount_entry list \<Rightarrow> mount_entry list db_op" where
  "mount_set_entries t entries =
     bindE (validate_entries t [] entries) (\<lambda>_.
       transaction
         (bindE (delete_mounts (\<lambda>r. mr_tenant_id r = t)) (\<lambda>_. mapE (insert_mount t) entries)))"

section \<open>Decoding\<close>

lemma row_to_mount_entry_of:
  "row_to_mount_entry x (mount_row_of i t input time) =
     (case decode_timestamp x time of
        None \<Rightarrow> Inl DecodeError
      | Some s \<Rightarrow> Inr (mount_entry_of i t input s s))"
  by (cases "cm_source input")
     (simp_all add: row_to_mount_entry_def mount_row_of_def source_of_row_def column_def mount_entry_of_def
       split: option.split)

lemma row_to_mount_entry_InrD:
  assumes "row_to_mount_entry x r = Inr e"
  shows "me_id e = mr_id r" "me_tenant_id e = mr_tenant_id r" "me_name e = mr_name r"
    "me_virtual_path e = mr_virtual_path r" "me_is_file e = mr_is_file r"
  using assms by (auto simp: row_to_mount_entry_def split: option.splits sum.splits)

lemma row_to_mount_entry_no_time:
  "decode_timestamp x (mr_created_at r) = None \<Longrightarrow> row_to_mount_entry x r = Inl DecodeError"
  by (simp add: row_to_mount_entry_def)

lemma decode_rows_Inr: "decode_rows f rs = Inr es \<longleftrightarrow> list_all2 (\<lambda>r e. f r = Inr e) rs es"
proof (induction rs arbitrary: es)
  case (Cons r rs)
  then show ?case by (cases es) (auto simp: map_sum_eq_Inr split: sum.splits)
qed auto

lemma decode_rows_Inl: "r \<in> set rs \<Longrightarrow> f r = Inl e \<Longrightarrow> \<exists>e'. decode_rows f rs = Inl e'"
  by (induction rs) (auto split: sum.splits)

section \<open>The constraints hold after every operation\<close>

lemma mount_row_error_None:
  "mount_row_error d r = None \<longleftrightarrow>
     varchar 255 (mr_name r) \<and> (\<forall>n. mr_source_publish_name r = Some n \<longrightarrow> varchar 255 n) \<and>
     valid_source r \<and> mr_mode r \<in> {''ro'', ''rw'', ''cow''} \<and>
     mr_id r \<notin> mr_id ` set (d_mounts d) \<and>
     mount_name_key r \<notin> mount_name_key ` set (d_mounts d) \<and>
     mount_path_key r \<notin> mount_path_key ` set (d_mounts d) \<and>
     mr_tenant_id r \<in> tn_id ` set (d_tenants d) \<and>
     (\<forall>s. mr_source_mount_id r = Some s \<longrightarrow> s = mr_id r \<or> s \<in> mr_id ` set (d_mounts d))"
proof -
  have img: "exists_row (\<lambda>m. f m = v) xs \<longleftrightarrow> v \<in> f ` set xs" for f :: "'x \<Rightarrow> 'y" and v xs
    by (auto simp: image_iff)
  show ?thesis
    unfolding mount_row_error_def img by (auto split: option.splits simp del: insert_iff)
qed

lemma insert_mount_row_cases:
  obtains (inserted) "insert_mount_row r d = (Inr (), d\<lparr>d_mounts := d_mounts d @ [r]\<rparr>)" "mount_row_error d r = None"
  | (refused) e where "insert_mount_row r d = (Inl e, d)" "mount_row_error d r = Some e"
  by (cases "mount_row_error d r") (simp_all add: insert_mount_row_def)

lemma wf_insert_mount [preserves_rules]: "preserves wf_db (insert_mount_row r)"
proof (rule preservesI)
  fix d assume wf: "wf_db d"
  show "wf_db (snd (insert_mount_row r d))"
    by (cases rule: insert_mount_row_cases [of r d])
       (use wf in \<open>simp_all add: wf_db_def wf_parts mount_row_error_None\<close>)
qed

lemma apply_mount_update_keys [simp]:
  "mr_id (apply_mount_update u s r) = mr_id r" "mr_tenant_id (apply_mount_update u s r) = mr_tenant_id r"
  "mr_name (apply_mount_update u s r) = mr_name r"
  "mr_virtual_path (apply_mount_update u s r) = mr_virtual_path r"
  "mr_is_file (apply_mount_update u s r) = mr_is_file r"
  "mount_name_key (apply_mount_update u s r) = mount_name_key r"
  "mount_path_key (apply_mount_update u s r) = mount_path_key r"
  by (simp_all add: apply_mount_update_def mount_name_key_def mount_path_key_def)

lemma wf_mount_update [preserves_rules]: "preserves wf_db (mount_update x m u)"
proof (rule preservesI)
  fix d assume "wf_db d"
  then show "wf_db (snd (mount_update x m u d))"
    by (simp add: mount_update_def wf_db_def wf_parts map_update_rows_same split: option.split)
qed

lemma wf_delete_mount_rows: "wf_db d \<Longrightarrow> wf_db (delete_mount_rows P d)"
  unfolding delete_mount_rows_def Let_def
  by (rule wf_delete_layer_rows) (simp add: wf_db_def wf_parts distinct_map_delete_rows)

lemma wf_delete_mounts [preserves_rules]: "preserves wf_db (delete_mounts P)"
  by (rule preservesI) (simp add: delete_mounts_def Let_def wf_delete_mount_rows)

text \<open>A transaction keeps what its body keeps, as long as time and identifiers only move forward.\<close>

lemma preserves_transaction:
  assumes "preserves P m"
    and "\<And>d. P d \<Longrightarrow> P (snd (m d)) \<Longrightarrow>
      P (d\<lparr>d_clock := d_clock (snd (m d)), d_draws := d_draws (snd (m d)), d_inode_seq := d_inode_seq (snd (m d))\<rparr>)"
  shows "preserves P (transaction m)"
proof (rule preservesI)
  fix d assume d: "P d"
  from preservesD [OF assms(1) d] have "P (snd (m d))" .
  with assms(2) [OF d] show "P (snd (transaction m d))"
    by (auto simp: transaction_def split: prod.split sum.split)
qed

lemma mount_row_error_cong:
  assumes "d_mounts d' = d_mounts d" "d_tenants d' = d_tenants d"
  shows "mount_row_error d' = mount_row_error d"
  by (rule ext) (simp only: mount_row_error_def assms)

lemma mount_row_error_frame [simp]:
  "mount_row_error (d\<lparr>d_draws := n\<rparr>) = mount_row_error d" "mount_row_error (d\<lparr>d_clock := c\<rparr>) = mount_row_error d"
  by (rule mount_row_error_cong; simp)+

lemma insert_mount_eq:
  "insert_mount t input d =
     (let d1 = d\<lparr>d_draws := Suc (d_draws d), d_clock := Suc (d_clock d)\<rparr>;
          r = mount_row_of (d_entropy d (d_draws d)) t input (d_clock d)
      in case mount_row_error d r of
        Some e \<Rightarrow> (Inl e, d1)
      | None \<Rightarrow> (Inr (mount_entry_of (d_entropy d (d_draws d)) t input (d_clock d) (d_clock d)),
                 d1\<lparr>d_mounts := d_mounts d @ [r]\<rparr>))"
  by (simp add: insert_mount_def Let_def bindE_def insert_mount_row_def split: option.split)

lemma mount_row_of_simps [simp]:
  "mr_id (mount_row_of i t input s) = i" "mr_tenant_id (mount_row_of i t input s) = t"
  "mr_name (mount_row_of i t input s) = cm_name input"
  "mr_virtual_path (mount_row_of i t input s) = cm_virtual_path input"
  "mr_is_file (mount_row_of i t input s) = cm_is_file input"
  "mr_current_layer_id (mount_row_of i t input s) = None"
  by (simp_all add: mount_row_of_def split: prod.split)

lemma mount_entry_of_simps [simp]:
  "me_id (mount_entry_of i t input s u) = i" "me_tenant_id (mount_entry_of i t input s u) = t"
  "me_name (mount_entry_of i t input s u) = cm_name input"
  "me_virtual_path (mount_entry_of i t input s u) = cm_virtual_path input"
  "me_is_file (mount_entry_of i t input s u) = cm_is_file input"
  by (simp_all add: mount_entry_of_def)

lemma preserves_wf_insert_mount [preserves_rules]: "preserves wf_db (insert_mount t input)"
  unfolding insert_mount_def by (intro preserves_rules)

text \<open>What the mount operations leave alone.\<close>

lemma delete_mount_rows_frame [simp]:
  "d_tenants (delete_mount_rows P d) = d_tenants d" "d_inodes (delete_mount_rows P d) = d_inodes d"
  "d_blocks (delete_mount_rows P d) = d_blocks d" "d_current (delete_mount_rows P d) = d_current d"
  "d_inode_seq (delete_mount_rows P d) = d_inode_seq d" "d_clock (delete_mount_rows P d) = d_clock d"
  "d_entropy (delete_mount_rows P d) = d_entropy d" "d_draws (delete_mount_rows P d) = d_draws d"
  by (simp_all add: delete_mount_rows_def Let_def)

lemma seq_mounts [preserves_rules]:
  "preserves (\<lambda>d. d_inode_seq d = n) (delete_mounts P)"
  "preserves (\<lambda>d. d_inode_seq d = n) (insert_mount t input)"
  by (rule preserves_eqI, simp add: delete_mounts_def insert_mount_eq Let_def split: option.split)+

lemma draws_mounts [preserves_rules]:
  "preserves (\<lambda>d. n \<le> d_draws d) (delete_mounts P)"
  "preserves (\<lambda>d. n \<le> d_draws d) (insert_mount t input)"
  by (rule preservesI, simp add: delete_mounts_def insert_mount_eq Let_def split: option.split)+

lemma wf_validate_entries [preserves_rules]: "preserves wf_db (validate_entries t temp es)"
  by (induction es arbitrary: temp) (auto intro!: preserves_rules)

lemma wf_mount_set [preserves_rules]: "preserves wf_db (mount_set_entries t es)"
proof -
  let ?m = "bindE (delete_mounts (\<lambda>r. mr_tenant_id r = t)) (\<lambda>_. mapE (insert_mount t) es)"
  have "preserves (\<lambda>d. d_inode_seq d = n) ?m" for n
    by (intro preserves_rules)
  then have "d_inode_seq (snd (?m d)) = d_inode_seq d" for d
    by (rule preservesD) (rule refl)
  then have "preserves wf_db (transaction ?m)"
    by (intro preserves_transaction preserves_rules) (simp add: wf_db_def wf_parts)
  then show ?thesis
    unfolding mount_set_entries_def by (intro preserves_rules)
qed

lemma wf_mounts_ops [preserves_rules]:
  "preserves wf_db (mount_create x t input)" "preserves wf_db (mount_delete m)"
proof -
  have "preserves wf_db (mount_list x t)"
    by (rule preservesI) (simp add: mount_list_def)
  then show "preserves wf_db (mount_create x t input)"
    unfolding mount_create_def mount_check_path_conflict_def Let_def by (intro preserves_rules)
qed (unfold mount_delete_def, intro preserves_rules)


section \<open>Identifiers and layers\<close>

lemma ids_delete_mount_rows: "db_ids (delete_mount_rows P d) \<subseteq> db_ids d"
proof -
  let ?g = "set (map mr_id (filter P (d_mounts d)))"
  let ?d1 = "d\<lparr>d_mounts := delete_rows P (d_mounts d),
     d_published := delete_rows (\<lambda>p. pr_mount_entry_id p \<in> ?g) (d_published d)\<rparr>"
  have "db_ids (delete_layer_rows Q ?d1) \<subseteq> db_ids ?d1" for Q
    unfolding db_ids_def using ids_delete_layer_rows [of Q ?d1]
    by (intro Un_mono) simp_all
  moreover have "db_ids ?d1 \<subseteq> db_ids d"
    unfolding db_ids_def by (intro Un_mono) auto
  ultimately show ?thesis unfolding delete_mount_rows_def Let_def by blast
qed

lemma drawn_delete_mounts [preserves_rules]: "preserves ids_drawn (delete_mounts P)"
  by (rule preserves_shrinkI) (simp_all add: delete_mounts_def Let_def ids_delete_mount_rows)

lemma drawn_insert_mount [preserves_rules]: "preserves ids_drawn (insert_mount t input)"
proof -
  have "preserves (drawn i) (insert_mount_row (mount_row_of i t input s))" for i s
    by (rule preserves_insert_rowsI) (auto simp: insert_mount_row_def split: option.split)
  then show ?thesis
    unfolding insert_mount_def
    by (intro preserves_drawn_new preserves_bindE drawn_now preserves_ret)
qed

lemma drawn_mount_update [preserves_rules]: "preserves ids_drawn (mount_update x m u)"
proof (rule preserves_shrinkI(1))
  fix d
  have "db_ids (snd (mount_update x m u d)) = db_ids d"
    by (cases "find (\<lambda>r. mr_id r = m) (d_mounts d)")
       (simp_all add: mount_update_def db_ids_def image_update_rows del: find_None_conv)
  then show "db_ids (snd (mount_update x m u d)) \<subseteq> db_ids d" by simp
qed (simp_all add: mount_update_def split: option.split)

lemma drawn_new_v4 [preserves_rules]: "preserves ids_drawn new_v4"
proof (rule preservesI)
  fix d assume "ids_drawn d"
  then show "ids_drawn (snd (new_v4 d))"
    by (rule ids_drawn_step) (auto simp: db_ids_def)
qed

lemma drawn_validate_entries [preserves_rules]: "preserves ids_drawn (validate_entries t temp es)"
  by (induction es arbitrary: temp) (auto intro!: preserves_rules)

lemma drawn_mount_set [preserves_rules]: "preserves ids_drawn (mount_set_entries t es)"
proof -
  let ?m = "bindE (delete_mounts (\<lambda>r. mr_tenant_id r = t)) (\<lambda>_. mapE (insert_mount t) es)"
  have "preserves (\<lambda>d. n \<le> d_draws d) ?m" for n
    by (intro preserves_rules)
  then have le: "d_draws d \<le> d_draws (snd (?m d))" for d
    by (rule preservesD) simp
  have "preserves ids_drawn (transaction ?m)"
  proof (intro preserves_transaction preserves_rules)
    fix d assume "ids_drawn d"
    then show "ids_drawn (d\<lparr>d_clock := d_clock (snd (?m d)), d_draws := d_draws (snd (?m d)),
        d_inode_seq := d_inode_seq (snd (?m d))\<rparr>)"
      by (rule ids_drawn_step) (auto simp: le db_ids_def)
  qed
  then show ?thesis
    unfolding mount_set_entries_def by (intro preserves_rules)
qed

lemma drawn_mount_ops [preserves_rules]:
  "preserves ids_drawn (mount_create x t input)" "preserves ids_drawn (mount_delete m)"
proof -
  have "preserves ids_drawn (mount_list x t)"
    by (rule preservesI) (simp add: mount_list_def)
  then show "preserves ids_drawn (mount_create x t input)"
    unfolding mount_create_def mount_check_path_conflict_def Let_def by (intro preserves_rules)
qed (unfold mount_delete_def, intro preserves_rules)

text \<open>The layers of deleted mounts leave a forest behind.\<close>

lemma layer_inv_delete_mounts:
  assumes "layers_ok d"
  shows "layer_inv (snd (delete_mounts P d))"
proof (cases "fst (delete_mounts P d)")
  case (Inl e)
  then have "snd (delete_mounts P d) = d" by (auto simp: delete_mounts_def Let_def split: if_splits)
  with assms show ?thesis by (simp add: layers_ok_def)
next
  case (Inr n)
  let ?g = "set (map mr_id (filter P (d_mounts d)))"
  let ?gone = "layer_ref ` set (filter (on_mount ?g) (d_layers d))"
  from Inr have d': "snd (delete_mounts P d) = delete_mount_rows P d"
    and par: "\<And>l p. l \<in> set (d_layers d) \<Longrightarrow> \<not> on_mount ?g l \<Longrightarrow> ly_parent_id l = Some p \<Longrightarrow>
      p \<notin> set (map ly_id (filter (on_mount ?g) (d_layers d)))"
    and cur: "\<And>c. c \<in> set (d_current d) \<Longrightarrow> tcl_layer_id c \<notin> set (map ly_id (filter (on_mount ?g) (d_layers d)))"
    by (auto simp: delete_mounts_def Let_def split: if_splits)
  from assms have wf: "wf_db d" and inv: "layer_inv d" by (simp_all add: layers_ok_def)
  have in_gone: "layer_ref l \<in> ?gone \<longleftrightarrow> on_mount ?g l" if "l \<in> set (d_layers d)" for l
    using that layer_tbl.lookup_unique [OF wf, of l] by (auto simp: layer_ref_def image_iff)
  have rows: "delete_rows (on_mount ?g) (d_layers d) = filter (\<lambda>l. layer_ref l \<notin> ?gone) (d_layers d)"
    unfolding delete_rows_def by (rule filter_cong) (use in_gone in auto)
  have "rooted ({} - ?gone) (map layer_shape (filter (\<lambda>l. layer_ref l \<notin> ?gone) (d_layers d)))"
  proof (rule rooted_filter)
    show "(q, ly_tenant_id l) \<notin> ?gone"
      if "l \<in> set (d_layers d)" "layer_ref l \<notin> ?gone" "ly_parent_id l = Some q" for l q
      using par [of l q] in_gone [of l] that by (force simp: layer_ref_def)
  qed (use inv in \<open>simp add: layer_inv_def\<close>)
  moreover have shape: "map layer_shape (d_layers (delete_mount_rows P d)) =
      map layer_shape (delete_rows (on_mount ?g) (d_layers d))"
    by (simp add: delete_mount_rows_def Let_def)
  moreover have "(tcl_layer_id c, tcl_tenant_id c) \<in> layer_ref ` set (delete_rows (on_mount ?g) (d_layers d))"
    if c: "c \<in> set (d_current d)" for c
  proof -
    from inv c obtain r where r: "r \<in> set (d_layers d)" "layer_ref r = (tcl_layer_id c, tcl_tenant_id c)"
      by (auto simp: layer_inv_def)
    with cur [OF c] have "\<not> on_mount ?g r" by (force simp: layer_ref_def image_iff)
    with r show ?thesis by (force simp: image_iff)
  qed
  ultimately have "rooted {} (map layer_shape (d_layers (delete_mount_rows P d)))"
    and "\<forall>c \<in> set (d_current d). (tcl_layer_id c, tcl_tenant_id c) \<in> layer_ref ` set (d_layers (delete_mount_rows P d))"
    unfolding layer_ref_via_shape [OF shape] by (simp_all only: shape rows Diff_empty empty_Diff) blast
  then show ?thesis unfolding d' layer_inv_def by simp
qed

lemma layers_ok_delete_mounts [preserves_rules]: "preserves layers_ok (delete_mounts P)"
  using layer_inv_delete_mounts wf_delete_mounts [of P]
  unfolding preserves_def layers_ok_def by blast

lemma layers_ok_mount_frame:
  assumes "preserves wf_db m" and "\<And>d. layer_view (snd (m d)) = layer_view d"
  shows "preserves layers_ok m"
  using assms layer_inv_via_view unfolding preserves_def layers_ok_def by blast

lemma layers_ok_insert_mount [preserves_rules]: "preserves layers_ok (insert_mount t input)"
  by (rule layers_ok_mount_frame [OF preserves_wf_insert_mount])
     (simp add: insert_mount_eq Let_def layer_view_def split: option.split)

lemma layers_ok_mount_update [preserves_rules]: "preserves layers_ok (mount_update x m u)"
  by (rule layers_ok_mount_frame [OF wf_mount_update])
     (simp add: mount_update_def layer_view_def split: option.split)

lemma validate_entries_frame:
  "\<exists>c n. snd (validate_entries t temp es d) = d\<lparr>d_clock := c, d_draws := n\<rparr>"
proof (induction es arbitrary: temp d)
  case Nil
  have "d = d\<lparr>d_clock := d_clock d, d_draws := d_draws d\<rparr>" by simp
  then show ?case by (metis validate_entries.simps(1) ret_apply snd_conv)
next
  case (Cons e es)
  show ?case
  proof (cases "validate_no_conflict temp (cm_virtual_path e) (cm_is_file e)")
    case (Inl a)
    then have "snd (validate_entries t temp (e # es) d) = d\<lparr>d_clock := d_clock d, d_draws := d_draws d\<rparr>"
      by (simp add: bindE_def)
    then show ?thesis by blast
  next
    case (Inr a)
    let ?d1 = "d\<lparr>d_draws := Suc (d_draws d), d_clock := Suc (Suc (d_clock d))\<rparr>"
    from Inr have "\<exists>temp'. validate_entries t temp (e # es) d = validate_entries t temp' es ?d1"
      by (auto simp: bindE_def)
    then obtain temp' where "validate_entries t temp (e # es) d = validate_entries t temp' es ?d1" ..
    with Cons.IH [of temp' ?d1] show ?thesis by auto
  qed
qed

lemma layers_ok_validate_entries [preserves_rules]: "preserves layers_ok (validate_entries t temp es)"
proof (rule layers_ok_mount_frame)
  fix d show "layer_view (snd (validate_entries t temp es d)) = layer_view d"
    using validate_entries_frame [of t temp es d] by (auto simp: layer_view_def)
qed (rule wf_validate_entries)

abbreviation replace_mounts :: "uuid \<Rightarrow> create_mount_entry list \<Rightarrow> mount_entry list db_op" where
  "replace_mounts t es \<equiv> bindE (delete_mounts (\<lambda>r. mr_tenant_id r = t)) (\<lambda>_. mapE (insert_mount t) es)"

lemma layers_ok_mount_set [preserves_rules]: "preserves layers_ok (mount_set_entries t es)"
proof -
  have seq: "d_inode_seq (snd (replace_mounts t es d)) = d_inode_seq d" for d
    by (rule preservesD [where P = "\<lambda>d'. d_inode_seq d' = d_inode_seq d"]) (intro preserves_rules, rule refl)
  have "preserves layers_ok (transaction (replace_mounts t es))"
    by (intro preserves_transaction preserves_rules)
       (simp add: seq layers_ok_def wf_db_def wf_parts layer_inv_def)
  then show ?thesis
    unfolding mount_set_entries_def by (intro preserves_rules)
qed

lemma layers_ok_mount_ops [preserves_rules]:
  "preserves layers_ok (mount_create x t input)" "preserves layers_ok (mount_delete m)"
proof -
  have "preserves layers_ok (mount_list x t)"
    by (rule preservesI) (simp add: mount_list_def)
  then show "preserves layers_ok (mount_create x t input)"
    unfolding mount_create_def mount_check_path_conflict_def Let_def by (intro preserves_rules)
qed (unfold mount_delete_def, intro preserves_rules)

section \<open>The invariant of the composition\<close>

text \<open>
  The mounts of a tenant never overlap, every row meets the check constraints of its table, no
  operation has set the current layer of a mount, and a publication refers to a mount of the
  tenant that it names.
\<close>

definition rows_compatible :: "mount_row \<Rightarrow> mount_row \<Rightarrow> bool" where
  "rows_compatible a b \<longleftrightarrow> mr_tenant_id a = mr_tenant_id b \<longrightarrow>
     \<not> overlap (mr_is_file a) (mr_virtual_path a) (mr_is_file b) (mr_virtual_path b)"

definition mount_row_ok :: "mount_row \<Rightarrow> bool" where
  "mount_row_ok r \<longleftrightarrow>
     valid_source r \<and> mr_mode r \<in> {''ro'', ''rw'', ''cow''} \<and> mr_current_layer_id r = None"

definition mount_owner :: "mount_row \<Rightarrow> uuid \<times> uuid" where
  "mount_owner m = (mr_id m, mr_tenant_id m)"

definition published_columns_ok :: "published_row \<Rightarrow> bool" where
  "published_columns_ok p \<longleftrightarrow>
     (pr_target_type p, pr_layer_id p \<noteq> None) \<in> {(''layer'', True), (''working_layer'', False)} \<and>
     pr_scope p \<in> {''public'', ''allow_list''}"

definition published_row_ok :: "mount_row list \<Rightarrow> published_row \<Rightarrow> bool" where
  "published_row_ok ms p \<longleftrightarrow> published_columns_ok p \<and>
     (pr_mount_entry_id p, pr_tenant_id p) \<in> set (map mount_owner ms)"

definition mounts_ok :: "db \<Rightarrow> bool" where
  "mounts_ok d \<longleftrightarrow> pairwise rows_compatible (set (d_mounts d)) \<and> list_all mount_row_ok (d_mounts d) \<and>
     list_all (published_row_ok (d_mounts d)) (d_published d)"

lemma mounts_ok_cong:
  "d_mounts d' = d_mounts d \<Longrightarrow> d_published d' = d_published d \<Longrightarrow> mounts_ok d' = mounts_ok d"
  by (simp add: mounts_ok_def)

lemma preserves_mounts_frame:
  assumes "\<And>d. d_mounts (snd (m d)) = d_mounts d" and "\<And>d. d_published (snd (m d)) = d_published d"
  shows "preserves mounts_ok m"
  by (rule preservesI) (simp add: mounts_ok_cong [OF assms])

lemma rows_compatible_sym: "rows_compatible a b \<longleftrightarrow> rows_compatible b a"
  by (auto simp: rows_compatible_def overlap_sym)

text \<open>As no mount has a current layer, deleting layers leaves the mounts alone.\<close>

lemma mounts_delete_layer_rows:
  assumes "list_all mount_row_ok (d_mounts d)"
  shows "d_mounts (delete_layer_rows P d) = d_mounts d"
proof -
  have "mr_current_layer_id m = None" if "m \<in> set (d_mounts d)" for m
    using assms that by (auto simp: list_all_iff mount_row_ok_def)
  then have "update_rows (\<lambda>m. case mr_current_layer_id m of None \<Rightarrow> False | Some l \<Rightarrow> Q l) f (d_mounts d) = d_mounts d"
    for Q f by (intro update_rows_idle) simp
  then show ?thesis by (simp add: delete_layer_rows_def Let_def)
qed

lemma mounts_delete_mount_rows:
  assumes "mounts_ok d"
  shows "d_mounts (delete_mount_rows P d) = delete_rows P (d_mounts d)"
    and "d_published (delete_mount_rows P d) =
      delete_rows (\<lambda>p. pr_mount_entry_id p \<in> mr_id ` set (filter P (d_mounts d))) (d_published d)"
proof -
  have "list_all mount_row_ok (delete_rows P (d_mounts d))"
    using assms by (auto simp: mounts_ok_def list_all_iff)
  then show "d_mounts (delete_mount_rows P d) = delete_rows P (d_mounts d)"
    by (simp add: delete_mount_rows_def Let_def mounts_delete_layer_rows)
  show "d_published (delete_mount_rows P d) =
      delete_rows (\<lambda>p. pr_mount_entry_id p \<in> mr_id ` set (filter P (d_mounts d))) (d_published d)"
    by (simp add: delete_mount_rows_def Let_def)
qed

lemma mounts_ok_delete_mount_rows: "mounts_ok d \<Longrightarrow> mounts_ok (delete_mount_rows P d)"
proof -
  assume ok: "mounts_ok d"
  note rows = mounts_delete_mount_rows [OF ok, of P]
  have "pairwise rows_compatible (set (delete_rows P (d_mounts d)))"
    using ok by (auto simp: mounts_ok_def elim: pairwise_subset)
  moreover have "list_all mount_row_ok (delete_rows P (d_mounts d))"
    using ok by (simp add: mounts_ok_def list_all_iff)
  moreover have "published_row_ok (delete_rows P (d_mounts d)) p"
    if p: "p \<in> set (d_published d)" "pr_mount_entry_id p \<notin> mr_id ` set (filter P (d_mounts d))" for p
  proof -
    from ok p(1) have "published_row_ok (d_mounts d) p" by (simp add: mounts_ok_def list_all_iff)
    then obtain m where m: "m \<in> set (d_mounts d)" "(pr_mount_entry_id p, pr_tenant_id p) = mount_owner m"
      and c: "published_columns_ok p" by (auto simp: published_row_ok_def)
    with p(2) have "\<not> P m" by (auto simp: mount_owner_def)
    with m c show ?thesis by (simp add: published_row_ok_def image_iff) blast
  qed
  ultimately show ?thesis by (simp add: mounts_ok_def rows list_all_iff)
qed

lemma mounts_ok_delete_mounts [preserves_rules]: "preserves mounts_ok (delete_mounts P)"
  by (rule preservesI) (simp add: delete_mounts_def Let_def mounts_ok_delete_mount_rows)

lemma published_row_ok_cong:
  "map mount_owner ms = map mount_owner ns \<Longrightarrow> published_row_ok ms = published_row_ok ns"
  unfolding fun_eq_iff published_row_ok_def by (simp only: simp_thms)

lemma mounts_ok_mount_update [preserves_rules]: "preserves mounts_ok (mount_update x m u)"
proof (rule preservesI)
  fix d assume ok: "mounts_ok d"
  let ?g = "\<lambda>r. if mr_id r = m then apply_mount_update u (d_clock d) r else r"
  let ?ms = "update_rows (\<lambda>r. mr_id r = m) (apply_mount_update u (d_clock d)) (d_mounts d)"
  have "rows_compatible (?g a) (?g b) = rows_compatible a b" for a b
    by (simp add: rows_compatible_def)
  with ok have "pairwise rows_compatible (set ?ms)"
    unfolding set_update_rows mounts_ok_def pairwise_image by (simp add: pairwise_def)
  moreover have "mode_as_str k \<in> {''ro'', ''rw'', ''cow''}" for k by (cases k) auto
  with ok have "list_all mount_row_ok ?ms"
    by (fastforce simp: mounts_ok_def list_all_iff set_update_rows mount_row_ok_def apply_mount_update_def
        valid_source_def split: option.split)
  moreover have "published_row_ok ?ms = published_row_ok (d_mounts d)"
    by (rule published_row_ok_cong, rule map_update_rows_same) (simp add: mount_owner_def)
  ultimately have "mounts_ok (d\<lparr>d_mounts := ?ms\<rparr>)" using ok by (simp add: mounts_ok_def)
  then show "mounts_ok (snd (mount_update x m u d))"
    using ok by (simp add: mount_update_def mounts_ok_def split: option.split)
qed

lemma mounts_ok_mount_delete [preserves_rules]: "preserves mounts_ok (mount_delete m)"
  unfolding mount_delete_def by (intro preserves_rules)

text \<open>A new mount that overlaps no mount of the tenant.\<close>

definition apart :: "uuid \<Rightarrow> create_mount_entry \<Rightarrow> db \<Rightarrow> bool" where
  "apart t input d \<longleftrightarrow> list_all (\<lambda>r. mr_tenant_id r = t \<longrightarrow>
     \<not> overlap (mr_is_file r) (mr_virtual_path r) (cm_is_file input) (cm_virtual_path input)) (d_mounts d)"

lemma mount_row_of_ok:
  "valid_source (mount_row_of i t input s)" "mr_mode (mount_row_of i t input s) \<in> {''ro'', ''rw'', ''cow''}"
proof -
  show "valid_source (mount_row_of i t input s)"
    by (cases "cm_source input") (simp_all add: valid_source_def mount_row_of_def)
  show "mr_mode (mount_row_of i t input s) \<in> {''ro'', ''rw'', ''cow''}"
    by (cases "cm_mode input") (simp_all add: mount_row_of_def split: prod.split)
qed

lemma published_row_ok_append: "published_row_ok ms p \<Longrightarrow> published_row_ok (ms @ ns) p"
  by (simp add: published_row_ok_def)

lemma mounts_ok_insert:
  assumes "mounts_ok d" and "apart t input d"
  shows "mounts_ok (snd (insert_mount t input d))"
proof -
  let ?r = "mount_row_of (d_entropy d (d_draws d)) t input (d_clock d)"
  have "pairwise rows_compatible (insert ?r (set (d_mounts d)))"
    using assms rows_compatible_sym [of _ ?r]
    by (auto simp: pairwise_insert mounts_ok_def apart_def list_all_iff rows_compatible_def)
  moreover have "mount_row_ok ?r" using mount_row_of_ok by (simp add: mount_row_ok_def)
  moreover have "list_all (published_row_ok (d_mounts d @ [?r])) (d_published d)"
    using assms(1) published_row_ok_append by (fastforce simp: mounts_ok_def list_all_iff)
  ultimately show ?thesis
    using assms(1) by (auto simp: insert_mount_eq Let_def mounts_ok_def split: option.split)
qed

lemma list_all2_left: "list_all2 Q xs ys \<Longrightarrow> a \<in> set xs \<Longrightarrow> \<exists>b \<in> set ys. Q a b"
  by (induction rule: list_all2_induct) auto

lemma list_all2_right: "list_all2 Q xs ys \<Longrightarrow> b \<in> set ys \<Longrightarrow> \<exists>a \<in> set xs. Q a b"
  by (induction rule: list_all2_induct) auto

text \<open>The check sees every mount of the tenant, in whatever order the database lists them.\<close>

lemma mount_list_rows:
  assumes "mount_list x t d = (Inr es, d')" "r \<in> set (d_mounts d)" "mr_tenant_id r = t"
  shows "\<exists>e \<in> set es. row_to_mount_entry x r = Inr e"
proof -
  from assms(1) have "list_all2 (\<lambda>r e. row_to_mount_entry x r = Inr e)
      (sort_by (\<lambda>a b. collate_le x (mr_name a) (mr_name b)) (filter (\<lambda>r. mr_tenant_id r = t) (d_mounts d))) es"
    by (auto simp: mount_list_def decode_rows_Inr)
  moreover have "r \<in> set (sort_by (\<lambda>a b. collate_le x (mr_name a) (mr_name b)) (filter (\<lambda>r. mr_tenant_id r = t) (d_mounts d)))"
    using assms(2,3) by simp
  ultimately show ?thesis by (rule list_all2_left)
qed

lemma mount_list_entries:
  assumes "mount_list x t d = (Inr es, d')" "e \<in> set es"
  shows "\<exists>r \<in> set (d_mounts d). mr_tenant_id r = t \<and> row_to_mount_entry x r = Inr e"
proof -
  from assms(1) have "list_all2 (\<lambda>r e. row_to_mount_entry x r = Inr e)
      (sort_by (\<lambda>a b. collate_le x (mr_name a) (mr_name b)) (filter (\<lambda>r. mr_tenant_id r = t) (d_mounts d))) es"
    by (auto simp: mount_list_def decode_rows_Inr)
  from list_all2_right [OF this assms(2)] show ?thesis by auto
qed

lemma failed_iff: "(case r of Inl e \<Rightarrow> True | Inr u \<Rightarrow> False) \<longleftrightarrow> r \<noteq> Inr ()"
  by (cases r) auto

lemma check_path_conflict_Inr:
  assumes "mount_check_path_conflict x t (cm_virtual_path input) (cm_is_file input) None d = (Inr c, d')"
  shows "d' = d" and "c \<longleftrightarrow> \<not> apart t input d"
proof -
  from assms obtain es where es: "mount_list x t d = (Inr es, d)" and "d' = d" and
    c: "c \<longleftrightarrow> validate_no_conflict es (cm_virtual_path input) (cm_is_file input) \<noteq> Inr ()"
    by (auto simp: mount_check_path_conflict_def bindE_eq_Inr mount_list_def failed_iff)
  then show "d' = d" by simp
  have "list_all (\<lambda>e. \<not> overlap (me_is_file e) (me_virtual_path e) (cm_is_file input) (cm_virtual_path input)) es
      \<longleftrightarrow> apart t input d"
    unfolding apart_def list_all_iff
  proof (intro iffI ballI impI)
    fix r assume "\<forall>e \<in> set es. \<not> overlap (me_is_file e) (me_virtual_path e) (cm_is_file input) (cm_virtual_path input)"
      and r: "r \<in> set (d_mounts d)" "mr_tenant_id r = t"
    with mount_list_rows [OF es r] show "\<not> overlap (mr_is_file r) (mr_virtual_path r) (cm_is_file input) (cm_virtual_path input)"
      using row_to_mount_entry_InrD(4,5) [of x r] by force
  next
    fix e assume a: "\<forall>r \<in> set (d_mounts d). mr_tenant_id r = t \<longrightarrow>
        \<not> overlap (mr_is_file r) (mr_virtual_path r) (cm_is_file input) (cm_virtual_path input)" and e: "e \<in> set es"
    from mount_list_entries [OF es e] obtain r where r: "r \<in> set (d_mounts d)" "mr_tenant_id r = t"
      "row_to_mount_entry x r = Inr e" by blast
    with a row_to_mount_entry_InrD(4,5) [OF r(3)]
    show "\<not> overlap (me_is_file e) (me_virtual_path e) (cm_is_file input) (cm_virtual_path input)" by simp
  qed
  with c show "c \<longleftrightarrow> \<not> apart t input d" by (simp add: validate_no_conflict_code)
qed

lemma mounts_ok_mount_create [preserves_rules]: "preserves mounts_ok (mount_create x t input)"
proof (rule preservesI)
  fix d assume ok: "mounts_ok d"
  let ?chk = "mount_check_path_conflict x t (cm_virtual_path input) (cm_is_file input) None"
  show "mounts_ok (snd (mount_create x t input d))"
  proof (cases "?chk d")
    case (Pair c d')
    show ?thesis
    proof (cases c)
      case (Inl e)
      with Pair have "d' = d"
        by (auto simp: mount_check_path_conflict_def bindE_def mount_list_def split: sum.splits)
      with Pair Inl ok show ?thesis by (simp add: mount_create_def bindE_def)
    next
      case (Inr b)
      with Pair check_path_conflict_Inr [of x t input d b d'] have "d' = d" "b \<longleftrightarrow> \<not> apart t input d"
        by simp_all
      with Pair Inr ok mounts_ok_insert show ?thesis by (simp add: mount_create_def bindE_def)
    qed
  qed
qed

section \<open>Replacing the mounts of a tenant\<close>

definition inputs_apart :: "create_mount_entry \<Rightarrow> create_mount_entry \<Rightarrow> bool" where
  "inputs_apart a b \<longleftrightarrow> \<not> overlap (cm_is_file a) (cm_virtual_path a) (cm_is_file b) (cm_virtual_path b)"

lemma validate_entries_InrD:
  assumes "validate_entries t temp es d = (Inr (), d')"
  shows "sorted_wrt inputs_apart es \<and> (\<forall>e \<in> set temp. \<forall>c \<in> set es.
    \<not> overlap (me_is_file e) (me_virtual_path e) (cm_is_file c) (cm_virtual_path c))"
  using assms
proof (induction es arbitrary: temp d)
  case (Cons c cs)
  from Cons.prems have v: "validate_no_conflict temp (cm_virtual_path c) (cm_is_file c) = Inr ()"
    by (cases "validate_no_conflict temp (cm_virtual_path c) (cm_is_file c)") (auto simp: bindE_def)
  with Cons.prems obtain i s u d1 where
    "validate_entries t (temp @ [mount_entry_of i t c s u]) cs d1 = (Inr (), d')"
    by (auto simp: bindE_def)
  from Cons.IH [OF this] v show ?case
    by (auto simp: validate_no_conflict_code list_all_iff inputs_apart_def)
qed simp

lemma insert_mount_InrD:
  assumes "insert_mount t input d = (Inr e, d')"
  shows "e = mount_entry_of (me_id e) t input (me_created_at e) (me_created_at e)"
    and "d_mounts d' = d_mounts d @ [mount_row_of (me_id e) t input (me_created_at e)]"
  using assms by (auto simp: insert_mount_eq Let_def mount_entry_of_def split: option.splits)

lemma insert_mounts_InrD:
  assumes "mapE (insert_mount t) es d = (Inr ms, d')"
  shows "list_all2 (\<lambda>c e. e = mount_entry_of (me_id e) t c (me_created_at e) (me_created_at e)) es ms \<and>
    d_mounts d' = d_mounts d @ map2 (\<lambda>c e. mount_row_of (me_id e) t c (me_created_at e)) es ms"
  using assms
proof (induction es arbitrary: d ms)
  case (Cons c cs)
  from Cons.prems obtain e d1 ns where e: "insert_mount t c d = (Inr e, d1)"
    and r: "mapE (insert_mount t) cs d1 = (Inr ns, d')" and ms: "ms = e # ns"
    by (auto simp: bindE_eq_Inr)
  from Cons.IH [OF r] insert_mount_InrD [OF e] show ?case by (simp add: ms)
qed auto

lemma mounts_ok_inserts:
  assumes "mounts_ok d" "\<forall>c \<in> set es. apart t c d" "sorted_wrt inputs_apart es"
  shows "mounts_ok (snd (mapE (insert_mount t) es d))"
  using assms
proof (induction es arbitrary: d)
  case (Cons c cs)
  then have ok: "mounts_ok (snd (insert_mount t c d))" by (intro mounts_ok_insert) auto
  show ?case
  proof (cases "insert_mount t c d")
    case (Pair r d1)
    show ?thesis
    proof (cases r)
      case (Inl e)
      with Pair ok show ?thesis by (simp add: bindE_def)
    next
      case (Inr e)
      with Pair insert_mount_InrD(2) [of t c d e d1] Cons.prems(2,3)
      have "\<forall>c' \<in> set cs. apart t c' d1"
        by (auto simp: apart_def inputs_apart_def)
      with ok Pair Cons.prems(3) have "mounts_ok (snd (mapE (insert_mount t) cs d1))"
        by (intro Cons.IH) auto
      with Pair Inr show ?thesis
        by (cases "mapE (insert_mount t) cs d1"; cases "fst (mapE (insert_mount t) cs d1)") (simp_all add: bindE_def)
    qed
  qed
qed simp

lemma transaction_cases:
  obtains (committed) a d' where "m d = (Inr a, d')" "transaction m d = (Inr a, d')"
  | (rolled_back) e d' where "m d = (Inl e, d')"
      "transaction m d = (Inl e, d\<lparr>d_clock := d_clock d', d_draws := d_draws d', d_inode_seq := d_inode_seq d'\<rparr>)"
  by (cases "m d"; cases "fst (m d)") (simp_all add: transaction_def)

lemma replace_mounts_outcome:
  assumes "mounts_ok d" "sorted_wrt inputs_apart es" "replace_mounts t es d = (Inr ms, d')"
  shows "mounts_ok d' \<and>
    list_all2 (\<lambda>c e. e = mount_entry_of (me_id e) t c (me_created_at e) (me_created_at e)) es ms \<and>
    d_mounts d' = filter (\<lambda>r. mr_tenant_id r \<noteq> t) (d_mounts d) @
      map2 (\<lambda>c e. mount_row_of (me_id e) t c (me_created_at e)) es ms"
proof -
  from assms(3) obtain n d1 where del: "delete_mounts (\<lambda>r. mr_tenant_id r = t) d = (Inr n, d1)"
    and ins: "mapE (insert_mount t) es d1 = (Inr ms, d')" by (auto simp: bindE_eq_Inr)
  from del have d1: "d1 = delete_mount_rows (\<lambda>r. mr_tenant_id r = t) d"
    by (auto simp: delete_mounts_def Let_def split: if_splits)
  have m1: "d_mounts d1 = filter (\<lambda>r. mr_tenant_id r \<noteq> t) (d_mounts d)"
    unfolding d1 mounts_delete_mount_rows(1) [OF assms(1)] by (simp add: delete_rows_def)
  have "mounts_ok d1" unfolding d1 by (rule mounts_ok_delete_mount_rows [OF assms(1)])
  moreover have "\<forall>c \<in> set es. apart t c d1" by (simp add: apart_def m1 list_all_iff)
  ultimately have "mounts_ok (snd (mapE (insert_mount t) es d1))"
    using assms(2) by (rule mounts_ok_inserts)
  with ins insert_mounts_InrD [OF ins] m1 show ?thesis by simp
qed

lemma mounts_ok_clock: "mounts_ok (d\<lparr>d_clock := c, d_draws := n\<rparr>) = mounts_ok d"
  by (rule mounts_ok_cong) simp_all

lemma set_mount_entries_outcome_core:
  assumes "mounts_ok d"
  shows "case mount_set_entries t es d of
      (Inl e, d') \<Rightarrow> \<exists>c n. d' = d\<lparr>d_clock := c, d_draws := n\<rparr>
    | (Inr ms, d') \<Rightarrow> mounts_ok d' \<and>
        list_all2 (\<lambda>c e. e = mount_entry_of (me_id e) t c (me_created_at e) (me_created_at e)) es ms \<and>
        d_mounts d' = filter (\<lambda>r. mr_tenant_id r \<noteq> t) (d_mounts d) @
          map2 (\<lambda>c e. mount_row_of (me_id e) t c (me_created_at e)) es ms"
proof (cases "validate_entries t [] es d")
  case (Pair v d1)
  obtain c n where d1: "d1 = d\<lparr>d_clock := c, d_draws := n\<rparr>"
    using validate_entries_frame [of t "[]" es d] Pair by auto
  show ?thesis
  proof (cases v)
    case (Inl e)
    with Pair d1 show ?thesis by (auto simp: mount_set_entries_def bindE_def)
  next
    case (Inr u)
    with Pair validate_entries_InrD [of t "[]" es d d1] have ap: "sorted_wrt inputs_apart es" by simp
    have ok: "mounts_ok d1" using assms by (simp add: d1 mounts_ok_clock)
    have step: "mount_set_entries t es d = transaction (replace_mounts t es) d1"
      using Pair Inr by (simp add: mount_set_entries_def bindE_def)
    show ?thesis
    proof (cases rule: transaction_cases [of "replace_mounts t es" d1])
      case (committed ms d')
      with step replace_mounts_outcome [OF ok ap committed(1)] show ?thesis by (simp add: d1)
    next
      case (rolled_back e d')
      have "d_inode_seq (snd (replace_mounts t es d1)) = d_inode_seq d1"
        by (rule preservesD [where P = "\<lambda>d'. d_inode_seq d' = d_inode_seq d1"]) (intro preserves_rules, rule refl)
      with rolled_back have "d_inode_seq d' = d_inode_seq d1" by simp
      with step rolled_back(2) show ?thesis by (auto simp: d1)
    qed
  qed
qed

text \<open>
  C21.  \<open>set_mount_entries\<close> is all or nothing.  When it fails (two of the new entries overlap, a
  layer of an old mount is still needed, a new row is refused, \<dots>) the tables are unchanged; when
  it succeeds the mounts of the tenant are exactly the new ones, in the order given and with the
  sources, paths and modes given, and those of the other tenants are what they were.
\<close>

theorem set_mount_entries_outcome:
  assumes "mounts_ok d"
  shows "case mount_set_entries t es d of
      (Inl e, d') \<Rightarrow> \<exists>c n. d' = d\<lparr>d_clock := c, d_draws := n\<rparr>
    | (Inr ms, d') \<Rightarrow> mounts_ok d' \<and>
        list_all2 (\<lambda>c e. e = mount_entry_of (me_id e) t c (me_created_at e) (me_created_at e)) es ms \<and>
        d_mounts d' = filter (\<lambda>r. mr_tenant_id r \<noteq> t) (d_mounts d) @
          map2 (\<lambda>c e. mount_row_of (me_id e) t c (me_created_at e)) es ms"
  by (rule set_mount_entries_outcome_core [OF assms])

lemma mounts_ok_mount_set [preserves_rules]: "preserves mounts_ok (mount_set_entries t es)"
proof (rule preservesI)
  fix d assume ok: "mounts_ok d"
  show "mounts_ok (snd (mount_set_entries t es d))"
    using set_mount_entries_outcome_core [OF ok, of t es] ok
    by (auto simp: mounts_ok_clock split: prod.splits sum.splits)
qed

section \<open>Creating a mount\<close>

definition mount_accepted :: "uuid \<Rightarrow> create_mount_entry \<Rightarrow> db \<Rightarrow> bool" where
  "mount_accepted t input d \<longleftrightarrow>
     varchar 255 (cm_name input) \<and>
     (case cm_source input of
        Published n _ \<Rightarrow> varchar 255 n
      | Layer s _ _ \<Rightarrow> s = d_entropy d (d_draws d) \<or> s \<in> mr_id ` set (d_mounts d)
      | _ \<Rightarrow> True) \<and>
     (t, cm_name input) \<notin> mount_name_key ` set (d_mounts d) \<and>
     t \<in> tn_id ` set (d_tenants d)"

lemma mount_row_error_accepted:
  assumes "ids_drawn d" "apart t input d"
  shows "mount_row_error d (mount_row_of (d_entropy d (d_draws d)) t input s) = None \<longleftrightarrow> mount_accepted t input d"
proof -
  have "d_entropy d (d_draws d) \<notin> mr_id ` set (d_mounts d)"
    using ids_drawn_new(5) [OF assms(1)] by force
  moreover have "(t, cm_virtual_path input) \<notin> mount_path_key ` set (d_mounts d)"
    using assms(2) by (auto simp: apart_def list_all_iff mount_path_key_def overlap_def path_eq_def)
  moreover have "mount_name_key (mount_row_of i t input s) = (t, cm_name input)"
    "mount_path_key (mount_row_of i t input s) = (t, cm_virtual_path input)" for i
    by (simp_all add: mount_name_key_def mount_path_key_def)
  ultimately show ?thesis
    using mount_row_of_ok [of "d_entropy d (d_draws d)" t input s]
    by (cases "cm_source input") (auto simp: mount_row_error_None mount_accepted_def mount_row_of_def simp del: insert_iff)
qed

lemma row_decodes:
  assumes "decode_timestamp x = Some" "mount_row_ok r"
  shows "\<exists>e. row_to_mount_entry x r = Inr e"
proof -
  have "\<exists>m. parse_mode (mr_mode r) = Some m"
    using assms(2) by (auto simp: mount_row_ok_def parse_mode_def)
  moreover have "\<exists>s. source_of_row r = Inr s"
    using assms(2) by (auto simp: mount_row_ok_def valid_source_def source_of_row_def column_def)
  ultimately show ?thesis using assms(1) by (auto simp: row_to_mount_entry_def)
qed

lemma mount_list_decodes:
  assumes "decode_timestamp x = Some" "mounts_ok d"
  shows "\<exists>es. mount_list x t d = (Inr es, d)"
proof -
  have "\<exists>es. decode_rows (row_to_mount_entry x) rs = Inr es" if "set rs \<subseteq> set (d_mounts d)" for rs
    using that
  proof (induction rs)
    case (Cons r rs)
    then have "mount_row_ok r" using assms(2) by (auto simp: mounts_ok_def list_all_iff)
    from row_decodes [OF assms(1) this] Cons show ?case by auto
  qed simp
  then show ?thesis by (auto simp: mount_list_def)
qed

lemma check_path_conflict_eq:
  assumes "decode_timestamp x = Some" "mounts_ok d"
  shows "mount_check_path_conflict x t (cm_virtual_path input) (cm_is_file input) None d =
    (Inr (\<not> apart t input d), d)"
proof -
  from mount_list_decodes [OF assms] obtain es where "mount_list x t d = (Inr es, d)" by blast
  then have "\<exists>c d'. mount_check_path_conflict x t (cm_virtual_path input) (cm_is_file input) None d = (Inr c, d')"
    by (simp add: mount_check_path_conflict_def bindE_def)
  then show ?thesis using check_path_conflict_Inr [of x t input d] by auto
qed

lemma find_snoc_new:
  "\<not> (\<exists>r \<in> set rs. P r) \<Longrightarrow> P r \<Longrightarrow> find P (rs @ [r]) = Some r"
  by (auto simp: find_append split: option.split dest: find_SomeD)


text \<open>
  When the driver does not decode a column without time zone as \<open>DateTime<Utc>\<close>, a tenant
  that has a mount cannot read it and cannot create another one: every query of its mounts fails.
\<close>

theorem undecodable_mounts:
  assumes "decode_timestamp x = (\<lambda>_. None)" and "list_ex (\<lambda>r. mr_tenant_id r = t) (d_mounts d)"
  shows "mount_list x t d = (Inl DecodeError, d) \<and> mount_create x t input d = (Inl DecodeError, d)"
proof -
  have all: "decode_rows (row_to_mount_entry x) rs = Inl DecodeError" if "rs \<noteq> []" for rs
    using that assms(1) by (cases rs) (simp_all add: row_to_mount_entry_def)
  have "filter (\<lambda>r. mr_tenant_id r = t) (d_mounts d) \<noteq> []"
    using assms(2) by (simp add: filter_empty_conv list_ex_iff)
  then have "mount_list x t d = (Inl DecodeError, d)"
    by (simp add: mount_list_def all)
  then show ?thesis by (simp add: mount_create_def mount_check_path_conflict_def bindE_def)
qed

section \<open>Instances\<close>

definition example_mount_input :: "str \<Rightarrow> bool \<Rightarrow> create_mount_entry" where
  "example_mount_input path is_file =
     \<lparr>cm_name = path, cm_virtual_path = path, cm_source = WorkingLayer, cm_mode = CopyOnWrite,
      cm_is_file = is_file, cm_metadata = None\<rparr>"

lemma example_mounts: "mounts_ok example_db" "ids_drawn example_db"
  by (simp_all add: example_ids) code_simp

definition example_mounted_db :: db where
  "example_mounted_db = snd (mount_create example_ext 0 (example_mount_input ''/a'' False) example_db)"

lemma example_apart: "apart 0 (example_mount_input ''/a'' False) example_db"
  "mount_accepted 0 (example_mount_input ''/a'' False) example_db"
  by code_simp+


lemma example_mounted: "mounts_ok example_mounted_db"
  unfolding example_mounted_db_def by (rule preservesD [OF mounts_ok_mount_create example_mounts(1)])

theorem set_mount_entries_outcome_witness:
  "\<exists>ms d'. mount_set_entries 0 [example_mount_input ''/b'' False] example_mounted_db = (Inr ms, d') \<and>
     map mr_virtual_path (d_mounts d') = [''/b'']"
proof -
  have run: "map_sum (\<lambda>_. ()) (\<lambda>_. ()) (fst (mount_set_entries 0 [example_mount_input ''/b'' False] example_mounted_db)) = Inr ()"
    by code_simp
  have old: "filter (\<lambda>r. mr_tenant_id r \<noteq> 0) (d_mounts example_mounted_db) = []" by code_simp
  obtain ms d' where ms: "mount_set_entries 0 [example_mount_input ''/b'' False] example_mounted_db = (Inr ms, d')"
    using run by (cases "mount_set_entries 0 [example_mount_input ''/b'' False] example_mounted_db")
      (auto simp: map_sum_eq_Inr)
  with set_mount_entries_outcome [OF example_mounted, of 0 "[example_mount_input ''/b'' False]"]
  have "d_mounts d' = map2 (\<lambda>c e. mount_row_of (me_id e) 0 c (me_created_at e)) [example_mount_input ''/b'' False] ms"
    "length ms = 1"
    by (auto simp: old simp del: neq0_conv dest: list_all2_lengthD)
  then have "map mr_virtual_path (d_mounts d') = [''/b'']"
    by (cases ms) (auto simp: example_mount_input_def)
  with ms show ?thesis by (intro exI conjI)
qed

theorem undecodable_mounts_witness:
  "mount_create (example_ext\<lparr>decode_timestamp := \<lambda>_. None\<rparr>) 0 (example_mount_input ''/b'' False) example_mounted_db =
     (Inl DecodeError, example_mounted_db)"
proof -
  have "list_ex (\<lambda>r. mr_tenant_id r = 0) (d_mounts example_mounted_db)" by code_simp
  with undecodable_mounts [of "example_ext\<lparr>decode_timestamp := \<lambda>_. None\<rparr>" 0 example_mounted_db] show ?thesis
    by simp
qed

end
