(* ===== verification/Publish.thy ===== *)
theory Publish
  imports Mounts
begin

text \<open>
  Published mounts, by which one tenant lets others see a layer of a mount: the repository
  \<open>src/src/storage/published_mount.rs\<close> on the table of
  \<open>src/migrations/20260129231741_create_published_mounts.sql\<close>, and the service
  \<open>src/src/composition/publisher.rs\<close> in front of it.
\<close>

section \<open>Rows\<close>

fun target_columns :: "publish_target \<Rightarrow> str \<times> uuid option" where
  "target_columns (TargetLayer l) = (''layer'', Some l)"
| "target_columns TargetWorkingLayer = (''working_layer'', None)"

fun scope_columns :: "publish_scope \<Rightarrow> str \<times> uuid list option" where
  "scope_columns Public = (''public'', None)"
| "scope_columns (AllowList ts) = (''allow_list'', Some ts)"

definition target_of_row :: "published_row \<Rightarrow> db_error + publish_target" where
  "target_of_row r =
     (if pr_target_type r = ''layer'' then
        (case pr_layer_id r of
           None \<Rightarrow> Inl (Message ''layer_id required for layer target'')
         | Some l \<Rightarrow> Inr (TargetLayer l))
      else if pr_target_type r = ''working_layer'' then Inr TargetWorkingLayer
      else Inl (Message (''Unknown target type: '' @ pr_target_type r)))"

definition scope_of_row :: "published_row \<Rightarrow> db_error + publish_scope" where
  "scope_of_row r =
     (if pr_scope r = ''public'' then Inr Public
      else if pr_scope r = ''allow_list'' then
        Inr (AllowList (case pr_allowed_tenants r of None \<Rightarrow> [] | Some ts \<Rightarrow> ts))
      else Inl (Message (''Unknown scope: '' @ pr_scope r)))"

definition row_to_published_mount :: "ext \<Rightarrow> published_row \<Rightarrow> db_error + published_mount" where
  "row_to_published_mount x r =
     (case (decode_timestamp x (pr_created_at r), decode_timestamp x (pr_updated_at r)) of
        (Some created_at, Some updated_at) \<Rightarrow>
          (case target_of_row r of
             Inl e \<Rightarrow> Inl e
           | Inr target \<Rightarrow>
               (case scope_of_row r of
                  Inl e \<Rightarrow> Inl e
                | Inr scope \<Rightarrow>
                    Inr \<lparr>pm_id = pr_id r, pm_mount_entry_id = pr_mount_entry_id r,
                         pm_tenant_id = pr_tenant_id r, pm_name = pr_name r,
                         pm_description = pr_description r, pm_target = target, pm_scope = scope,
                         pm_created_at = created_at, pm_updated_at = updated_at\<rparr>))
      | _ \<Rightarrow> Inl DecodeError)"

section \<open>The repository\<close>

definition publish_get_by_name :: "ext \<Rightarrow> str \<Rightarrow> published_mount option db_op" where
  "publish_get_by_name x n = (\<lambda>d.
     (decode_optional (row_to_published_mount x) (find (\<lambda>r. pr_name r = n) (d_published d)), d))"

definition publish_get_info :: "ext \<Rightarrow> uuid \<Rightarrow> published_mount option db_op" where
  "publish_get_info x m = (\<lambda>d.
     (decode_optional (row_to_published_mount x) (find (\<lambda>r. pr_mount_entry_id r = m) (d_published d)), d))"

definition published_row_of :: "uuid \<Rightarrow> uuid \<Rightarrow> publish_mount_input \<Rightarrow> timestamp \<Rightarrow> published_row" where
  "published_row_of i t input time =
     \<lparr>pr_id = i, pr_mount_entry_id = pi_mount_entry_id input, pr_tenant_id = t, pr_name = pi_name input,
      pr_description = pi_description input, pr_target_type = fst (target_columns (pi_target input)),
      pr_layer_id = snd (target_columns (pi_target input)), pr_scope = fst (scope_columns (pi_scope input)),
      pr_allowed_tenants = snd (scope_columns (pi_scope input)), pr_created_at = time, pr_updated_at = time\<rparr>"

definition published_row_error :: "db \<Rightarrow> published_row \<Rightarrow> db_error option" where
  "published_row_error d r =
     (if \<not> varchar 255 (pr_name r) then Some ValueTooLong
      else if \<not> published_columns_ok r then Some CheckViolation
      else if exists_row (\<lambda>p. pr_id p = pr_id r) (d_published d) then Some UniqueViolation
      else if exists_row (\<lambda>p. pr_name p = pr_name r) (d_published d) then Some UniqueViolation
      else if exists_row (\<lambda>p. pr_mount_entry_id p = pr_mount_entry_id r) (d_published d) then Some UniqueViolation
      else if \<not> exists_row (\<lambda>m. mr_id m = pr_mount_entry_id r) (d_mounts d) then Some ForeignKeyViolation
      else if \<not> exists_row (\<lambda>t. tn_id t = pr_tenant_id r) (d_tenants d) then Some ForeignKeyViolation
      else None)"

definition insert_published_row :: "published_row \<Rightarrow> unit db_op" where
  "insert_published_row r = (\<lambda>d.
     case published_row_error d r of
       Some e \<Rightarrow> (Inl e, d)
     | None \<Rightarrow> (Inr (), d\<lparr>d_published := d_published d @ [r]\<rparr>))"

definition published_mount_of :: "uuid \<Rightarrow> uuid \<Rightarrow> publish_mount_input \<Rightarrow> timestamp \<Rightarrow> published_mount" where
  "published_mount_of i t input time =
     \<lparr>pm_id = i, pm_mount_entry_id = pi_mount_entry_id input, pm_tenant_id = t, pm_name = pi_name input,
      pm_description = pi_description input, pm_target = pi_target input, pm_scope = pi_scope input,
      pm_created_at = time, pm_updated_at = time\<rparr>"

definition insert_published :: "uuid \<Rightarrow> publish_mount_input \<Rightarrow> published_mount db_op" where
  "insert_published t input =
     bindE new_v4 (\<lambda>publish_id. bindE now (\<lambda>time.
     bindE (insert_published_row (published_row_of publish_id t input time)) (\<lambda>_.
       ret (published_mount_of publish_id t input time))))"

definition publish_mount :: "ext \<Rightarrow> publish_mount_input \<Rightarrow> published_mount db_op" where
  "publish_mount x input =
     bindE (publish_get_by_name x (pi_name input)) (\<lambda>named.
       if named \<noteq> None
       then raise (Message (''PublishNameExists: '' @ quoted (pi_name input) @ '' is already published''))
       else
     bindE (publish_get_info x (pi_mount_entry_id input)) (\<lambda>info.
       if info \<noteq> None then raise (Message ''Mount entry is already published, unpublish first'')
       else
     bindE (gets (\<lambda>d. find (\<lambda>m. mr_id m = pi_mount_entry_id input) (d_mounts d))) (\<lambda>found.
     bindE (ok_or (Message ''Mount entry not found'') found) (\<lambda>mount.
       insert_published (mr_tenant_id mount) input))))"

definition publish_unpublish_mount :: "uuid \<Rightarrow> bool db_op" where
  "publish_unpublish_mount m = (\<lambda>d.
     (Inr (exists_row (\<lambda>p. pr_mount_entry_id p = m) (d_published d)),
      d\<lparr>d_published := delete_rows (\<lambda>p. pr_mount_entry_id p = m) (d_published d)\<rparr>))"

definition publish_list_where :: "ext \<Rightarrow> (published_row \<Rightarrow> bool) \<Rightarrow> published_mount list db_op" where
  "publish_list_where x P = (\<lambda>d.
     (decode_rows (row_to_published_mount x) (rev (sort_key pr_created_at (filter P (d_published d)))), d))"

text \<open>
  The filter of \<open>list_published_mounts\<close>: the scope only when it is \<open>public\<close>, and the owner,
  whose identifier is bound as the parse of its own text.
\<close>

definition publish_list :: "ext \<Rightarrow> published_mount_filter \<Rightarrow> published_mount list db_op" where
  "publish_list x f =
     (let scoped = (\<lambda>p. pf_scope f = Some ''public'' \<longrightarrow> pr_scope p = ''public'') in
      case pf_owner_tenant_id f of
        None \<Rightarrow> publish_list_where x scoped
      | Some owner \<Rightarrow>
          (case uuid_parse x (uuid_to_string x owner) of
             None \<Rightarrow> raise (Message ''invalid UUID'')
           | Some t \<Rightarrow> publish_list_where x (\<lambda>p. scoped p \<and> pr_tenant_id p = t)))"

definition publish_list_tenant :: "ext \<Rightarrow> uuid \<Rightarrow> published_mount list db_op" where
  "publish_list_tenant x t = publish_list_where x (\<lambda>p. pr_tenant_id p = t)"

definition apply_publish_update :: "update_publish_input \<Rightarrow> timestamp \<Rightarrow> published_row \<Rightarrow> published_row" where
  "apply_publish_update u time r =
     r\<lparr>pr_description := (case up_description u of None \<Rightarrow> pr_description r | Some s \<Rightarrow> Some s),
       pr_scope := (case up_scope u of None \<Rightarrow> pr_scope r | Some s \<Rightarrow> fst (scope_columns s)),
       pr_allowed_tenants := (case up_scope u of None \<Rightarrow> pr_allowed_tenants r | Some s \<Rightarrow> snd (scope_columns s)),
       pr_updated_at := time\<rparr>"

definition publish_update :: "ext \<Rightarrow> uuid \<Rightarrow> update_publish_input \<Rightarrow> published_mount db_op" where
  "publish_update x p u =
     bindE now (\<lambda>time d.
       case find (\<lambda>r. pr_id r = p) (d_published d) of
         None \<Rightarrow> (Inl RowNotFound, d)
       | Some r \<Rightarrow> (row_to_published_mount x (apply_publish_update u time r),
           d\<lparr>d_published := update_rows (\<lambda>r. pr_id r = p) (apply_publish_update u time) (d_published d)\<rparr>))"

definition may_access :: "published_mount \<Rightarrow> uuid \<Rightarrow> bool" where
  "may_access published accessor =
     (pm_tenant_id published = accessor \<or>
      (case pm_scope published of Public \<Rightarrow> True | AllowList ts \<Rightarrow> accessor \<in> set ts))"

definition publish_check_access :: "ext \<Rightarrow> str \<Rightarrow> uuid \<Rightarrow> bool db_op" where
  "publish_check_access x n accessor =
     bindE (publish_get_by_name x n) (\<lambda>found.
     bindE (ok_or (Message (''Published mount not found: '' @ n)) found) (\<lambda>published.
       ret (may_access published accessor)))"

text \<open>
  \<open>NOT ($1 = ANY(allowed_tenants))\<close> is not true for a NULL array; \<open>array_append\<close> and
  \<open>array_remove\<close> work on the array otherwise, and removal keeps NULL.
\<close>

definition set_allowed :: "(uuid list \<Rightarrow> uuid list) \<Rightarrow> timestamp \<Rightarrow> published_row \<Rightarrow> published_row" where
  "set_allowed f time r =
     r\<lparr>pr_allowed_tenants := map_option f (pr_allowed_tenants r), pr_updated_at := time\<rparr>"

definition publish_add_allowed_tenant :: "uuid \<Rightarrow> uuid \<Rightarrow> unit db_op" where
  "publish_add_allowed_tenant p t =
     bindE now (\<lambda>time. modify (\<lambda>d. d\<lparr>d_published := update_rows
       (\<lambda>r. pr_id r = p \<and> pr_scope r = ''allow_list'' \<and>
          (case pr_allowed_tenants r of None \<Rightarrow> False | Some ts \<Rightarrow> t \<notin> set ts))
       (set_allowed (\<lambda>ts. ts @ [t]) time) (d_published d)\<rparr>))"

definition publish_remove_allowed_tenant :: "uuid \<Rightarrow> uuid \<Rightarrow> unit db_op" where
  "publish_remove_allowed_tenant p t =
     bindE now (\<lambda>time. modify (\<lambda>d. d\<lparr>d_published := update_rows
       (\<lambda>r. pr_id r = p \<and> pr_scope r = ''allow_list'')
       (set_allowed (removeAll t) time) (d_published d)\<rparr>))"

definition publish_resolve :: "ext \<Rightarrow> str \<Rightarrow> uuid \<Rightarrow> resolved_published db_op" where
  "publish_resolve x n accessor =
     bindE (publish_check_access x n accessor) (\<lambda>allowed.
       if \<not> allowed
       then raise (Message (''AccessDenied: tenant does not have access to '' @ quoted n))
       else
     bindE (publish_get_by_name x n) (\<lambda>found.
     bindE (ok_or (Message ''Published mount not found'') found) (\<lambda>published.
     bindE (case pm_target published of
              TargetLayer l \<Rightarrow> ret l
            | TargetWorkingLayer \<Rightarrow>
                bindE (gets (\<lambda>d. find (\<lambda>m. mr_id m = pm_mount_entry_id published) (d_mounts d))) (\<lambda>mount.
                bindE (ok_or (Message ''Mount entry not found'') mount) (\<lambda>m.
                  ok_or (Message ''Working layer not initialized for this mount'') (mr_current_layer_id m))))
       (\<lambda>layer_id. ret
          \<lparr>rp_mount_entry_id = pm_mount_entry_id published, rp_owner_tenant_id = pm_tenant_id published,
           rp_layer_id = layer_id, rp_is_working_layer = (pm_target published = TargetWorkingLayer)\<rparr>))))"

section \<open>The publisher\<close>

definition publisher_publish :: "ext \<Rightarrow> uuid \<Rightarrow> str \<Rightarrow> publish_mount_input \<Rightarrow> published_mount db_op" where
  "publisher_publish x t mount_name input =
     bindE (mount_get_by_name x t mount_name) (\<lambda>found.
     bindE (ok_or (Message (''Mount '' @ quoted mount_name @ '' not found'')) found) (\<lambda>mount.
       if me_tenant_id mount \<noteq> t then raise (Message ''Mount does not belong to this tenant'')
       else if me_id mount \<noteq> pi_mount_entry_id input then raise (Message ''Mount entry ID mismatch'')
       else if me_source mount \<noteq> WorkingLayer
         then raise (Message (''Only WorkingLayer mounts can be published (mount '' @ quoted mount_name @
                '' has different source type)''))
       else publish_mount x input))"

definition publisher_unpublish :: "ext \<Rightarrow> uuid \<Rightarrow> str \<Rightarrow> unit db_op" where
  "publisher_unpublish x t mount_name =
     bindE (mount_get_by_name x t mount_name) (\<lambda>found.
     bindE (ok_or (Message (''Mount '' @ quoted mount_name @ '' not found'')) found) (\<lambda>mount.
       if me_tenant_id mount \<noteq> t then raise (Message ''Mount does not belong to this tenant'')
       else bindE (publish_unpublish_mount (me_id mount)) (\<lambda>deleted.
         if \<not> deleted then raise (Message (''Mount '' @ quoted mount_name @ '' is not published''))
         else ret ())))"

definition publisher_resolve :: "ext \<Rightarrow> str \<Rightarrow> uuid \<Rightarrow> resolved_published db_op" where
  "publisher_resolve x n accessor = publish_resolve x n accessor"

section \<open>Invariants\<close>

lemma published_row_error_None:
  "published_row_error d r = None \<longleftrightarrow>
     varchar 255 (pr_name r) \<and> published_columns_ok r \<and>
     pr_id r \<notin> pr_id ` set (d_published d) \<and> pr_name r \<notin> pr_name ` set (d_published d) \<and>
     pr_mount_entry_id r \<notin> pr_mount_entry_id ` set (d_published d) \<and>
     pr_mount_entry_id r \<in> mr_id ` set (d_mounts d) \<and> pr_tenant_id r \<in> tn_id ` set (d_tenants d)"
proof -
  have img: "exists_row (\<lambda>m. f m = v) xs \<longleftrightarrow> v \<in> f ` set xs" for f :: "'x \<Rightarrow> 'y" and v xs
    by (auto simp: image_iff)
  show ?thesis unfolding published_row_error_def img by auto
qed

lemma published_row_error_cong:
  assumes "d_published d' = d_published d" "d_mounts d' = d_mounts d" "d_tenants d' = d_tenants d"
  shows "published_row_error d' = published_row_error d"
  by (rule ext) (simp only: published_row_error_def assms)

lemma published_row_of_simps [simp]:
  "pr_id (published_row_of i t input s) = i" "pr_tenant_id (published_row_of i t input s) = t"
  "pr_mount_entry_id (published_row_of i t input s) = pi_mount_entry_id input"
  "pr_name (published_row_of i t input s) = pi_name input"
  by (simp_all add: published_row_of_def)

lemma published_row_of_columns: "published_columns_ok (published_row_of i t input s)"
  by (cases "pi_target input"; cases "pi_scope input")
     (simp_all add: published_columns_ok_def published_row_of_def)

lemma insert_published_eq:
  "insert_published t input d =
     (let d1 = d\<lparr>d_draws := Suc (d_draws d), d_clock := Suc (d_clock d)\<rparr>;
          r = published_row_of (d_entropy d (d_draws d)) t input (d_clock d)
      in case published_row_error d1 r of
        Some e \<Rightarrow> (Inl e, d1)
      | None \<Rightarrow> (Inr (published_mount_of (d_entropy d (d_draws d)) t input (d_clock d)),
                 d1\<lparr>d_published := d_published d @ [r]\<rparr>))"
  by (simp add: insert_published_def Let_def bindE_def insert_published_row_def split: option.split)

lemma publish_reads [simp]:
  "snd (publish_get_by_name x n d) = d" "snd (publish_get_info x m d) = d" "snd (mount_get_by_name x t k d) = d"
  by (simp_all add: publish_get_by_name_def publish_get_info_def mount_get_by_name_def)

lemma preserves_read [preserves_rules]:
  "preserves P (publish_get_by_name x n)" "preserves P (publish_get_info x m)"
  "preserves P (mount_get_by_name x t k)" "preserves P (mount_get x i)" "preserves P (mount_list x t)"
  by (rule preservesI; simp add: mount_get_def mount_list_def)+

interpretation mount_tbl: keyed_table mr_id d_mounts wf_db
  by unfold_locales (simp add: wf_db_def wf_mounts_def)

interpretation published_tbl: keyed_table pr_id d_published wf_db
  by unfold_locales (simp add: wf_db_def wf_mounts_def)

interpretation published_name_tbl: keyed_table pr_name d_published wf_db
  by unfold_locales (simp add: wf_db_def wf_mounts_def)

text \<open>
  The publication of a mount inserts a row for the owner of that mount, or changes nothing but
  clock and identifiers.
\<close>

lemma publish_mount_step:
  "(\<exists>e. publish_mount x input d = (Inl e, d)) \<or>
   (\<exists>m. find (\<lambda>m. mr_id m = pi_mount_entry_id input) (d_mounts d) = Some m \<and>
      publish_mount x input d = insert_published (mr_tenant_id m) input d)"
  by (auto simp: publish_mount_def bindE_def publish_get_by_name_def publish_get_info_def ok_or_def
      simp del: find_None_conv split: sum.split option.split)

lemma publish_mount_cases:
  obtains (published) m where "m \<in> set (d_mounts d)" "mr_id m = pi_mount_entry_id input"
      "published_row_error d (published_row_of (d_entropy d (d_draws d)) (mr_tenant_id m) input (d_clock d)) = None"
      "publish_mount x input d =
        (Inr (published_mount_of (d_entropy d (d_draws d)) (mr_tenant_id m) input (d_clock d)),
         d\<lparr>d_draws := Suc (d_draws d), d_clock := Suc (d_clock d), d_published := d_published d @
             [published_row_of (d_entropy d (d_draws d)) (mr_tenant_id m) input (d_clock d)]\<rparr>)"
  | (refused) e c n where "publish_mount x input d = (Inl e, d\<lparr>d_draws := n, d_clock := c\<rparr>)" "d_draws d \<le> n"
proof -
  have err: "published_row_error (d\<lparr>d_draws := n, d_clock := c\<rparr>) = published_row_error d" for n c
    by (rule published_row_error_cong; simp)
  from publish_mount_step [of x input d] show thesis
  proof (elim disjE exE conjE)
    fix e assume "publish_mount x input d = (Inl e, d)"
    then have "publish_mount x input d = (Inl e, d\<lparr>d_draws := d_draws d, d_clock := d_clock d\<rparr>)" by simp
    then show thesis by (rule refused) simp
  next
    fix m assume m: "find (\<lambda>m. mr_id m = pi_mount_entry_id input) (d_mounts d) = Some m"
      and p: "publish_mount x input d = insert_published (mr_tenant_id m) input d"
    show thesis
    proof (cases "published_row_error d (published_row_of (d_entropy d (d_draws d)) (mr_tenant_id m) input (d_clock d))")
      case None
      with find_SomeD [OF m] p show thesis
        by (intro published [of m]) (simp_all add: insert_published_eq Let_def err)
    next
      case (Some e)
      with p have "publish_mount x input d = (Inl e, d\<lparr>d_draws := Suc (d_draws d), d_clock := Suc (d_clock d)\<rparr>)"
        by (simp add: insert_published_eq Let_def err)
      then show thesis by (rule refused) simp
    qed
  qed
qed

lemma publish_insert_keeps:
  assumes "m \<in> set (d_mounts d)" "mr_id m = pi_mount_entry_id input"
    and "published_row_error d (published_row_of i (mr_tenant_id m) input s) = None"
  shows "wf_db d \<Longrightarrow> wf_db (d\<lparr>d_draws := n, d_clock := c, d_published := d_published d @ [published_row_of i (mr_tenant_id m) input s]\<rparr>)"
    and "mounts_ok d \<Longrightarrow> mounts_ok (d\<lparr>d_draws := n, d_clock := c, d_published := d_published d @ [published_row_of i (mr_tenant_id m) input s]\<rparr>)"
proof -
  assume "wf_db d"
  with assms(3) show "wf_db (d\<lparr>d_draws := n, d_clock := c, d_published := d_published d @ [published_row_of i (mr_tenant_id m) input s]\<rparr>)"
    by (simp add: published_row_error_None wf_db_def wf_parts)
next
  assume "mounts_ok d"
  moreover have "(pi_mount_entry_id input, mr_tenant_id m) \<in> mount_owner ` set (d_mounts d)"
    using assms(1,2) by (force simp: mount_owner_def image_iff)
  ultimately show "mounts_ok (d\<lparr>d_draws := n, d_clock := c, d_published := d_published d @ [published_row_of i (mr_tenant_id m) input s]\<rparr>)"
    by (simp add: mounts_ok_def published_row_ok_def published_row_of_columns)
qed

lemma ticks_keep:
  "wf_db d \<Longrightarrow> wf_db (d\<lparr>d_draws := n, d_clock := c\<rparr>)" "mounts_ok d \<Longrightarrow> mounts_ok (d\<lparr>d_draws := n, d_clock := c\<rparr>)"
  "ids_drawn d \<Longrightarrow> d_draws d \<le> n \<Longrightarrow> ids_drawn (d\<lparr>d_draws := n, d_clock := c\<rparr>)"
proof -
  assume d: "ids_drawn d" "d_draws d \<le> n"
  show "ids_drawn (d\<lparr>d_draws := n, d_clock := c\<rparr>)"
    by (rule ids_drawn_step [OF d(1)]) (use d in \<open>auto simp: db_ids_def\<close>)
qed (simp_all add: wf_db_def wf_parts mounts_ok_def)

lemma wf_publish_mount [preserves_rules]: "preserves wf_db (publish_mount x input)"
proof (rule preservesI)
  fix d assume "wf_db d"
  then show "wf_db (snd (publish_mount x input d))"
    by (cases rule: publish_mount_cases [of d input x]) (auto simp: publish_insert_keeps ticks_keep)
qed

lemma mounts_ok_publish_mount [preserves_rules]: "preserves mounts_ok (publish_mount x input)"
proof (rule preservesI)
  fix d assume "mounts_ok d"
  then show "mounts_ok (snd (publish_mount x input d))"
    by (cases rule: publish_mount_cases [of d input x]) (auto simp: publish_insert_keeps ticks_keep)
qed

lemma drawn_publish_mount [preserves_rules]: "preserves ids_drawn (publish_mount x input)"
proof (rule preservesI)
  fix d assume d: "ids_drawn d"
  show "ids_drawn (snd (publish_mount x input d))"
  proof (cases rule: publish_mount_cases [of d input x])
    case (published m)
    show ?thesis unfolding published(4) snd_conv
      by (rule ids_drawn_step [OF d]) (auto simp: db_ids_def)
  qed (simp add: ticks_keep d)
qed

text \<open>Changes of rows that keep their identity: updates and the two changes of the allow list.\<close>

definition published_keys :: "published_row \<Rightarrow> uuid \<times> uuid \<times> uuid \<times> str \<times> str \<times> uuid option" where
  "published_keys r = (pr_id r, pr_mount_entry_id r, pr_tenant_id r, pr_name r, pr_target_type r, pr_layer_id r)"

lemma published_update_keeps:
  assumes keys: "\<And>r. published_keys (f r) = published_keys r"
    and scope: "\<And>r. pr_scope (f r) \<in> {pr_scope r, ''public'', ''allow_list''}"
  shows "wf_db d \<Longrightarrow> wf_db (d\<lparr>d_clock := c, d_published := update_rows P f (d_published d)\<rparr>)"
    and "mounts_ok d \<Longrightarrow> mounts_ok (d\<lparr>d_clock := c, d_published := update_rows P f (d_published d)\<rparr>)"
    and "ids_drawn d \<Longrightarrow> ids_drawn (d\<lparr>d_clock := c, d_published := update_rows P f (d_published d)\<rparr>)"
proof -
  from keys have k: "pr_id (f r) = pr_id r" "pr_mount_entry_id (f r) = pr_mount_entry_id r"
    "pr_tenant_id (f r) = pr_tenant_id r" "pr_name (f r) = pr_name r"
    "pr_target_type (f r) = pr_target_type r" "pr_layer_id (f r) = pr_layer_id r" for r
    by (simp_all add: published_keys_def)
  show "wf_db (d\<lparr>d_clock := c, d_published := update_rows P f (d_published d)\<rparr>)" if "wf_db d"
    using that by (simp add: wf_db_def wf_parts map_update_rows_same k)
  show "ids_drawn (d\<lparr>d_clock := c, d_published := update_rows P f (d_published d)\<rparr>)" if "ids_drawn d"
    by (rule ids_drawn_step [OF that]) (simp_all add: db_ids_def image_update_rows k)
  have "published_columns_ok (f r)" if "published_columns_ok r" for r
    using that scope [of r] by (auto simp: published_columns_ok_def k)
  then have "published_row_ok ms (f r)" if "published_row_ok ms r" for ms r
    using that by (simp add: published_row_ok_def k)
  then show "mounts_ok (d\<lparr>d_clock := c, d_published := update_rows P f (d_published d)\<rparr>)" if "mounts_ok d"
    using that by (auto simp: mounts_ok_def list_all_iff set_update_rows)
qed

lemma scope_columns_valid: "fst (scope_columns s) \<in> {''public'', ''allow_list''}"
  by (cases s) auto

lemma publish_changes:
  "snd (publish_update x p u d) = d\<lparr>d_clock := Suc (d_clock d)\<rparr> \<or>
   snd (publish_update x p u d) = d\<lparr>d_clock := Suc (d_clock d),
     d_published := update_rows (\<lambda>r. pr_id r = p) (apply_publish_update u (d_clock d)) (d_published d)\<rparr>"
  by (cases "find (\<lambda>r. pr_id r = p) (d_published d)") (simp_all add: publish_update_def del: find_None_conv)

lemma apply_publish_update_keys:
  "published_keys (apply_publish_update u s r) = published_keys r"
  "pr_scope (apply_publish_update u s r) \<in> {pr_scope r, ''public'', ''allow_list''}"
  using scope_columns_valid by (auto simp: apply_publish_update_def published_keys_def split: option.split)

lemma clock_tick:
  "wf_db (d\<lparr>d_clock := c\<rparr>) = wf_db d" "mounts_ok (d\<lparr>d_clock := c\<rparr>) = mounts_ok d"
  "ids_drawn (d\<lparr>d_clock := c\<rparr>) = ids_drawn d"
  by (simp_all add: wf_db_def wf_parts mounts_ok_def ids_drawn_def db_ids_def)

lemma preserves_eitherI:
  assumes "\<And>d. snd (m d) = g d \<or> snd (m d) = h d" "\<And>d. P d \<Longrightarrow> P (g d)" "\<And>d. P d \<Longrightarrow> P (h d)"
  shows "preserves P m"
proof (rule preservesI)
  fix d assume "P d"
  with assms(1) [of d] assms(2,3) [of d] show "P (snd (m d))" by auto
qed

lemma preserves_publish_update [preserves_rules]:
  "preserves wf_db (publish_update x p u)" "preserves mounts_ok (publish_update x p u)"
  "preserves ids_drawn (publish_update x p u)"
proof -
  note keep = published_update_keeps [OF apply_publish_update_keys]
  show "preserves wf_db (publish_update x p u)"
    by (rule preserves_eitherI [OF publish_changes]) (simp only: clock_tick, erule keep)
  show "preserves mounts_ok (publish_update x p u)"
    by (rule preserves_eitherI [OF publish_changes]) (simp only: clock_tick, erule keep)
  show "preserves ids_drawn (publish_update x p u)"
    by (rule preserves_eitherI [OF publish_changes]) (simp only: clock_tick, erule keep)
qed

definition may_be_added :: "uuid \<Rightarrow> uuid \<Rightarrow> published_row \<Rightarrow> bool" where
  "may_be_added p t r \<longleftrightarrow> pr_id r = p \<and> pr_scope r = ''allow_list'' \<and>
     (case pr_allowed_tenants r of None \<Rightarrow> False | Some ts \<Rightarrow> t \<notin> set ts)"

lemma allow_list_changes:
  "snd (publish_add_allowed_tenant p t d) = d\<lparr>d_clock := Suc (d_clock d),
     d_published := update_rows (may_be_added p t) (set_allowed (\<lambda>ts. ts @ [t]) (d_clock d)) (d_published d)\<rparr>"
  "snd (publish_remove_allowed_tenant p t d) = d\<lparr>d_clock := Suc (d_clock d),
     d_published := update_rows (\<lambda>r. pr_id r = p \<and> pr_scope r = ''allow_list'')
       (set_allowed (removeAll t) (d_clock d)) (d_published d)\<rparr>"
  by (simp_all add: publish_add_allowed_tenant_def publish_remove_allowed_tenant_def may_be_added_def [abs_def])

lemma preserves_allow_list [preserves_rules]:
  "preserves wf_db (publish_add_allowed_tenant p t)" "preserves wf_db (publish_remove_allowed_tenant p t)"
  "preserves mounts_ok (publish_add_allowed_tenant p t)" "preserves mounts_ok (publish_remove_allowed_tenant p t)"
  "preserves ids_drawn (publish_add_allowed_tenant p t)" "preserves ids_drawn (publish_remove_allowed_tenant p t)"
proof -
  have keys: "published_keys (set_allowed f s r) = published_keys r"
    "pr_scope (set_allowed f s r) \<in> {pr_scope r, ''public'', ''allow_list''}" for f s r
    by (simp_all add: published_keys_def set_allowed_def)
  note keep = published_update_keeps [OF keys]
  show "preserves wf_db (publish_add_allowed_tenant p t)" "preserves wf_db (publish_remove_allowed_tenant p t)"
    "preserves mounts_ok (publish_add_allowed_tenant p t)" "preserves mounts_ok (publish_remove_allowed_tenant p t)"
    "preserves ids_drawn (publish_add_allowed_tenant p t)" "preserves ids_drawn (publish_remove_allowed_tenant p t)"
    by (rule preservesI, simp only: allow_list_changes, erule keep)+
qed

lemma preserves_unpublish [preserves_rules]:
  "preserves wf_db (publish_unpublish_mount m)" "preserves mounts_ok (publish_unpublish_mount m)"
  "preserves ids_drawn (publish_unpublish_mount m)"
proof -
  show "preserves wf_db (publish_unpublish_mount m)"
    by (rule preservesI) (simp add: publish_unpublish_mount_def wf_db_def wf_parts distinct_map_delete_rows)
  show "preserves mounts_ok (publish_unpublish_mount m)"
    by (rule preservesI) (simp add: publish_unpublish_mount_def mounts_ok_def list_all_iff)
  show "preserves ids_drawn (publish_unpublish_mount m)"
    by (rule preserves_shrinkI) (auto simp: publish_unpublish_mount_def db_ids_def)
qed

lemma preserves_publisher [preserves_rules]:
  "preserves wf_db (publisher_publish x t n input)" "preserves wf_db (publisher_unpublish x t n)"
  "preserves mounts_ok (publisher_publish x t n input)" "preserves mounts_ok (publisher_unpublish x t n)"
  "preserves ids_drawn (publisher_publish x t n input)" "preserves ids_drawn (publisher_unpublish x t n)"
  unfolding publisher_publish_def publisher_unpublish_def by (intro preserves_rules)+

lemma layers_ok_publish [preserves_rules]:
  "preserves layers_ok (publish_mount x input)" "preserves layers_ok (publish_unpublish_mount m)"
  "preserves layers_ok (publish_update x p u)" "preserves layers_ok (publish_add_allowed_tenant p t)"
  "preserves layers_ok (publish_remove_allowed_tenant p t)"
proof -
  have "layer_view (snd (publish_mount x input d)) = layer_view d" for d
    by (cases rule: publish_mount_cases [of d input x]) (auto simp: layer_view_def)
  then show "preserves layers_ok (publish_mount x input)"
    by (rule layers_ok_mount_frame [OF wf_publish_mount])
  have "layer_view (snd (publish_update x p u d)) = layer_view d" for d
    using publish_changes [of x p u d] by (auto simp: layer_view_def)
  then show "preserves layers_ok (publish_update x p u)"
    by (rule layers_ok_mount_frame [OF preserves_publish_update(1)])
  show "preserves layers_ok (publish_unpublish_mount m)"
    by (rule layers_ok_mount_frame [OF preserves_unpublish(1)])
       (simp add: publish_unpublish_mount_def layer_view_def)
  show "preserves layers_ok (publish_add_allowed_tenant p t)"
    by (rule layers_ok_mount_frame [OF preserves_allow_list(1)]) (simp add: allow_list_changes layer_view_def)
  show "preserves layers_ok (publish_remove_allowed_tenant p t)"
    by (rule layers_ok_mount_frame [OF preserves_allow_list(2)]) (simp add: allow_list_changes layer_view_def)
qed

lemma layers_ok_publisher [preserves_rules]:
  "preserves layers_ok (publisher_publish x t n input)" "preserves layers_ok (publisher_unpublish x t n)"
  unfolding publisher_publish_def publisher_unpublish_def by (intro preserves_rules)+

section \<open>Who may resolve a publication, and to what\<close>

definition row_access :: "published_row \<Rightarrow> uuid \<Rightarrow> bool" where
  "row_access r accessor \<longleftrightarrow> pr_tenant_id r = accessor \<or> pr_scope r = ''public'' \<or>
     (\<exists>ts. pr_allowed_tenants r = Some ts \<and> accessor \<in> set ts)"

lemma published_decodes:
  assumes "decode_timestamp x = Some" "published_columns_ok r"
  shows "\<exists>p. row_to_published_mount x r = Inr p \<and> pm_mount_entry_id p = pr_mount_entry_id r \<and>
    pm_tenant_id p = pr_tenant_id r \<and> pm_name p = pr_name r \<and>
    pm_target p = (case pr_layer_id r of None \<Rightarrow> TargetWorkingLayer | Some l \<Rightarrow> TargetLayer l) \<and>
    may_access p a = (pr_tenant_id r = a \<or> pr_scope r = ''public'' \<or>
      (\<exists>ts. pr_allowed_tenants r = Some ts \<and> a \<in> set ts))"
proof -
  consider (l) l where "pr_target_type r = ''layer''" "pr_layer_id r = Some l"
    | (w) "pr_target_type r = ''working_layer''" "pr_layer_id r = None"
    using assms(2) by (auto simp: published_columns_ok_def)
  then have t: "target_of_row r = Inr (case pr_layer_id r of None \<Rightarrow> TargetWorkingLayer | Some l \<Rightarrow> TargetLayer l)"
    by cases (simp_all add: target_of_row_def)
  define sc where "sc = (if pr_scope r = ''public'' then Public
      else AllowList (case pr_allowed_tenants r of None \<Rightarrow> [] | Some ts \<Rightarrow> ts))"
  have sc: "scope_of_row r = Inr sc"
    using assms(2) by (auto simp: published_columns_ok_def scope_of_row_def sc_def)
  have access: "(case sc of Public \<Rightarrow> True | AllowList ts \<Rightarrow> a \<in> set ts) \<longleftrightarrow>
      pr_scope r = ''public'' \<or> (\<exists>ts. pr_allowed_tenants r = Some ts \<and> a \<in> set ts)"
    using assms(2) by (cases "pr_scope r = ''public''"; cases "pr_allowed_tenants r") (simp_all add: sc_def)
  have "row_to_published_mount x r = Inr \<lparr>pm_id = pr_id r, pm_mount_entry_id = pr_mount_entry_id r,
      pm_tenant_id = pr_tenant_id r, pm_name = pr_name r, pm_description = pr_description r,
      pm_target = (case pr_layer_id r of None \<Rightarrow> TargetWorkingLayer | Some l \<Rightarrow> TargetLayer l), pm_scope = sc,
      pm_created_at = pr_created_at r, pm_updated_at = pr_updated_at r\<rparr>"
    by (simp add: row_to_published_mount_def t sc assms(1))
  then show ?thesis by (simp add: may_access_def access)
qed

lemma mounts_ok_lookup:
  assumes "mounts_ok d" "r \<in> set (d_published d)"
  shows "published_columns_ok r"
    and "\<exists>m. find (\<lambda>m. mr_id m = pr_mount_entry_id r) (d_mounts d) = Some m \<and> mr_current_layer_id m = None"
proof -
  from assms have "published_row_ok (d_mounts d) r" by (simp add: mounts_ok_def list_all_iff)
  then show "published_columns_ok r" by (simp add: published_row_ok_def)
  from \<open>published_row_ok (d_mounts d) r\<close> have "\<exists>m \<in> set (d_mounts d). mr_id m = pr_mount_entry_id r"
    by (force simp: published_row_ok_def mount_owner_def)
  then obtain m where m: "find (\<lambda>m. mr_id m = pr_mount_entry_id r) (d_mounts d) = Some m"
    by (cases "find (\<lambda>m. mr_id m = pr_mount_entry_id r) (d_mounts d)") auto
  with find_SomeD [OF m] assms(1) show
    "\<exists>m. find (\<lambda>m. mr_id m = pr_mount_entry_id r) (d_mounts d) = Some m \<and> mr_current_layer_id m = None"
    by (auto simp: mounts_ok_def list_all_iff mount_row_ok_def)
qed

lemma check_access_eq:
  assumes "decode_timestamp x = Some" "mounts_ok d"
  shows "publish_check_access x n a d =
    (case find (\<lambda>r. pr_name r = n) (d_published d) of
       None \<Rightarrow> (Inl (Message (''Published mount not found: '' @ n)), d)
     | Some r \<Rightarrow> (Inr (pr_tenant_id r = a \<or> pr_scope r = ''public'' \<or>
         (\<exists>ts. pr_allowed_tenants r = Some ts \<and> a \<in> set ts)), d))"
proof (cases "find (\<lambda>r. pr_name r = n) (d_published d)")
  case None
  then show ?thesis
    by (simp add: publish_check_access_def publish_get_by_name_def bindE_def decode_optional_def del: find_None_conv)
next
  case (Some r)
  with find_SomeD [OF Some] mounts_ok_lookup(1) [OF assms(2)] have "published_columns_ok r" by blast
  from published_decodes [OF assms(1) this, of a] Some show ?thesis
    by (auto simp: publish_check_access_def publish_get_by_name_def bindE_def decode_optional_def)
qed

lemma publish_resolve_eq:
  assumes "decode_timestamp x = Some" "mounts_ok d"
  shows "publish_resolve x n a d =
    (case find (\<lambda>r. pr_name r = n) (d_published d) of
       None \<Rightarrow> (Inl (Message (''Published mount not found: '' @ n)), d)
     | Some r \<Rightarrow>
         if pr_tenant_id r = a \<or> pr_scope r = ''public'' \<or>
            (\<exists>ts. pr_allowed_tenants r = Some ts \<and> a \<in> set ts)
         then (case pr_layer_id r of
                 Some l \<Rightarrow> (Inr \<lparr>rp_mount_entry_id = pr_mount_entry_id r, rp_owner_tenant_id = pr_tenant_id r,
                                 rp_layer_id = l, rp_is_working_layer = False\<rparr>, d)
               | None \<Rightarrow> (Inl (Message ''Working layer not initialized for this mount''), d))
         else (Inl (Message (''AccessDenied: tenant does not have access to '' @ quoted n)), d))"
proof (cases "find (\<lambda>r. pr_name r = n) (d_published d)")
  case None
  then show ?thesis
    by (simp add: publish_resolve_def bindE_def check_access_eq [OF assms] del: find_None_conv)
next
  case (Some r)
  have r: "r \<in> set (d_published d)" using find_SomeD [OF Some] by blast
  obtain m where m: "find (\<lambda>m. mr_id m = pr_mount_entry_id r) (d_mounts d) = Some m" "mr_current_layer_id m = None"
    using mounts_ok_lookup(2) [OF assms(2) r] by blast
  obtain p where p: "row_to_published_mount x r = Inr p" "pm_mount_entry_id p = pr_mount_entry_id r"
    "pm_tenant_id p = pr_tenant_id r"
    "pm_target p = (case pr_layer_id r of None \<Rightarrow> TargetWorkingLayer | Some l \<Rightarrow> TargetLayer l)"
    using published_decodes [OF assms(1) mounts_ok_lookup(1) [OF assms(2) r]] by blast
  have "publish_get_by_name x n d = (Inr (Some p), d)"
    using Some p(1) by (simp add: publish_get_by_name_def decode_optional_def)
  with Some m p show ?thesis
    by (simp add: publish_resolve_def bindE_def check_access_eq [OF assms] split: option.split)
qed



text \<open>
  The allow list of a publication: adding a tenant admits that tenant and nobody else, and
  removing it withdraws exactly its admission, except that the owner always keeps access.
\<close>

theorem allow_list_exact:
  assumes "decode_timestamp x = Some" "mounts_ok d" "wf_db d"
    and "find (\<lambda>q. pr_name q = n) (d_published d) = Some r"
    and "pr_scope r = ''allow_list''" "pr_allowed_tenants r = Some ts"
  shows "fst (publish_check_access x n a (snd (publish_add_allowed_tenant (pr_id r) t d))) =
      Inr (a = pr_tenant_id r \<or> a \<in> set ts \<or> a = t) \<and>
    fst (publish_check_access x n a (snd (publish_remove_allowed_tenant (pr_id r) t d))) =
      Inr (a = pr_tenant_id r \<or> (a \<in> set ts \<and> a \<noteq> t))"
proof -
  have r: "r \<in> set (d_published d)" "pr_name r = n" using find_SomeD [OF assms(4)] by auto
  have names: "pr_name q = n \<longleftrightarrow> pr_id q = pr_id r" if "q \<in> set (d_published d)" for q
    using that r published_tbl.lookup_unique [OF assms(3), of q r] published_name_tbl.lookup_unique [OF assms(3), of q r]
    by auto
  have look: "find (\<lambda>q. pr_name q = n) (update_rows P (set_allowed f s) (d_published d)) =
      Some (if P r then set_allowed f s r else r)" for P f s
  proof -
    have "find (\<lambda>q. pr_name q = n) (update_rows P (set_allowed f s) (d_published d)) =
        map_option (\<lambda>q. if P q then set_allowed f s q else q) (find (\<lambda>q. pr_name q = n) (d_published d))"
      unfolding update_rows_def by (rule find_map_same_pred) (simp add: set_allowed_def)
    then show ?thesis by (simp add: assms(4))
  qed
  have ok: "mounts_ok (snd (publish_add_allowed_tenant (pr_id r) t d))"
    "mounts_ok (snd (publish_remove_allowed_tenant (pr_id r) t d))"
    by (rule preservesD [of mounts_ok]; intro preserves_rules assms(2))+
  have "fst (publish_check_access x n a (snd (publish_add_allowed_tenant (pr_id r) t d))) =
      Inr (a = pr_tenant_id r \<or> a \<in> set ts \<or> a = t)"
    unfolding check_access_eq [OF assms(1) ok(1)]
    using assms(5,6) by (auto simp: allow_list_changes look may_be_added_def set_allowed_def)
  moreover have "fst (publish_check_access x n a (snd (publish_remove_allowed_tenant (pr_id r) t d))) =
      Inr (a = pr_tenant_id r \<or> (a \<in> set ts \<and> a \<noteq> t))"
    unfolding check_access_eq [OF assms(1) ok(2)]
    using assms(5,6) by (auto simp: allow_list_changes look set_allowed_def)
  ultimately show ?thesis ..
qed

section \<open>Instances\<close>

definition example_publication :: publish_mount_input where
  "example_publication = \<lparr>pi_mount_entry_id = 2, pi_name = ''p'', pi_description = None,
     pi_target = TargetLayer 99, pi_scope = AllowList [7]\<rparr>"

definition example_published_db :: db where
  "example_published_db = snd (publisher_publish example_ext 0 ''/a'' example_publication example_mounted_db)"

lemma example_time: "decode_timestamp example_ext = Some"
  by (simp add: example_ext_def)

lemma example_mounted_wf: "wf_db example_mounted_db"
  unfolding example_mounted_db_def by (rule preservesD [OF wf_mounts_ops(1)]) code_simp

lemma example_publish_runs:
  "\<exists>p. publisher_publish example_ext 0 ''/a'' example_publication example_mounted_db = (Inr p, example_published_db)"
proof -
  have "map_sum (\<lambda>_. ()) (\<lambda>_. ()) (fst (publisher_publish example_ext 0 ''/a'' example_publication example_mounted_db)) = Inr ()"
    by code_simp
  then show ?thesis
    unfolding example_published_db_def
    by (cases "publisher_publish example_ext 0 ''/a'' example_publication example_mounted_db") (auto simp: map_sum_eq_Inr)
qed

lemma example_published: "mounts_ok example_published_db" "wf_db example_published_db"
  unfolding example_published_db_def
  by (rule preservesD, rule preserves_publisher, rule example_mounted example_mounted_wf)+

lemma example_published_row: "map_option (\<lambda>r. (pr_id r, pr_tenant_id r, pr_scope r, pr_allowed_tenants r, pr_layer_id r))
    (find (\<lambda>r. pr_name r = ''p'') (d_published example_published_db)) = Some (3, 0, ''allow_list'', Some [7], Some 99)"
  by code_simp

lemma example_found: "\<exists>r. find (\<lambda>r. pr_name r = ''p'') (d_published example_published_db) = Some r \<and>
    pr_id r = 3 \<and> pr_tenant_id r = 0 \<and> pr_scope r = ''allow_list'' \<and> pr_allowed_tenants r = Some [7] \<and> pr_layer_id r = Some 99"
  using example_published_row by auto



theorem allow_list_exact_witness:
  "fst (publish_check_access example_ext ''p'' 8 (snd (publish_add_allowed_tenant 3 8 example_published_db))) = Inr True"
proof -
  obtain r where "find (\<lambda>r. pr_name r = ''p'') (d_published example_published_db) = Some r" "pr_id r = 3"
    "pr_scope r = ''allow_list''" "pr_allowed_tenants r = Some [7]"
    using example_found by blast
  with allow_list_exact [OF example_time example_published this(1,3,4), of 8 8] show ?thesis by simp
qed

end
