(* ===== verification/LayerChains.thy ===== *)
theory LayerChains
  imports Publish
begin

text \<open>
  The chains of layers of single mounts: \<open>src/src/composition/layer_chain.rs\<close>, over the layer
  repository and the repository of mounts.
\<close>

record layer_chain =
  lc_mount_entry_id :: uuid
  lc_mount_name :: str
  lc_layers :: "layer list"
  lc_working_layer :: layer

definition chain_initialize :: "ext \<Rightarrow> uuid \<Rightarrow> uuid \<Rightarrow> unit db_op" where
  "chain_initialize x t m = bindE (layer_create_initial_layers x t m) (\<lambda>_. ret ())"

definition chain_get :: "ext \<Rightarrow> uuid \<Rightarrow> layer_chain db_op" where
  "chain_get x m =
     bindE (mount_get x m) (\<lambda>found.
     bindE (ok_or (Message ''Mount entry not found'') found) (\<lambda>mount.
     bindE (layer_get_mount_layers m) (\<lambda>layers.
     bindE (ok_or (Message ''Working layer not found for mount'') (find ly_is_working layers)) (\<lambda>working_layer.
       ret \<lparr>lc_mount_entry_id = m, lc_mount_name = me_name mount,
            lc_layers = sort_key ly_created_at layers, lc_working_layer = working_layer\<rparr>))))"

definition chain_snapshot :: "ext \<Rightarrow> uuid \<Rightarrow> str \<Rightarrow> str \<Rightarrow> str option \<Rightarrow> layer db_op" where
  "chain_snapshot x t mount_name snapshot_name description =
     bindE (mount_get_by_name x t mount_name) (\<lambda>found.
     bindE (ok_or (Message (''Mount '' @ quoted mount_name @ '' not found'')) found) (\<lambda>mount.
       layer_create_snapshot x (me_id mount) snapshot_name description))"

definition chain_snapshot_multiple ::
  "ext \<Rightarrow> uuid \<Rightarrow> str list \<Rightarrow> str \<Rightarrow> bool \<Rightarrow> snapshot_result list db_op" where
  "chain_snapshot_multiple x t mount_names snapshot_name skip_unchanged =
     layer_batch_snapshot x t mount_names snapshot_name skip_unchanged"

definition chain_snapshot_all :: "ext \<Rightarrow> uuid \<Rightarrow> str \<Rightarrow> bool \<Rightarrow> snapshot_result list db_op" where
  "chain_snapshot_all x t snapshot_name skip_unchanged =
     bindE (mount_list x t) (\<lambda>mounts.
       let working_layer_mounts = map me_name (filter (\<lambda>m. me_source m = WorkingLayer) mounts) in
       if working_layer_mounts = [] then ret []
       else chain_snapshot_multiple x t working_layer_mounts snapshot_name skip_unchanged)"

definition chain_has_changes :: "uuid \<Rightarrow> bool db_op" where
  "chain_has_changes m =
     bindE (layer_get_working_layer m) (\<lambda>w.
     bindE (ok_or (Message ''Working layer not found'') w) (\<lambda>working_layer.
       ret (0 < ly_file_count working_layer)))"

section \<open>Lemmas\<close>

lemma snapshot_mount_skips:
  assumes "mounts_ok d"
  shows "\<exists>reason. snapshot_mount x t name skip_unchanged mount_name d =
    (Inr \<lparr>sr_mount_name = mount_name, sr_layer_id = None, sr_skipped = True, sr_reason = Some reason\<rparr>, d)"
proof (cases "find (\<lambda>m. mr_tenant_id m = t \<and> mr_name m = mount_name) (d_mounts d)")
  case None
  then show ?thesis
    by (simp add: snapshot_mount_def bindE_def attempt_def mount_ref_def del: find_None_conv)
next
  case (Some m)
  with find_SomeD [OF Some] assms have "mr_current_layer_id m = None"
    by (auto simp: mounts_ok_def list_all_iff mount_row_ok_def)
  with Some show ?thesis
    by (simp add: snapshot_mount_def bindE_def attempt_def mount_ref_def)
qed

lemma batch_snapshot_skips:
  assumes "mounts_ok d"
  shows "\<exists>rs. layer_batch_snapshot x t names name skip_unchanged d = (Inr rs, d) \<and>
    map sr_mount_name rs = names \<and> list_all (\<lambda>r. sr_skipped r \<and> sr_layer_id r = None) rs"
  unfolding layer_batch_snapshot_def
proof (induction names)
  case (Cons n names)
  from snapshot_mount_skips [OF assms, of x t name skip_unchanged n] obtain reason where
    "snapshot_mount x t name skip_unchanged n d =
      (Inr \<lparr>sr_mount_name = n, sr_layer_id = None, sr_skipped = True, sr_reason = Some reason\<rparr>, d)" by blast
  with Cons show ?case by (auto simp: bindE_def)
qed simp

text \<open>
  Snapshots of several mounts are never taken: \<open>snapshot_multiple\<close> reads the current layer of
  each mount, which no operation has set, and reports every mount as skipped without touching the
  database; so does \<open>snapshot_all\<close> for all mounts of a working layer.
\<close>

theorem snapshot_multiple_skips:
  assumes "mounts_ok d" and "decode_timestamp x = Some"
  shows "(\<exists>rs. chain_snapshot_multiple x t names name skip_unchanged d = (Inr rs, d) \<and>
      map sr_mount_name rs = names \<and> list_all (\<lambda>r. sr_skipped r \<and> sr_layer_id r = None) rs) \<and>
    (\<exists>rs. chain_snapshot_all x t name skip_unchanged d = (Inr rs, d) \<and>
      list_all (\<lambda>r. sr_skipped r \<and> sr_layer_id r = None) rs)"
proof -
  obtain es where es: "mount_list x t d = (Inr es, d)"
    using mount_list_decodes [OF assms(2,1)] by blast
  let ?ns = "map me_name (filter (\<lambda>m. me_source m = WorkingLayer) es)"
  from batch_snapshot_skips [OF assms(1), of x t ?ns name skip_unchanged]
  have "\<exists>rs. chain_snapshot_all x t name skip_unchanged d = (Inr rs, d) \<and>
      list_all (\<lambda>r. sr_skipped r \<and> sr_layer_id r = None) rs"
    by (auto simp: chain_snapshot_all_def chain_snapshot_multiple_def bindE_def es Let_def)
  with batch_snapshot_skips [OF assms(1), of x t names name skip_unchanged] show ?thesis
    unfolding chain_snapshot_multiple_def by blast
qed

theorem snapshot_multiple_skips_witness:
  "\<exists>rs. chain_snapshot_multiple example_ext 0 [''/a''] ''s'' False example_mounted_db = (Inr rs, example_mounted_db) \<and>
     map sr_mount_name rs = [''/a''] \<and> list_all (\<lambda>r. sr_skipped r \<and> sr_layer_id r = None) rs"
  using snapshot_multiple_skips [OF example_mounted example_time] by blast

section \<open>Taking a snapshot of one mount\<close>

lemma find_of_filter: "filter P xs = y # ys \<Longrightarrow> find P xs = Some y"
  by (induction xs) (auto split: if_splits)

lemma freeze_InrD:
  assumes "layer_freeze_working l n descr d = (Inr (), d')"
  shows "d' = d\<lparr>d_layers := update_rows (\<lambda>r. ly_id r = l)
    (\<lambda>r. r\<lparr>ly_is_working := False, ly_name := n, ly_description := descr\<rparr>) (d_layers d)\<rparr>"
  using assms by (auto simp: layer_freeze_working_def Let_def split: if_splits)


definition example_chain_db :: db where
  "example_chain_db = snd (chain_initialize example_ext 0 2 example_mounted_db)"

lemma example_chain_wf: "wf_db example_chain_db"
  unfolding example_chain_db_def chain_initialize_def layer_create_initial_layers_def
  by (rule preservesD [of wf_db]) (intro preserves_rules, rule example_mounted_wf)


end
