(* ===== verification/MountFrame.thy ===== *)
theory MountFrame
  imports FileSystem LayerChains
begin

text \<open>
  The operations on files and layers leave the mounts and their publications alone, so that the
  invariant of the composition holds after every operation of the program.
\<close>

lemma mounts_ok_basic [preserves_rules]:
  "preserves mounts_ok new_v4" "preserves mounts_ok now"
  "preserves mounts_ok (inode_create ci)" "preserves mounts_ok (inode_update t i u)"
  "preserves mounts_ok (inode_delete t i)"
  "preserves mounts_ok (block_delete t i)" "preserves mounts_ok (block_create x cb)"
  "preserves mounts_ok (tenant_create n)"
  "preserves mounts_ok (layer_create inp)" "preserves mounts_ok (layer_set_current_layer t l)"
  "preserves mounts_ok (layer_freeze_working l n descr)" "preserves mounts_ok (lm_set_layer_readonly t l b)"
  by (rule preserves_mounts_frame;
      simp add: inode_create_def inode_update_def inode_delete_def block_delete_def block_create_def
        tenant_create_def layer_create_def layer_set_current_layer_def layer_freeze_working_def
        lm_set_layer_readonly_def Let_def bindE_def split: option.split)+

lemma mounts_ok_add_entry [preserves_rules]: "preserves mounts_ok (layer_add_entry inp)"
  by (rule preserves_mounts_frame) (simp_all add: layer_add_entry_def Let_def split: option.split)

lemma mounts_ok_layer_delete [preserves_rules]: "preserves mounts_ok (layer_delete t l)"
proof (rule preservesI)
  fix d assume ok: "mounts_ok d"
  have "mounts_ok (delete_layer_rows P d)" for P
    using ok by (subst mounts_ok_cong) (simp_all add: mounts_delete_layer_rows mounts_ok_def)
  with ok show "mounts_ok (snd (layer_delete t l d))" by (simp add: layer_delete_def)
qed

lemma mounts_ok_text [preserves_rules]:
  "preserves mounts_ok (modify (delete_text_lines P))" "preserves mounts_ok (modify (delete_text_meta Q))"
  "preserves mounts_ok (text_create_metadata m)" "preserves mounts_ok (text_create_line_mappings t i l ms)"
proof -
  have "d_mounts d' = d_mounts d \<and> d_published d' = d_published d" if "text_insert_lines rs d = Inr d'" for rs d d'
    using text_insert_lines_InrD(3) [OF that] by auto
  then show "preserves mounts_ok (text_create_line_mappings t i l ms)"
    by (intro preserves_mounts_frame) (metis create_mappings_cases)+
qed (rule preserves_mounts_frame; simp add: text_create_metadata_def Let_def)+

lemma mounts_ok_store_line [preserves_rules]: "preserves mounts_ok (store_line x enc c)"
proof -
  have "other_tables (snd (store_line x enc c d)) = other_tables d" for d
    by (rule preservesD [OF preserves_store_line refl])
  from other_tables_frame [OF this] show ?thesis by (intro preserves_mounts_frame) simp_all
qed

lemma mounts_ok_cow [preserves_rules]: "preserves mounts_ok (cow_write_file x h i data old)"
  unfolding cow_write_file_def cow_write_text_file_def cow_write_binary_file_def cow_delete_old_text_def Let_def
  by (auto intro!: preserves_rules split: file_type_info.split)

lemma mounts_ok_manager [preserves_rules]:
  "preserves mounts_ok (lm_initialize_base_layer t)"
  "preserves mounts_ok (lm_create_checkpoint_with_confirm t name descr c)"
  "preserves mounts_ok (lm_switch_to_layer t l)"
  "preserves mounts_ok (lm_delete_layer t l)"
  "preserves mounts_ok (lm_record_change t i p ct sd tc)"
  "preserves mounts_ok (lm_get_current_layer t)"
  unfolding lm_initialize_base_layer_def lm_create_checkpoint_with_confirm_def
    lm_switch_to_layer_def lm_delete_layer_def lm_record_change_def lm_checkpoint_from_def lm_push_layer_def
    lm_delete_futures_def lm_get_current_layer_def layer_get_current_layer_def layer_get_def
  by (auto intro!: preserves_rules reads_preserves [OF reads_future] split: option.split)

lemma mounts_ok_fs [preserves_rules]:
  "preserves mounts_ok (fs_create_node ty mode fs path)"
  "preserves mounts_ok (fs_write_file x fs path data)"
  "preserves mounts_ok (fs_delete_file fs path)"
  "preserves mounts_ok (fs_remove_directory x fs path)"
  "preserves mounts_ok (fs_chmod fs path m)"
  "preserves mounts_ok (fs_chown fs path u g)"
  "preserves mounts_ok (fs_new t)"
  unfolding fs_create_node_def fs_write_file_def fs_delete_file_def fs_remove_directory_def fs_chmod_def
    fs_chown_def fs_new_def inode_get_by_parent_and_name_def inode_list_children_def db_err_gets tenant_get_by_id_def
  by (auto intro!: preserves_rules split: prod.split)

lemma mounts_ok_chains [preserves_rules]:
  "preserves mounts_ok (layer_create_snapshot x m name descr)"
  "preserves mounts_ok (chain_initialize x t m)"
  "preserves mounts_ok (chain_snapshot x t n name descr)"
  unfolding layer_create_snapshot_def chain_initialize_def chain_snapshot_def layer_create_initial_layers_def
    layer_get_working_layer_def
  by (intro preserves_rules)+

lemma layers_ok_chains [preserves_rules]:
  "preserves layers_ok (chain_initialize x t m)" "preserves layers_ok (chain_snapshot x t n name descr)"
  unfolding chain_initialize_def chain_snapshot_def by (intro preserves_rules)+

lemma drawn_chains [preserves_rules]:
  "preserves ids_drawn (chain_initialize x t m)" "preserves ids_drawn (chain_snapshot x t n name descr)"
  unfolding chain_initialize_def chain_snapshot_def by (intro preserves_rules)+

end
