(* ===== verification/TenantDelete.thy ===== *)
theory TenantDelete
  imports MountFrame
begin

text \<open>
  Deletion of a tenant (\<open>src/src/storage/tenant.rs\<close>), which is one statement and the cascades of
  the foreign keys of \<open>src/migrations\<close>.  The database runs the actions on a row in rounds: the
  first round removes or checks the rows that refer to the tenant, the next one those that refer
  to the rows removed before.  \<open>published_mounts.tenant_id\<close> has no action, so it is checked in the first
  round, before the cascade from the mounts could remove the publications.
\<close>

definition delete_tenant_rows :: "uuid \<Rightarrow> db \<Rightarrow> db" where
  "delete_tenant_rows t d =
     d\<lparr>d_tenants := delete_rows (\<lambda>r. tn_id r = t) (d_tenants d),
       d_inodes := delete_rows (\<lambda>r. ino_tenant_id r = t) (d_inodes d),
       d_blocks := delete_rows (\<lambda>r. blk_tenant_id r = t) (d_blocks d),
       d_current := delete_rows (\<lambda>r. tcl_tenant_id r = t) (d_current d)\<rparr>"

definition tenant_layers_used :: "uuid \<Rightarrow> db \<Rightarrow> bool" where
  "tenant_layers_used t d \<longleftrightarrow>
     (let gone = set (map ly_id (filter (\<lambda>l. ly_tenant_id l = t) (d_layers d))) in
      exists_row (\<lambda>l. ly_tenant_id l \<noteq> t \<and> (case ly_parent_id l of None \<Rightarrow> False | Some p \<Rightarrow> p \<in> gone)) (d_layers d) \<or>
      exists_row (\<lambda>c. tcl_tenant_id c \<noteq> t \<and> tcl_layer_id c \<in> gone) (d_current d))"

definition tenant_delete :: "uuid \<Rightarrow> bool db_op" where
  "tenant_delete t = (\<lambda>d.
     if \<not> exists_row (\<lambda>r. tn_id r = t) (d_tenants d) then (Inr False, d)
     else if exists_row (\<lambda>p. pr_tenant_id p = t) (d_published d) then (Inl ForeignKeyViolation, d)
     else if tenant_layers_used t d then (Inl ForeignKeyViolation, d)
     else
       case delete_mounts (\<lambda>m. mr_tenant_id m = t)
              (delete_layer_rows (\<lambda>l. ly_tenant_id l = t) (delete_tenant_rows t d)) of
         (Inl e, _) \<Rightarrow> (Inl e, d)
       | (Inr _, d') \<Rightarrow>
           (Inr True, delete_text_meta (\<lambda>m. tm_tenant_id m = t) (delete_entries (\<lambda>e. le_tenant_id e = t) d')))"

section \<open>Invariants\<close>

lemma tenant_delete_cases:
  obtains (unchanged) "snd (tenant_delete t d) = d"
  | (deleted) d1 n where "\<not> tenant_layers_used t d"
      and "delete_mounts (\<lambda>m. mr_tenant_id m = t)
        (delete_layer_rows (\<lambda>l. ly_tenant_id l = t) (delete_tenant_rows t d)) = (Inr n, d1)"
      and "snd (tenant_delete t d) =
        delete_text_meta (\<lambda>m. tm_tenant_id m = t) (delete_entries (\<lambda>e. le_tenant_id e = t) d1)"
proof -
  obtain r d1 where m: "delete_mounts (\<lambda>m. mr_tenant_id m = t)
      (delete_layer_rows (\<lambda>l. ly_tenant_id l = t) (delete_tenant_rows t d)) = (r, d1)" by force
  show ?thesis
  proof (cases "snd (tenant_delete t d) = d")
    case False
    then have "\<not> tenant_layers_used t d" and "\<exists>n. r = Inr n" and
      "snd (tenant_delete t d) = delete_text_meta (\<lambda>m. tm_tenant_id m = t) (delete_entries (\<lambda>e. le_tenant_id e = t) d1)"
      unfolding tenant_delete_def m by (auto split: if_splits sum.splits)
    with m show ?thesis using deleted by blast
  qed (rule unchanged)
qed

lemma wf_delete_tenant_rows:
  assumes "wf_db d"
  shows "wf_db (delete_tenant_rows t d)"
proof -
  have "children_only (delete_rows P (d_inodes d)) = delete_rows P (children_only (d_inodes d))" for P
    by (simp add: children_only_def filter_delete_rows)
  then have "wf_inodes (delete_tenant_rows t d)"
    using assms by (simp add: delete_tenant_rows_def wf_db_def wf_inodes_def distinct_map_delete_rows) blast
  moreover have "wf_files (delete_tenant_rows t d)" "wf_layers (delete_tenant_rows t d)" "wf_mounts (delete_tenant_rows t d)"
    using assms by (simp_all add: delete_tenant_rows_def wf_db_def wf_files_def wf_layers_def wf_mounts_def
        distinct_map_delete_rows)
  ultimately show ?thesis by (simp add: wf_db_def)
qed

lemma wf_delete_rest:
  assumes "wf_db d"
  shows "wf_db (delete_text_meta P (delete_entries Q d))"
proof -
  have "wf_files (delete_entries Q d)" using assms by (simp add: wf_db_def wf_files_def)
  then have "wf_files (delete_text_meta P (delete_entries Q d))" by (rule wf_delete_text_meta)
  moreover have "wf_layers (delete_entries Q d)" by (rule wf_delete_entries) (use assms in \<open>simp add: wf_db_def\<close>)
  then have "wf_layers (delete_text_meta P (delete_entries Q d))" by (simp add: wf_layers_def)
  moreover have "wf_inodes (delete_text_meta P (delete_entries Q d)) = wf_inodes d"
    by (rule wf_parts_frame) simp_all
  moreover have "wf_mounts (delete_text_meta P (delete_entries Q d)) = wf_mounts d"
    by (rule wf_parts_frame) simp_all
  ultimately show ?thesis using assms by (simp add: wf_db_def)
qed

lemma layer_inv_delete_tenant:
  assumes inv: "layer_inv d" and wf: "wf_db d" and free: "\<not> tenant_layers_used t d"
  shows "layer_inv (delete_layer_rows (\<lambda>l. ly_tenant_id l = t) (delete_tenant_rows t d))"
proof -
  let ?P = "\<lambda>l. ly_tenant_id l = t"
  let ?d = "delete_layer_rows ?P (delete_tenant_rows t d)"
  let ?gone = "layer_ref ` set (filter ?P (d_layers d))"
  have in_gone: "layer_ref l \<in> ?gone \<longleftrightarrow> ?P l" if "l \<in> set (d_layers d)" for l
    using that by (auto simp: layer_ref_def image_iff)
  have rows: "delete_rows ?P (d_layers d) = filter (\<lambda>l. layer_ref l \<notin> ?gone) (d_layers d)"
    unfolding delete_rows_def by (rule filter_cong) (use in_gone in auto)
  have "rooted ({} - ?gone) (map layer_shape (filter (\<lambda>l. layer_ref l \<notin> ?gone) (d_layers d)))"
  proof (rule rooted_filter)
    show "(q, ly_tenant_id l) \<notin> ?gone" if "l \<in> set (d_layers d)" "layer_ref l \<notin> ?gone" for l q
      using in_gone [OF that(1)] that(2) by (auto simp: layer_ref_def)
  qed (use inv in \<open>simp add: layer_inv_def\<close>)
  moreover have shape: "map layer_shape (d_layers ?d) = map layer_shape (delete_rows ?P (d_layers d))"
    by (simp add: delete_tenant_rows_def)
  moreover have "(tcl_layer_id c, tcl_tenant_id c) \<in> layer_ref ` set (delete_rows ?P (d_layers d))"
    if c: "c \<in> set (d_current d)" "tcl_tenant_id c \<noteq> t" for c
  proof -
    from inv c obtain r where "r \<in> set (d_layers d)" "layer_ref r = (tcl_layer_id c, tcl_tenant_id c)"
      by (auto simp: layer_inv_def)
    with c(2) show ?thesis by (force simp: image_iff layer_ref_def)
  qed
  ultimately have "rooted {} (map layer_shape (d_layers ?d))"
    and "\<forall>c \<in> set (d_current ?d). (tcl_layer_id c, tcl_tenant_id c) \<in> layer_ref ` set (d_layers ?d)"
    unfolding layer_ref_via_shape [OF shape]
    by (simp_all only: shape rows Diff_empty empty_Diff) (auto simp: delete_tenant_rows_def rows)
  then show ?thesis unfolding layer_inv_def by simp
qed

lemma layer_view_rest: "layer_view (delete_text_meta P (delete_entries Q d)) = layer_view d"
  by (simp add: layer_view_def)

lemma layers_ok_tenant_delete [preserves_rules]: "preserves layers_ok (tenant_delete t)"
proof (rule preservesI)
  fix d assume ok: "layers_ok d"
  let ?d = "delete_layer_rows (\<lambda>l. ly_tenant_id l = t) (delete_tenant_rows t d)"
  show "layers_ok (snd (tenant_delete t d))"
  proof (cases rule: tenant_delete_cases [of t d])
    case unchanged
    with ok show ?thesis by simp
  next
    case (deleted d1 n)
    have "layers_ok ?d"
      using ok deleted(1) by (simp add: layers_ok_def layer_inv_delete_tenant wf_delete_layer_rows wf_delete_tenant_rows)
    then have "layers_ok (snd (delete_mounts (\<lambda>m. mr_tenant_id m = t) ?d))"
      by (rule preservesD [OF layers_ok_delete_mounts])
    then have "layers_ok d1" by (simp add: deleted(2))
    then show ?thesis
      unfolding deleted(3) layers_ok_def using layer_inv_via_view [OF layer_view_rest] wf_delete_rest by blast
  qed
qed

lemma mounts_ok_tenant_delete [preserves_rules]: "preserves mounts_ok (tenant_delete t)"
proof (rule preservesI)
  fix d assume ok: "mounts_ok d"
  let ?d = "delete_layer_rows (\<lambda>l. ly_tenant_id l = t) (delete_tenant_rows t d)"
  show "mounts_ok (snd (tenant_delete t d))"
  proof (cases rule: tenant_delete_cases [of t d])
    case unchanged
    with ok show ?thesis by simp
  next
    case (deleted d1 n)
    have "list_all mount_row_ok (d_mounts (delete_tenant_rows t d))"
      using ok by (simp add: mounts_ok_def delete_tenant_rows_def)
    from mounts_delete_layer_rows [OF this] have "mounts_ok ?d"
      using ok by (subst mounts_ok_cong [where d = d]) (simp_all add: delete_tenant_rows_def)
    then have "mounts_ok (snd (delete_mounts (\<lambda>m. mr_tenant_id m = t) ?d))"
      by (rule preservesD [OF mounts_ok_delete_mounts])
    then have "mounts_ok d1" by (simp add: deleted(2))
    then show ?thesis unfolding deleted(3) by (subst mounts_ok_cong [where d = d1]) simp_all
  qed
qed

lemma drawn_tenant_delete [preserves_rules]: "preserves ids_drawn (tenant_delete t)"
proof (rule preservesI)
  fix d assume ok: "ids_drawn d"
  let ?d = "delete_layer_rows (\<lambda>l. ly_tenant_id l = t) (delete_tenant_rows t d)"
  show "ids_drawn (snd (tenant_delete t d))"
  proof (cases rule: tenant_delete_cases [of t d])
    case unchanged
    with ok show ?thesis by simp
  next
    case (deleted d1 n)
    have "db_ids ?d \<subseteq> db_ids (delete_tenant_rows t d)"
      using ids_delete_layer_rows [of _ "delete_tenant_rows t d"] unfolding db_ids_def by (intro Un_mono) simp_all
    also have "\<dots> \<subseteq> db_ids d"
      unfolding db_ids_def by (intro Un_mono) (auto simp: delete_tenant_rows_def)
    finally have "ids_drawn ?d"
      using ids_drawn_step [OF ok, of ?d] by (auto simp: delete_tenant_rows_def)
    then have "ids_drawn (snd (delete_mounts (\<lambda>m. mr_tenant_id m = t) ?d))"
      by (rule preservesD [OF drawn_delete_mounts])
    then have d1: "ids_drawn d1" by (simp add: deleted(2))
    have "db_ids (delete_text_meta P (delete_entries Q d1)) \<subseteq> db_ids d1" for P Q
      using ids_delete_entries [of Q d1] unfolding db_ids_def by (intro Un_mono) simp_all
    then show ?thesis
      unfolding deleted(3) using ids_drawn_step [OF d1, of "delete_text_meta P (delete_entries Q d1)" for P Q] by auto
  qed
qed

section \<open>What is deleted\<close>

lemma own_layers_used:
  assumes "layers_ok d"
  shows "\<not> tenant_layers_used t d"
proof -
  have wf: "wf_db d" and inv: "layer_inv d" using assms by (simp_all add: layers_ok_def)
  have owner: "ly_tenant_id r = u" if "r \<in> set (d_layers d)" "has_layer u (ly_id r) d" for r u
    using that layer_tbl.lookup_unique [OF wf that(1)] by (auto simp: has_layer_def layer_ref_def image_iff)
  have "ly_tenant_id l = t"
    if "l \<in> set (d_layers d)" "ly_parent_id l = Some (ly_id r)" "r \<in> set (d_layers d)" "ly_tenant_id r = t" for l r
    using owner [OF that(3)] parent_has_layer [OF inv that(1,2)] that(4) by simp
  moreover have "tcl_tenant_id c = t"
    if "c \<in> set (d_current d)" "tcl_layer_id c = ly_id r" "r \<in> set (d_layers d)" "ly_tenant_id r = t" for c r
    using owner [OF that(3), of "tcl_tenant_id c"] inv that by (auto simp: layer_inv_def has_layer_def)
  ultimately show ?thesis
    by (fastforce simp: tenant_layers_used_def Let_def split: option.splits)
qed

lemma map_mount_layers:
  "map ly_mount_entry_id (d_layers (delete_layer_rows P d)) = map ly_mount_entry_id (delete_rows P (d_layers d))"
proof -
  have "map ly_mount_entry_id (fold entry_deleted es ls) = map ly_mount_entry_id ls" for es ls
  proof (induction es arbitrary: ls)
    case (Cons e es)
    have "map ly_mount_entry_id (entry_deleted e ls) = map ly_mount_entry_id ls"
      unfolding entry_deleted_def by (rule map_update_rows_same) simp
    with Cons show ?case by simp
  qed simp
  then show ?thesis by (simp add: delete_layer_rows_def delete_entries_def delete_text_meta_def delete_text_lines_def Let_def)
qed

lemma no_layers_on_mounts:
  assumes "list_all (\<lambda>l. on_mount g l \<longrightarrow> ly_tenant_id l = t) (d_layers d)"
  shows "filter (on_mount g) (d_layers (delete_layer_rows (\<lambda>l. ly_tenant_id l = t) (delete_tenant_rows t d))) = []"
proof -
  let ?on = "\<lambda>e. case e of None \<Rightarrow> False | Some m \<Rightarrow> m \<in> g"
  have on: "on_mount g l = ?on (ly_mount_entry_id l)" for l by (simp add: on_mount_def)
  have "list_all (\<lambda>e. \<not> ?on e) (map ly_mount_entry_id (delete_rows (\<lambda>l. ly_tenant_id l = t) (d_layers d)))"
    using assms by (auto simp: list_all_iff on)
  then have "list_all (\<lambda>e. \<not> ?on e)
      (map ly_mount_entry_id (d_layers (delete_layer_rows (\<lambda>l. ly_tenant_id l = t) (delete_tenant_rows t d))))"
    unfolding map_mount_layers by (simp add: delete_tenant_rows_def)
  then show ?thesis by (simp add: list_all_iff filter_empty_conv on)
qed

lemma exists_row_False [simp]: "\<not> exists_row (\<lambda>r. False) rs"
  by (simp add: exists_row_def)

lemma delete_mounts_no_layers:
  assumes "filter (on_mount (set (map mr_id (filter P (d_mounts d))))) (d_layers d) = []"
  shows "delete_mounts P d =
    (if exists_row (\<lambda>m. \<not> P m \<and> (case mr_source_mount_id m of None \<Rightarrow> False
          | Some s \<Rightarrow> s \<in> set (map mr_id (filter P (d_mounts d))))) (d_mounts d)
     then (Inl ForeignKeyViolation, d) else (Inr (length (filter P (d_mounts d))), delete_mount_rows P d))"
proof -
  have "(case p of None \<Rightarrow> False | Some q \<Rightarrow> q \<in> {}) = False" for p :: "uuid option" by (cases p) simp_all
  then show ?thesis unfolding delete_mounts_def Let_def assms
    by (simp only: list.map list.set simp_thms if_False empty_iff exists_row_False)
qed



end
