(* ===== verification/Volumes.thy ===== *)
theory Volumes
  imports TenantDelete "HOL-Library.Sublist"
begin

text \<open>
  Tenants as volumes of a container orchestrator: \<open>src/src/csi/tenant_mapping.rs\<close> and
  \<open>src/src/csi/snapshot.rs\<close>.  An error is the text it displays, which for an \<open>anyhow\<close> error is its
  outermost context.
\<close>

section \<open>Volumes and tenants\<close>

type_synonym 'a csi_op = "(db, str, 'a) op"

definition any_err :: "ext \<Rightarrow> 'a db_op \<Rightarrow> 'a csi_op" where
  "any_err x m = map_err (db_error_text x) m"

definition with_context :: "str \<Rightarrow> ('s, 'e, 'a) op \<Rightarrow> ('s, str, 'a) op" where
  "with_context msg m = map_err (\<lambda>_. msg) m"

definition format_tenant_name :: "str \<Rightarrow> str \<Rightarrow> str" where
  "format_tenant_name namespace pvc_name = namespace @ ''--'' @ pvc_name"

text \<open>\<open>splitn(2, "--")\<close> with exactly two parts.\<close>

fun parse_tenant_name :: "str \<Rightarrow> (str \<times> str) option" where
  "parse_tenant_name [] = None"
| "parse_tenant_name (c # s) =
     (if c = CHR ''-'' \<and> take 1 s = ''-'' then Some ([], drop 1 s)
      else map_option (\<lambda>(a, b). (c # a, b)) (parse_tenant_name s))"

definition pvc_base_layer :: "str \<Rightarrow> str \<Rightarrow> uuid \<Rightarrow> create_layer_input" where
  "pvc_base_layer namespace pvc_name t =
     \<lparr>cl_tenant_id = t, cl_parent_id = None, cl_name = ''base'',
      cl_description = Some (''PVC: '' @ namespace @ ''/'' @ pvc_name), cl_tags = None,
      cl_created_by = ''csi-driver'', cl_mount_entry_id = None, cl_is_working = False\<rparr>"

definition create_tenant_from_pvc :: "ext \<Rightarrow> str \<Rightarrow> str \<Rightarrow> uuid csi_op" where
  "create_tenant_from_pvc x namespace pvc_name =
     (let tenant_name = format_tenant_name namespace pvc_name in
      bindE (any_err x (tenant_get_by_name tenant_name)) (\<lambda>found.
        case found of
          Some existing \<Rightarrow> ret (tn_id existing)
        | None \<Rightarrow>
            bindE (with_context ''Failed to create tenant'' (tenant_create tenant_name)) (\<lambda>tenant.
            bindE (with_context ''Failed to create base layer''
                     (layer_create (pvc_base_layer namespace pvc_name (tn_id tenant)))) (\<lambda>_.
              ret (tn_id tenant)))))"

definition delete_tenant_for_volume :: "ext \<Rightarrow> str \<Rightarrow> unit csi_op" where
  "delete_tenant_for_volume x volume_id =
     bindE (ok_or ''Invalid volume_id format, expected UUID'' (uuid_parse x volume_id)) (\<lambda>t.
     bindE (with_context ''Failed to delete tenant'' (tenant_delete t)) (\<lambda>_. ret ()))"

definition parse_volume_id :: "ext \<Rightarrow> str \<Rightarrow> ('s, str, uuid) op" where
  "parse_volume_id x volume_id = ok_or ''Invalid volume_id format'' (uuid_parse x volume_id)"

section \<open>Snapshots\<close>

definition snapshot_layer_input :: "uuid \<Rightarrow> uuid \<Rightarrow> str \<Rightarrow> create_layer_input" where
  "snapshot_layer_input t parent name =
     \<lparr>cl_tenant_id = t, cl_parent_id = Some parent, cl_name = name,
      cl_description = Some (''Snapshot: '' @ name), cl_tags = None, cl_created_by = ''csi-driver'',
      cl_mount_entry_id = None, cl_is_working = False\<rparr>"

definition snapshot_create :: "ext \<Rightarrow> uuid \<Rightarrow> str \<Rightarrow> layer csi_op" where
  "snapshot_create x t name =
     bindE (any_err x (layer_get_current_layer t)) (\<lambda>c.
     bindE (ok_or ''No current layer found for tenant'' c) (\<lambda>current_layer_id.
       with_context ''Failed to create snapshot layer''
         (layer_create (snapshot_layer_input t current_layer_id name))))"

definition snapshot_delete :: "uuid \<Rightarrow> uuid \<Rightarrow> unit csi_op" where
  "snapshot_delete t snapshot_id =
     bindE (with_context ''Failed to delete snapshot layer'' (layer_delete t snapshot_id)) (\<lambda>_. ret ())"

definition snapshot_list :: "uuid \<Rightarrow> layer list csi_op" where
  "snapshot_list t = with_context ''Failed to list snapshots'' (layer_list t)"

definition snapshot_restore :: "ext \<Rightarrow> uuid \<Rightarrow> uuid \<Rightarrow> unit csi_op" where
  "snapshot_restore x t snapshot_id =
     bindE (any_err x (layer_get t snapshot_id)) (\<lambda>found.
     bindE (ok_or ''Snapshot not found'' found) (\<lambda>_.
       with_context ''Failed to restore from snapshot'' (layer_set_current_layer t snapshot_id)))"

definition snapshot_get :: "uuid \<Rightarrow> uuid \<Rightarrow> layer option csi_op" where
  "snapshot_get t snapshot_id =
     raise ''get_snapshot not implemented - requires LayerRepository::get''"

section \<open>Invariants\<close>

lemma layers_ok_create_layer:
  assumes "layers_ok d" and "\<forall>p. cl_parent_id inp = Some p \<longrightarrow> (p, cl_tenant_id inp) \<in> layer_ref ` set (d_layers d)"
  shows "layers_ok (snd (layer_create inp d))"
  using assms layer_inv_create [of d inp] preservesD [OF preserves_wf_layer_create, of d inp] by (simp add: layers_ok_def)

lemma preserves_errs [preserves_rules]:
  "preserves P m \<Longrightarrow> preserves P (any_err x m)" "preserves P m \<Longrightarrow> preserves P (with_context msg m)"
  unfolding any_err_def with_context_def by (intro preserves_rules, assumption)+

lemma layers_ok_base [preserves_rules]: "preserves layers_ok (layer_create (pvc_base_layer ns n t))"
  by (rule preservesI) (rule layers_ok_create_layer, simp_all add: pvc_base_layer_def)

lemma layers_ok_volume [preserves_rules]:
  "preserves layers_ok (create_tenant_from_pvc x ns n)" "preserves layers_ok (delete_tenant_for_volume x v)"
  "preserves layers_ok (snapshot_delete t l)"
  unfolding create_tenant_from_pvc_def delete_tenant_for_volume_def snapshot_delete_def tenant_get_by_name_def Let_def
  by (intro preserves_rules)+

lemma layers_ok_snapshot_create [preserves_rules]: "preserves layers_ok (snapshot_create x t name)"
proof (rule preservesI)
  fix d assume ok: "layers_ok d"
  show "layers_ok (snd (snapshot_create x t name d))"
  proof (cases "find (\<lambda>c. tcl_tenant_id c = t) (d_current d)")
    case None
    with ok show ?thesis
      by (simp add: snapshot_create_def any_err_def map_err_def layer_get_current_layer_def bindE_def del: find_None_conv)
  next
    case (Some c)
    then have "c \<in> set (d_current d)" "tcl_tenant_id c = t" by (auto dest: find_SomeD)
    then have "(tcl_layer_id c, t) \<in> layer_ref ` set (d_layers d)" using ok by (auto simp: layers_ok_def layer_inv_def)
    then have "layers_ok (snd (layer_create (snapshot_layer_input t (tcl_layer_id c) name) d))"
      by (intro layers_ok_create_layer [OF ok]) (simp add: snapshot_layer_input_def)
    with Some show ?thesis
      by (simp add: snapshot_create_def any_err_def with_context_def map_err_def layer_get_current_layer_def bindE_def
          split_beta split: sum.split)
  qed
qed

lemma layers_ok_snapshot_restore [preserves_rules]: "preserves layers_ok (snapshot_restore x t l)"
proof (rule preservesI)
  fix d assume ok: "layers_ok d"
  show "layers_ok (snd (snapshot_restore x t l d))"
  proof (cases "find (\<lambda>r. ly_tenant_id r = t \<and> ly_id r = l) (d_layers d)")
    case None
    with ok show ?thesis
      by (simp add: snapshot_restore_def any_err_def map_err_def layer_get_def bindE_def del: find_None_conv)
  next
    case (Some r)
    then have "r \<in> set (d_layers d)" "ly_tenant_id r = t" "ly_id r = l" by (auto dest: find_SomeD)
    then have "(l, t) \<in> layer_ref ` set (d_layers d)" by (force simp: layer_ref_def)
    then have "layers_ok (snd (layer_set_current_layer t l d))"
      using ok layer_inv_set_current preservesD [OF preserves_wf_layer_set_current_layer] by (simp add: layers_ok_def)
    with Some show ?thesis
      by (simp add: snapshot_restore_def any_err_def with_context_def map_err_def layer_get_def bindE_def
          split_beta split: sum.split)
  qed
qed

lemma volumes_keep [preserves_rules]:
  "preserves ids_drawn (create_tenant_from_pvc x ns n)" "preserves mounts_ok (create_tenant_from_pvc x ns n)"
  "preserves ids_drawn (delete_tenant_for_volume x v)" "preserves mounts_ok (delete_tenant_for_volume x v)"
  "preserves ids_drawn (snapshot_create x t name)" "preserves mounts_ok (snapshot_create x t name)"
  "preserves ids_drawn (snapshot_delete t l)" "preserves mounts_ok (snapshot_delete t l)"
  "preserves ids_drawn (snapshot_restore x t l)" "preserves mounts_ok (snapshot_restore x t l)"
  unfolding create_tenant_from_pvc_def delete_tenant_for_volume_def snapshot_create_def snapshot_delete_def
    snapshot_restore_def tenant_get_by_name_def layer_get_current_layer_def layer_get_def Let_def
  by (intro preserves_rules)+

section \<open>Names of volumes\<close>

lemma parse_append:
  assumes "\<not> sublist ''--'' (s @ ''-'')"
  shows "parse_tenant_name (s @ ''--'' @ r) = Some (s, r)"
  using assms
proof (induction s)
  case (Cons c s)
  from Cons.prems have "\<not> sublist ''--'' (s @ ''-'')" by (auto simp: sublist_Cons_right)
  moreover have "\<not> (c = CHR ''-'' \<and> take 1 (s @ ''--'' @ r) = ''-'')"
    using Cons.prems by (cases s) (auto simp: sublist_Cons_right)
  ultimately show ?case using Cons.IH by (simp split: if_splits)
qed simp

lemma parse_first:
  assumes "parse_tenant_name s = Some (a, b)"
  shows "s = a @ ''--'' @ b \<and> \<not> sublist ''--'' (a @ ''-'')"
  using assms
proof (induction s arbitrary: a)
  case (Cons c s)
  show ?case
  proof (cases "c = CHR ''-'' \<and> take 1 s = ''-''")
    case True
    then obtain s' where "s = CHR ''-'' # s'" by (cases s) auto
    with True Cons.prems show ?thesis by (auto simp: sublist_Cons_right)
  next
    case False
    with Cons.prems obtain a' where a: "parse_tenant_name s = Some (a', b)" "a = c # a'"
      by (auto split: if_splits option.splits)
    have ih: "s = a' @ ''--'' @ b" "\<not> sublist ''--'' (a' @ ''-'')" using Cons.IH [OF a(1)] by simp_all
    have "\<not> (c = CHR ''-'' \<and> take 1 (a' @ ''-'') = ''-'')" using False ih(1) by (cases a') auto
    with ih a(2) show ?thesis by (cases a') (auto simp: sublist_Cons_right)
  qed
qed simp

text \<open>
  C26.  A volume is found again under the name of its claim exactly when the namespace has no double hyphen
  and no hyphen at its end: then the name of the tenant gives back namespace and claim, and so different claims
  have different tenants.  In every other case the name is read as another claim.
\<close>

theorem tenant_names_exact:
  "parse_tenant_name (format_tenant_name namespace pvc_name) = Some (namespace, pvc_name) \<longleftrightarrow>
     \<not> sublist ''--'' (namespace @ ''-'')"
  using parse_append [of namespace pvc_name] parse_first [of "format_tenant_name namespace pvc_name" namespace pvc_name]
  by (auto simp: format_tenant_name_def)

text \<open>Two claims of different namespaces that share a tenant, and so a volume.\<close>

lemma claims_share_a_tenant: "format_tenant_name ''a--b'' ''c'' = format_tenant_name ''a'' ''b--c''"
  by (simp add: format_tenant_name_def)

lemma volume_of_existing:
  assumes "find (\<lambda>r. tn_name r = format_tenant_name namespace pvc_name) (d_tenants d) = Some tenant"
  shows "create_tenant_from_pvc x namespace pvc_name d = (Inr (tn_id tenant), d)"
  using assms by (simp add: create_tenant_from_pvc_def Let_def any_err_def map_err_def tenant_get_by_name_def bindE_def)

section \<open>Volumes of the driver\<close>

lemma tenant_created:
  assumes "tenant_create n d = (Inr tenant, d')"
  shows "d_tenants d' = d_tenants d @ [tenant]" and "d_current d' = d_current d"
    and "tn_id tenant \<notin> tn_id ` set (d_tenants d)"
  using assms by (auto simp: tenant_create_def Let_def split: if_splits)

lemma base_layer_taken:
  assumes "layer_get_current_layer t d = (Inr None, d)" and "(t, ''base'') \<in> layer_name_key ` set (d_layers d)"
  shows "fst (lm_initialize_base_layer t d) = Inl (LayerStorage UniqueViolation)"
proof -
  have "varchar 255 ''base''" "varchar 255 ''system''" by (simp_all add: varchar_short)
  moreover obtain r where "r \<in> set (d_layers d)" "ly_tenant_id r = t" "ly_name r = ''base''"
    using assms(2) by (auto simp: layer_name_key_def)
  ultimately have "fst (layer_create (base_layer_input t) d) = Inl UniqueViolation"
    by (auto simp: layer_create_def base_layer_input_def Let_def layer_name_key_def)
  then obtain d' where "layer_create (base_layer_input t) d = (Inl UniqueViolation, d')" by (metis prod.collapse)
  with assms(1) show ?thesis
    by (simp add: lm_initialize_base_layer_def storage_def map_err_def bindE_def)
qed

text \<open>
  C27.  A volume that the driver provisions cannot be used.  Creation for a new claim makes a tenant with a
  layer called \<open>base\<close>, but never makes that layer the current one; so opening the file system of
  the tenant tries to create a second layer of that name and fails, and no snapshot of the volume
  can be taken.  (That current layers refer to tenants is a foreign key.)
\<close>

theorem provisioned_volume_unusable:
  assumes "create_tenant_from_pvc x namespace pvc_name d = (Inr t, d')"
    and "find (\<lambda>r. tn_name r = format_tenant_name namespace pvc_name) (d_tenants d) = None"
    and "list_all (\<lambda>c. tcl_tenant_id c \<in> tn_id ` set (d_tenants d)) (d_current d)"
  shows "fst (fs_new t d') = Inl (Storage (ManagerError (LayerStorage UniqueViolation))) \<and>
    snapshot_create x t name d' = (Inl ''No current layer found for tenant'', d')"
proof -
  let ?name = "format_tenant_name namespace pvc_name"
  obtain rt d1 where tc: "tenant_create ?name d = (rt, d1)" by force
  with assms(1,2) obtain tenant where rt: "rt = Inr tenant"
    by (cases rt) (auto simp: create_tenant_from_pvc_def Let_def any_err_def with_context_def map_err_def
        tenant_get_by_name_def bindE_def)
  note made = tenant_created [OF tc [unfolded rt]]
  obtain rl d2 where lc: "layer_create (pvc_base_layer namespace pvc_name (tn_id tenant)) d1 = (rl, d2)" by force
  with assms(1,2) tc rt obtain layer where rl: "rl = Inr layer" and t: "t = tn_id tenant" "d2 = d'"
    by (cases rl) (auto simp: create_tenant_from_pvc_def Let_def any_err_def with_context_def map_err_def
        tenant_get_by_name_def bindE_def)
  note row = layer_create_InrD(1,2) [OF lc [unfolded rl]]
  have "(t, ''base'') = layer_name_key layer" by (simp add: row(1) t(1) layer_name_key_def pvc_base_layer_def)
  then have base: "(t, ''base'') \<in> layer_name_key ` set (d_layers d')" using row(2) t(2) by (simp add: image_iff)
  have "tcl_tenant_id c \<noteq> t" if "c \<in> set (d_current d)" for c
    using assms(3) that made(3) t(1) by (metis list_all_iff)
  then have "find (\<lambda>c. tcl_tenant_id c = t) (d_current d') = None"
    using row(2) t(2) made(2) by (simp add: find_None_iff)
  then have current: "layer_get_current_layer t d' = (Inr None, d')"
    by (simp add: layer_get_current_layer_def del: find_None_conv)
  have "find (\<lambda>r. tn_id r = t) (d_tenants d') \<noteq> None"
    using row(2) t made(1) by (simp add: find_None_iff)
  then have "fst (fs_new t d') = Inl (Storage (ManagerError (LayerStorage UniqueViolation)))"
    using base_layer_taken [OF current base]
    by (auto simp: fs_new_def db_err_def lm_err_def map_err_def tenant_get_by_id_def bindE_def
        simp del: find_None_conv split: prod.splits sum.splits)
  moreover have "snapshot_create x t name d' = (Inl ''No current layer found for tenant'', d')"
    using current by (simp add: snapshot_create_def any_err_def map_err_def bindE_def)
  ultimately show ?thesis by simp
qed

theorem provisioned_volume_unusable_witness:
  "\<exists>d'. create_tenant_from_pvc example_ext ''ns'' ''data'' (empty_db (\<lambda>n. n)) = (Inr 0, d') \<and>
     fst (fs_new 0 d') = Inl (Storage (ManagerError (LayerStorage UniqueViolation)))"
proof -
  have names: "varchar 253 ''ns--data''" "varchar 255 ''base''" "varchar 255 ''csi-driver''"
    by (simp_all add: varchar_short)
  have "fst (create_tenant_from_pvc example_ext ''ns'' ''data'' (empty_db (\<lambda>n. n))) = Inr 0"
    by (simp add: create_tenant_from_pvc_def format_tenant_name_def any_err_def with_context_def map_err_def
        tenant_get_by_name_def empty_db_def tenant_create_def layer_create_def pvc_base_layer_def names Let_def bindE_def)
  then obtain d' where d': "create_tenant_from_pvc example_ext ''ns'' ''data'' (empty_db (\<lambda>n. n)) = (Inr 0, d')"
    by (metis prod.collapse)
  from provisioned_volume_unusable [OF this] d' show ?thesis by (simp add: empty_db_def)
qed


end
