(* ===== verification/SystemSteps.thy ===== *)
theory SystemSteps
  imports FileContent Volumes
begin

text \<open>
  The transitions of the system: one step is one call of an operation by one of the clients
  that share the database, whether it succeeds or fails half way.  The states reachable from
  the empty database are the ones the theorems of the other theories speak about.
\<close>

inductive step :: "ext \<Rightarrow> db \<Rightarrow> db \<Rightarrow> bool" for x where
  create_tenant: "step x d (snd (tenant_create name d))"
| draw: "step x d (snd ((new_v4 :: uuid db_op) d))"
| delete_tenant: "step x d (snd (tenant_delete t d))"
| open_fs: "step x d (snd (fs_new t d))"
| create_node: "step x d (snd (fs_create_node ty mode fs path d))"
| remove_directory: "step x d (snd (fs_remove_directory x fs path d))"
| write_file: "step x d (snd (fs_write_file x fs path data d))"
| delete_file: "step x d (snd (fs_delete_file fs path d))"
| chmod: "step x d (snd (fs_chmod fs path mode d))"
| chown: "step x d (snd (fs_chown fs path u g d))"
| init_base: "step x d (snd (lm_initialize_base_layer t d))"
| checkpoint: "step x d (snd (lm_create_checkpoint_with_confirm t name descr confirm d))"
| switch: "step x d (snd (lm_switch_to_layer t l d))"
| delete_layer: "step x d (snd (lm_delete_layer t l d))"
| create_mount: "step x d (snd (mount_create x t input d))"
| update_mount: "step x d (snd (mount_update x m u d))"
| delete_mount: "step x d (snd (mount_delete m d))"
| set_mounts: "step x d (snd (mount_set_entries t es d))"
| init_chain: "step x d (snd (chain_initialize x t m d))"
| snapshot: "step x d (snd (chain_snapshot x t name snapshot_name descr d))"
| snapshot_layer: "step x d (snd (layer_create_snapshot x m name descr d))"
| publish: "step x d (snd (publisher_publish x t name pub d))"
| unpublish: "step x d (snd (publisher_unpublish x t name d))"
| update_publication: "step x d (snd (publish_update x m pu d))"
| allow_tenant: "step x d (snd (publish_add_allowed_tenant m t d))"
| provision: "step x d (snd (create_tenant_from_pvc x namespace pvc_name d))"
| deprovision: "step x d (snd (delete_tenant_for_volume x volume_id d))"
| create_snapshot: "step x d (snd (snapshot_create x t name d))"
| delete_snapshot: "step x d (snd (snapshot_delete t l d))"
| restore_snapshot: "step x d (snd (snapshot_restore x t l d))"
| disallow_tenant: "step x d (snd (publish_remove_allowed_tenant m t d))"

inductive reachable :: "ext \<Rightarrow> (nat \<Rightarrow> uuid) \<Rightarrow> db \<Rightarrow> bool" for x e where
  start: "reachable x e (empty_db e)"
| more: "reachable x e d \<Longrightarrow> step x d d' \<Longrightarrow> reachable x e d'"

inductive_cases stepE: "step x d d'"

lemma layers_ok_empty: "layers_ok (empty_db e)"
  unfolding layers_ok_def by (rule conjI [OF wf_empty_db]) (simp add: layer_inv_def empty_db_def)

lemma layers_ok_draw [preserves_rules]: "preserves layers_ok new_v4"
  by (rule preserves_layers_ok_frame [OF preserves_wf_new_v4 view_basic(1)])

lemma step_layers_ok: "step x d d' \<Longrightarrow> layers_ok d \<Longrightarrow> layers_ok d'"
  by (induction rule: step.induct) (rule preservesD [of layers_ok], intro preserves_rules, assumption)+

lemma step_ids_drawn: "step x d d' \<Longrightarrow> ids_drawn d \<Longrightarrow> ids_drawn d'"
  by (induction rule: step.induct) (rule preservesD [of ids_drawn], intro preserves_rules, assumption)+

lemma mounts_ok_empty: "mounts_ok (empty_db e)"
  unfolding mounts_ok_def using wf_empty_db by (simp add: empty_db_def)

lemma step_mounts_ok: "step x d d' \<Longrightarrow> mounts_ok d \<Longrightarrow> mounts_ok d'"
  by (induction rule: step.induct) (rule preservesD [of mounts_ok], intro preserves_rules, assumption)+

lemma reachable_core:
  assumes "reachable x e d" and "inj e"
  shows "layers_ok d \<and> ids_drawn d \<and> mounts_ok d"
  using assms(1)
proof (induction rule: reachable.induct)
  case start
  show ?case using layers_ok_empty ids_drawn_empty_db [OF assms(2)] mounts_ok_empty by blast
next
  case (more d d')
  then show ?case using step_layers_ok step_ids_drawn step_mounts_ok by blast
qed

lemma reachable_steps:
  assumes "rtranclp (step x) d d'" and "reachable x e d"
  shows "reachable x e d'"
  using assms by (induction rule: rtranclp_induct) (auto intro: reachable.more)


lemma example_db_reachable: "reachable x (\<lambda>n. n) example_db"
  unfolding example_db_def
  by (rule reachable.more [OF reachable.more [OF reachable.start create_tenant] init_base])

lemma example_mounted_reachable: "reachable x (\<lambda>n. n) (snd (mount_create x 0 input example_db))"
  by (rule reachable.more [OF example_db_reachable create_mount])

lemma example_file_reachable: "reachable x (\<lambda>n. n) example_file_db"
  unfolding example_file_db_def fs_create_file_def
  by (rule reachable.more [OF example_db_reachable create_node])


end
