(* ===== verification/Machine.thy ===== *)
theory Machine
  imports Prelude "HOL-Library.Word"
begin

text \<open>
  Machine integers and panics.  The argument \<open>checks\<close> of an operation says whether the program was
  compiled with overflow checks (the debug profile, where an overflow panics) or without (the
  release profile, where it wraps).  An operation that can panic has the error type \<open>failure\<close>.
\<close>

datatype 'e failure = Panic | Fails 'e

text \<open>\<open>+\<close> on unsigned integers and unary minus on signed ones; None is the panic.\<close>

definition add_checked :: "bool \<Rightarrow> ('a::len) word \<Rightarrow> 'a word \<Rightarrow> 'a word option" where
  "add_checked checks a b = (if checks \<and> 2 ^ LENGTH('a) \<le> uint a + uint b then None else Some (a + b))"

definition neg_checked :: "bool \<Rightarrow> 64 word \<Rightarrow> 64 word option" where
  "neg_checked checks a = (if checks \<and> sint a = - (2 ^ 63) then None else Some (- a))"

definition or_panic :: "'a option \<Rightarrow> ('s, 'e failure, 'a) op" where
  "or_panic x = ok_or Panic x"

section \<open>Numbers as text\<close>

fun decimal :: "nat \<Rightarrow> str" where
  "decimal n = (if n < 10 then [char_of (48 + n)] else decimal (n div 10) @ [char_of (48 + n mod 10)])"

declare decimal.simps [simp del]

text \<open>\<open>parse\<close> of a 64-bit unsigned integer: an optional plus sign, digits, no overflow.\<close>

fun digits_value :: "nat \<Rightarrow> str \<Rightarrow> nat option" where
  "digits_value acc [] = Some acc"
| "digits_value acc (c # cs) =
     (let n = of_char c :: nat in
      if 48 \<le> n \<and> n \<le> 57 then
        (let v = acc * 10 + (n - 48) in if v < 2 ^ 64 then digits_value v cs else None)
      else None)"

definition parse_u64 :: "str \<Rightarrow> nat option" where
  "parse_u64 s =
     (if s = [] then None
      else if s = ''+'' \<or> s = ''-'' then None
      else digits_value 0 (if hd s = CHR ''+'' then tl s else s))"

section \<open>Words and integers\<close>

lemma sint_as_uint: "sint (w :: 64 word) = (if uint w < 2 ^ 63 then uint w else uint w - 2 ^ 64)"
proof -
  have "sint w = (uint w + 2 ^ 63) mod 2 ^ 64 - 2 ^ 63"
    by (simp add: sint_uint signed_take_bit_eq_take_bit_shift take_bit_eq_mod)
  moreover have b: "0 \<le> uint w" "uint w < 2 ^ 64" using uint_lt2p [of w] by simp_all
  moreover have "(uint w + 2 ^ 63) mod 2 ^ 64 = uint w - 2 ^ 63" if "\<not> uint w < 2 ^ 63"
    using that b mod_add_self2 [of "uint w - 2 ^ 63" "2 ^ 64"] by (simp add: add.commute)
  ultimately show ?thesis by auto
qed

lemma uint_bounds: "0 \<le> uint (w :: 64 word)" "uint (w :: 64 word) < 2 ^ 64"
  using uint_lt2p [of w] by simp_all

lemma nonneg_offset: "\<not> sint (w :: 64 word) < 0 \<Longrightarrow> uint w = sint w"
  using sint_as_uint [of w] uint_bounds [of w] by (auto split: if_splits)

lemma neg_offset:
  assumes "sint (w :: 64 word) < 0"
  shows "uint (- w) = - sint w"
proof -
  have u: "uint w = sint w + 2 ^ 64" and "- (2 ^ 63) \<le> sint w"
    using sint_as_uint [of w] assms uint_bounds [of w] by (auto split: if_splits)
  with assms show ?thesis by (simp add: uint_word_ariths u)
qed

lemma add_checked_small:
  assumes "unat (a :: 64 word) + n < 2 ^ 64"
  shows "add_checked checks a (word_of_nat n) = Some (a + word_of_nat n)" and "unat (a + word_of_nat n) = unat a + n"
proof -
  have n: "unat (word_of_nat n :: 64 word) = n" using assms by (simp add: unat_of_nat)
  then have "uint a + uint (word_of_nat n :: 64 word) = int (unat a + n)" unfolding uint_nat by simp
  moreover have "int (unat a + n) < int (2 ^ 64)" using assms by (simp only: of_nat_less_iff)
  ultimately have "\<not> 2 ^ LENGTH(64) \<le> uint a + uint (word_of_nat n :: 64 word)" by simp
  then show "add_checked checks a (word_of_nat n) = Some (a + word_of_nat n)" by (simp only: add_checked_def simp_thms if_False)
  show "unat (a + word_of_nat n) = unat a + n" using assms n by (simp add: unat_word_ariths)
qed

end
