(* ===== verification/Hooks.thy ===== *)
theory Hooks
  imports SystemSteps Machine
begin

text \<open>
  The virtual files under \<open>/.tarbox/\<close> through which a program controls the layers:
  \<open>src/src/layer/hooks.rs\<close>.  Reading shows layers, writing creates, switches and deletes them.
  An outcome is a value of \<open>hook_result\<close>; the only other way to end is the panic of a sum that
  overflows.
\<close>

section \<open>Text\<close>

text \<open>\<open>char::is_whitespace\<close>, the pieces that encode one character each, and \<open>str::trim\<close>.\<close>

definition is_white :: "nat \<Rightarrow> bool" where
  "is_white c \<longleftrightarrow> (9 \<le> c \<and> c \<le> 13) \<or> c = 32 \<or> c = 0x85 \<or> c = 0xA0 \<or> c = 0x1680 \<or>
     (0x2000 \<le> c \<and> c \<le> 0x200A) \<or> c = 0x2028 \<or> c = 0x2029 \<or> c = 0x202F \<or> c = 0x205F \<or> c = 0x3000"

function char_pieces :: "str \<Rightarrow> str list" where
  "char_pieces s =
     (if s = [] then []
      else take (snd (utf8_step s)) s # char_pieces (drop (snd (utf8_step s)) s))"
  by pat_completeness auto
termination
  by (relation "measure length") (simp_all add: utf8_step_pos)

declare char_pieces.simps [simp del]

definition trim :: "str \<Rightarrow> str" where
  "trim s =
     (let white = (\<lambda>p. is_white (scalar_of p))
      in concat (rev (dropWhile white (rev (dropWhile white (char_pieces s))))))"

definition dquoted :: "str \<Rightarrow> str" where
  "dquoted s = CHR 0x22 # s @ [CHR 0x22]"

definition starts_with :: "str \<Rightarrow> str \<Rightarrow> bool" where
  "starts_with s p \<longleftrightarrow> take (length p) s = p"

section \<open>Paths, results and inputs\<close>

definition TARBOX_HOOK_PATH :: str where "TARBOX_HOOK_PATH = ''/.tarbox''"
definition LAYERS :: str where "LAYERS = ''/.tarbox/layers''"
definition LAYERS_CURRENT :: str where "LAYERS_CURRENT = ''/.tarbox/layers/current''"
definition LAYERS_LIST :: str where "LAYERS_LIST = ''/.tarbox/layers/list''"
definition LAYERS_NEW :: str where "LAYERS_NEW = ''/.tarbox/layers/new''"
definition LAYERS_SWITCH :: str where "LAYERS_SWITCH = ''/.tarbox/layers/switch''"
definition LAYERS_DROP :: str where "LAYERS_DROP = ''/.tarbox/layers/drop''"
definition LAYERS_TREE :: str where "LAYERS_TREE = ''/.tarbox/layers/tree''"
definition LAYERS_DIFF :: str where "LAYERS_DIFF = ''/.tarbox/layers/diff''"
definition SNAPSHOTS :: str where "SNAPSHOTS = ''/.tarbox/snapshots''"
definition STATS :: str where "STATS = ''/.tarbox/stats''"
definition STATS_USAGE :: str where "STATS_USAGE = ''/.tarbox/stats/usage''"

lemmas hook_paths = TARBOX_HOOK_PATH_def LAYERS_def LAYERS_CURRENT_def LAYERS_LIST_def LAYERS_NEW_def
  LAYERS_SWITCH_def LAYERS_DROP_def LAYERS_TREE_def LAYERS_DIFF_def SNAPSHOTS_def STATS_def STATS_USAGE_def

datatype hook_error =
    HookInvalidPath str
  | HookPermissionDenied str
  | HookInvalidInput str
  | HookLayerError layer_manager_error
  | HookInternal str

datatype hook_result =
    Content str
  | WriteSuccess str
  | HookFailed hook_error
  | NotAHook

type_synonym 'e hook_op = "(db, 'e failure, hook_result) op"

record layer_info =
  li_layer_id :: str
  li_name :: str
  li_parent_id :: "str option"
  li_created_at :: str
  li_is_readonly :: bool
  li_is_current :: bool
  li_file_count :: int
  li_total_size :: int
  li_description :: "str option"

definition layer_info_of :: "ext \<Rightarrow> layer \<Rightarrow> bool \<Rightarrow> layer_info" where
  "layer_info_of x layer is_current =
     \<lparr>li_layer_id = uuid_to_string x (ly_id layer), li_name = ly_name layer,
      li_parent_id = map_option (uuid_to_string x) (ly_parent_id layer),
      li_created_at = show_time x (ly_created_at layer), li_is_readonly = ly_is_readonly layer,
      li_is_current = is_current, li_file_count = ly_file_count layer,
      li_total_size = ly_total_size layer, li_description = ly_description layer\<rparr>"

definition json_opt :: "str option \<Rightarrow> json" where
  "json_opt s = (case s of None \<Rightarrow> JNull | Some v \<Rightarrow> JStr v)"

text \<open>The derived serialiser writes the fields in their order.\<close>

definition layer_info_json :: "layer_info \<Rightarrow> json" where
  "layer_info_json i = JObj
     [(''layer_id'', JStr (li_layer_id i)), (''name'', JStr (li_name i)),
      (''parent_id'', json_opt (li_parent_id i)), (''created_at'', JStr (li_created_at i)),
      (''is_readonly'', JBool (li_is_readonly i)), (''is_current'', JBool (li_is_current i)),
      (''file_count'', JNum (li_file_count i)), (''total_size'', JNum (li_total_size i)),
      (''description'', json_opt (li_description i))]"

text \<open>
  The derived deserialisers: a field that is not known is ignored, one that occurs twice, has
  the wrong type, or is missing without a default is an error.  \<open>null\<close> is a value of an
  optional field only.
\<close>

definition json_fields :: "json \<Rightarrow> str \<Rightarrow> json list option" where
  "json_fields j f = (case j of JObj fs \<Rightarrow> Some (map snd (filter (\<lambda>p. fst p = f) fs)) | _ \<Rightarrow> None)"

definition string_field :: "json \<Rightarrow> str \<Rightarrow> str option" where
  "string_field j f = (case json_fields j f of Some [JStr s] \<Rightarrow> Some s | _ \<Rightarrow> None)"

definition optional_string_field :: "json \<Rightarrow> str \<Rightarrow> str option option" where
  "optional_string_field j f =
     (case json_fields j f of
        Some [] \<Rightarrow> Some None | Some [JNull] \<Rightarrow> Some None | Some [JStr s] \<Rightarrow> Some (Some s) | _ \<Rightarrow> None)"

definition bool_field :: "json \<Rightarrow> str \<Rightarrow> bool option" where
  "bool_field j f = (case json_fields j f of Some [] \<Rightarrow> Some False | Some [JBool b] \<Rightarrow> Some b | _ \<Rightarrow> None)"

record create_layer_request =
  cr_name :: str
  cr_description :: "str option"
  cr_confirm :: bool

record drop_layer_request =
  dr_layer :: str
  dr_force :: bool

definition from_json :: "ext \<Rightarrow> str \<Rightarrow> (json \<Rightarrow> 'a option) \<Rightarrow> str \<Rightarrow> str + 'a" where
  "from_json x type_name f input =
     (case Option.bind (json_parse x input) f of
        None \<Rightarrow> Inl (json_error x type_name input)
      | Some a \<Rightarrow> Inr a)"

definition parse_create_layer :: "ext \<Rightarrow> str \<Rightarrow> str + create_layer_request" where
  "parse_create_layer x = from_json x ''CreateLayerInput'' (\<lambda>j.
     case (string_field j ''name'', optional_string_field j ''description'', bool_field j ''confirm'') of
       (Some n, Some d, Some c) \<Rightarrow> Some \<lparr>cr_name = n, cr_description = d, cr_confirm = c\<rparr>
     | _ \<Rightarrow> None)"

definition parse_switch_layer :: "ext \<Rightarrow> str \<Rightarrow> str + str" where
  "parse_switch_layer x = from_json x ''SwitchLayerInput'' (\<lambda>j. string_field j ''layer'')"

definition parse_drop_layer :: "ext \<Rightarrow> str \<Rightarrow> str + drop_layer_request" where
  "parse_drop_layer x = from_json x ''DropLayerInput'' (\<lambda>j.
     case (string_field j ''layer'', bool_field j ''force'') of
       (Some l, Some f) \<Rightarrow> Some \<lparr>dr_layer = l, dr_force = f\<rparr>
     | _ \<Rightarrow> None)"

definition is_hook_path :: "str \<Rightarrow> bool" where
  "is_hook_path path = starts_with path TARBOX_HOOK_PATH"

section \<open>Reading\<close>

definition no_layer :: str where
  "no_layer = ''No current layer set'' @ [NL]"

definition hook_fail :: "layer_manager_error \<Rightarrow> (db, 'e, hook_result) op" where
  "hook_fail e = ret (HookFailed (HookLayerError e))"

definition read_current_layer :: "ext \<Rightarrow> uuid \<Rightarrow> 'e hook_op" where
  "read_current_layer x t =
     bindE (attempt (lm_get_current_layer t)) (\<lambda>r.
       case r of
         Inr layer \<Rightarrow> ret (Content (json_pretty x (layer_info_json (layer_info_of x layer True))))
       | Inl e \<Rightarrow> if e = NoCurrentLayer then ret (Content no_layer) else hook_fail e)"

text \<open>\<open>manager.get_current_layer_id().await.ok().flatten()\<close>.\<close>

definition current_id_or_none :: "uuid \<Rightarrow> (db, 'e failure, uuid option) op" where
  "current_id_or_none t = bindE (okE (lm_get_current_layer_id t)) (\<lambda>c. ret (Option.bind c (\<lambda>i. i)))"

definition read_layer_list :: "ext \<Rightarrow> uuid \<Rightarrow> 'e hook_op" where
  "read_layer_list x t =
     bindE (attempt (lm_list_layers t)) (\<lambda>r.
       case r of
         Inr layers \<Rightarrow>
           bindE (current_id_or_none t) (\<lambda>current_id.
             ret (Content (json_pretty x (JArr (map (\<lambda>l.
               layer_info_json (layer_info_of x l (current_id = Some (ly_id l)))) layers)))))
       | Inl e \<Rightarrow> hook_fail e)"

text \<open>The prefix of a layer with a parent is the UTF-8 form of a box-drawing branch and a blank.\<close>

definition branch_prefix :: str where
  "branch_prefix = [CHR 0xE2, CHR 0x94, CHR 0x9C, CHR 0xE2, CHR 0x94, CHR 0x80, CHR 0x20]"

definition tree_line :: "uuid option \<Rightarrow> layer \<Rightarrow> str" where
  "tree_line current_id layer =
     (if ly_parent_id layer \<noteq> None then branch_prefix else []) @ ly_name layer @
     (if current_id = Some (ly_id layer) then '' [current]'' else []) @ [NL]"

definition read_layer_tree :: "uuid \<Rightarrow> 'e hook_op" where
  "read_layer_tree t =
     bindE (attempt (lm_list_layers t)) (\<lambda>r.
       case r of
         Inr layers \<Rightarrow>
           bindE (current_id_or_none t) (\<lambda>current_id.
             ret (Content (concat (map (tree_line current_id)
               (sort_key (\<lambda>l. ly_parent_id l \<noteq> None) layers)))))
       | Inl e \<Rightarrow> hook_fail e)"

fun change_char :: "change_type \<Rightarrow> char" where
  "change_char Add = CHR ''A''"
| "change_char Modify = CHR ''M''"
| "change_char Delete = CHR ''D''"

definition read_current_diff :: "ext \<Rightarrow> uuid \<Rightarrow> 'e hook_op" where
  "read_current_diff x t =
     bindE (attempt (lm_get_current_layer t)) (\<lambda>r.
       case r of
         Inr layer \<Rightarrow>
           bindE (attempt (lm_get_layer_entries t (ly_id layer))) (\<lambda>es.
             case es of
               Inl e \<Rightarrow> hook_fail e
             | Inr entries \<Rightarrow>
                 ret (Content (''Layer: '' @ ly_name layer @ '' ('' @ uuid_to_string x (ly_id layer) @ '')'' @ [NL] @
                   ''Changes: '' @ decimal (length entries) @ '' files'' @ [NL, NL] @
                   concat (map (\<lambda>e. change_char (le_change_type e) # ''  '' @ le_path e @ [NL]) entries))))
       | Inl e \<Rightarrow> if e = NoCurrentLayer then ret (Content no_layer) else hook_fail e)"

text \<open>\<open>sum\<close> of signed integers of the given width.\<close>

fun sum_checked :: "bool \<Rightarrow> nat \<Rightarrow> int \<Rightarrow> int list \<Rightarrow> int option" where
  "sum_checked checks w acc [] = Some acc"
| "sum_checked checks w acc (n # ns) =
     (let s = acc + n in
      if - (2 ^ (w - 1)) \<le> s \<and> s < 2 ^ (w - 1) then sum_checked checks w s ns
      else if checks then None
      else sum_checked checks w ((s + 2 ^ (w - 1)) mod 2 ^ w - 2 ^ (w - 1)) ns)"

text \<open>The macro \<open>json!\<close> builds a map that is ordered by its keys.\<close>

definition read_stats_usage :: "bool \<Rightarrow> ext \<Rightarrow> uuid \<Rightarrow> 'e hook_op" where
  "read_stats_usage checks x t =
     bindE (attempt (lm_list_layers t)) (\<lambda>r.
       case r of
         Inr layers \<Rightarrow>
           bindE (or_panic (sum_checked checks 64 0 (map ly_total_size layers))) (\<lambda>total_size.
           bindE (or_panic (sum_checked checks 32 0 (map ly_file_count layers))) (\<lambda>total_files.
             ret (Content (json_pretty x (JObj
               [(''layer_count'', JNum (int (length layers))), (''tenant_id'', JStr (uuid_to_string x t)),
                (''total_files'', JNum total_files), (''total_size'', JNum total_size)])))))
       | Inl e \<Rightarrow> hook_fail e)"

definition hook_read_dir :: "uuid \<Rightarrow> str \<Rightarrow> 'e hook_op" where
  "hook_read_dir t path =
     (if \<not> is_hook_path path then ret NotAHook
      else if path = TARBOX_HOOK_PATH then ret (Content (join [NL] [''layers'', ''snapshots'', ''stats'']))
      else if path = LAYERS then
        ret (Content (join [NL] [''current'', ''list'', ''new'', ''switch'', ''drop'', ''tree'', ''diff'']))
      else if path = SNAPSHOTS then
        bindE (attempt (lm_list_layers t)) (\<lambda>r.
          ret (Content (join [NL] (case r of Inr layers \<Rightarrow> map ly_name layers | Inl e \<Rightarrow> []))))
      else if path = STATS then ret (Content ''usage'')
      else ret (HookFailed (HookInvalidPath path)))"

text \<open>The first component of \<open>suffix.trim_start_matches('/').split('/')\<close>.\<close>

definition snapshot_name :: "str \<Rightarrow> str" where
  "snapshot_name path =
     hd (split_on CHR ''/'' (dropWhile (\<lambda>c. c = CHR ''/'')
       (if starts_with path SNAPSHOTS then drop (length SNAPSHOTS) path else [])))"

definition handle_snapshot_read :: "ext \<Rightarrow> uuid \<Rightarrow> str \<Rightarrow> 'e hook_op" where
  "handle_snapshot_read x t path =
     (let layer_name = snapshot_name path in
      if layer_name = [] then hook_read_dir t SNAPSHOTS
      else
        bindE (attempt (lm_list_layers t)) (\<lambda>r.
          case r of
            Inl e \<Rightarrow> hook_fail e
          | Inr layers \<Rightarrow>
              (case find (\<lambda>l. ly_name l = layer_name) layers of
                 None \<Rightarrow> ret (HookFailed (HookInvalidPath (''Layer not found: '' @ layer_name)))
               | Some layer \<Rightarrow> ret (Content (json_pretty x (layer_info_json (layer_info_of x layer False)))))))"

definition handle_read :: "bool \<Rightarrow> ext \<Rightarrow> uuid \<Rightarrow> str \<Rightarrow> 'e hook_op" where
  "handle_read checks x t path =
     (if \<not> is_hook_path path then ret NotAHook
      else if path = LAYERS_CURRENT then read_current_layer x t
      else if path = LAYERS_LIST then read_layer_list x t
      else if path = LAYERS_TREE then read_layer_tree t
      else if path = LAYERS_DIFF then read_current_diff x t
      else if path = STATS_USAGE then read_stats_usage checks x t
      else if starts_with path SNAPSHOTS then handle_snapshot_read x t path
      else ret (HookFailed (HookInvalidPath path)))"

section \<open>Writing\<close>

definition looks_like_json :: "str \<Rightarrow> bool" where
  "looks_like_json input = starts_with input ''{''"

text \<open>The warning that lists the layers a checkpoint would delete.\<close>

definition confirmation_message :: "ext \<Rightarrow> str \<Rightarrow> uuid \<Rightarrow> layer list \<Rightarrow> str" where
  "confirmation_message x name current_layer future_layers =
     ''Warning: You are at a historical layer ('' @ uuid_to_string x current_layer @ '').'' @ [NL] @
     ''Creating a new layer will delete future layers:'' @ [NL] @
     concat (map (\<lambda>l. ''  - '' @ ly_name l @ [NL]) future_layers) @
     [NL] @ ''To proceed, write JSON with confirm flag:'' @ [NL] @
     ''{'' @ dquoted ''name'' @ '': '' @ dquoted name @ '', '' @ dquoted ''confirm'' @ '': true}'' @ [NL]"

definition write_new_layer :: "ext \<Rightarrow> uuid \<Rightarrow> str \<Rightarrow> 'e hook_op" where
  "write_new_layer x t input =
     (case (if looks_like_json input then parse_create_layer x input
            else Inr \<lparr>cr_name = input, cr_description = None, cr_confirm = False\<rparr>) of
        Inl e \<Rightarrow> ret (HookFailed (HookInvalidInput (''Invalid JSON: '' @ e)))
      | Inr req \<Rightarrow>
          bindE (attempt (lm_create_checkpoint_with_confirm t (cr_name req) (cr_description req) (cr_confirm req))) (\<lambda>r.
            case r of
              Inr layer \<Rightarrow>
                ret (WriteSuccess (''Created layer '' @ quoted (ly_name layer) @ '' ('' @
                  uuid_to_string x (ly_id layer) @ '')'' @ [NL]))
            | Inl e \<Rightarrow>
                (case e of
                   HistoricalLayerNeedsConfirmation current_layer future_layers \<Rightarrow>
                     ret (HookFailed (HookInvalidInput (confirmation_message x (cr_name req) current_layer future_layers)))
                 | _ \<Rightarrow> hook_fail e)))"

text \<open>The lookup of a layer by its identifier or, when the text is none, by its name.\<close>

definition find_layer_ref :: "ext \<Rightarrow> uuid \<Rightarrow> str \<Rightarrow> (db, 'e failure, hook_error + uuid) op" where
  "find_layer_ref x t reference =
     (case uuid_parse x reference of
        Some uuid \<Rightarrow> ret (Inr uuid)
      | None \<Rightarrow>
          bindE (attempt (lm_list_layers t)) (\<lambda>r.
            case r of
              Inl e \<Rightarrow> ret (Inl (HookLayerError e))
            | Inr layers \<Rightarrow>
                ret (case find (\<lambda>l. ly_name l = reference) layers of
                       Some l \<Rightarrow> Inr (ly_id l)
                     | None \<Rightarrow> Inl (HookInvalidInput (''Layer not found: '' @ reference)))))"

definition write_switch_layer :: "ext \<Rightarrow> uuid \<Rightarrow> str \<Rightarrow> 'e hook_op" where
  "write_switch_layer x t input =
     (case (if looks_like_json input then parse_switch_layer x input else Inr input) of
        Inl e \<Rightarrow> ret (HookFailed (HookInvalidInput (''Invalid JSON: '' @ e)))
      | Inr reference \<Rightarrow>
          bindE (find_layer_ref x t reference) (\<lambda>found.
            case found of
              Inl e \<Rightarrow> ret (HookFailed e)
            | Inr layer_id \<Rightarrow>
                bindE (attempt (lm_switch_to_layer t layer_id)) (\<lambda>r.
                  case r of
                    Inr layer \<Rightarrow>
                      ret (WriteSuccess (''Switched to layer '' @ quoted (ly_name layer) @ '' ('' @
                        uuid_to_string x layer_id @ '')'' @ [NL]))
                  | Inl e \<Rightarrow> hook_fail e)))"

text \<open>As for a switch; the text \<open>current\<close> stands for the current layer.\<close>

definition find_drop_ref :: "ext \<Rightarrow> uuid \<Rightarrow> str \<Rightarrow> (db, 'e failure, hook_error + uuid) op" where
  "find_drop_ref x t reference =
     (if reference = ''current'' then
        bindE (attempt (lm_get_current_layer_id t)) (\<lambda>r.
          ret (case r of
                 Inr (Some i) \<Rightarrow> Inr i
               | Inr None \<Rightarrow> Inl (HookInvalidInput ''No current layer set'')
               | Inl e \<Rightarrow> Inl (HookLayerError e)))
      else find_layer_ref x t reference)"

definition write_drop_layer :: "ext \<Rightarrow> uuid \<Rightarrow> str \<Rightarrow> 'e hook_op" where
  "write_drop_layer x t input =
     (case (if looks_like_json input then parse_drop_layer x input
            else Inr \<lparr>dr_layer = input, dr_force = False\<rparr>) of
        Inl e \<Rightarrow> ret (HookFailed (HookInvalidInput (''Invalid JSON: '' @ e)))
      | Inr req \<Rightarrow>
          bindE (find_drop_ref x t (dr_layer req)) (\<lambda>found.
            case found of
              Inl e \<Rightarrow> ret (HookFailed e)
            | Inr layer_id \<Rightarrow>
                bindE (attempt (lm_delete_layer t layer_id)) (\<lambda>r.
                  case r of
                    Inr _ \<Rightarrow> ret (WriteSuccess (''Deleted layer '' @ uuid_to_string x layer_id @ [NL]))
                  | Inl e \<Rightarrow>
                      (case e of
                         HasChildLayers i \<Rightarrow>
                           ret (HookFailed (HookInvalidInput (''Layer '' @ uuid_to_string x i @
                             '' has child layers. Use {'' @ dquoted ''layer'' @ '': '' @ dquoted (dr_layer req) @
                             '', '' @ dquoted ''force'' @ '': true} to delete anyway.'')))
                       | _ \<Rightarrow> hook_fail e))))"

definition handle_write :: "ext \<Rightarrow> uuid \<Rightarrow> str \<Rightarrow> bytes \<Rightarrow> 'e hook_op" where
  "handle_write x t path data =
     (if \<not> is_hook_path path then ret NotAHook
      else
        (case from_utf8 data of
           None \<Rightarrow> ret (HookFailed (HookInvalidInput ''Input must be valid UTF-8''))
         | Some s \<Rightarrow>
             (let input = trim s in
              if path = LAYERS_NEW then write_new_layer x t input
              else if path = LAYERS_SWITCH then write_switch_layer x t input
              else if path = LAYERS_DROP then write_drop_layer x t input
              else ret (HookFailed (HookPermissionDenied (''Cannot write to '' @ path))))))"

section \<open>Attributes\<close>

record hook_file_attr =
  ha_is_dir :: bool
  ha_mode :: "32 word"
  ha_size :: "64 word"

definition attr_directory :: hook_file_attr where
  "attr_directory = \<lparr>ha_is_dir = True, ha_mode = 0x1ED, ha_size = 4096\<rparr>"

definition attr_readonly_file :: hook_file_attr where
  "attr_readonly_file = \<lparr>ha_is_dir = False, ha_mode = 0x124, ha_size = 0\<rparr>"

definition attr_writeonly_file :: hook_file_attr where
  "attr_writeonly_file = \<lparr>ha_is_dir = False, ha_mode = 0x80, ha_size = 0\<rparr>"

definition attr_readwrite_file :: hook_file_attr where
  "attr_readwrite_file = \<lparr>ha_is_dir = False, ha_mode = 0x1A4, ha_size = 0\<rparr>"

definition hook_get_attr :: "str \<Rightarrow> hook_file_attr option" where
  "hook_get_attr path =
     (if \<not> is_hook_path path then None
      else if path = TARBOX_HOOK_PATH \<or> path = LAYERS then Some attr_directory
      else if path = LAYERS_CURRENT \<or> path = LAYERS_LIST then Some attr_readonly_file
      else if path = LAYERS_NEW \<or> path = LAYERS_SWITCH \<or> path = LAYERS_DROP then Some attr_writeonly_file
      else if path = LAYERS_TREE \<or> path = LAYERS_DIFF then Some attr_readonly_file
      else if path = SNAPSHOTS \<or> path = STATS then Some attr_directory
      else if path = STATS_USAGE then Some attr_readonly_file
      else if starts_with path SNAPSHOTS then Some attr_directory
      else None)"

section \<open>What the hooks read and change\<close>

lemma reads_attempt: "reads m \<Longrightarrow> reads (attempt m)"
  by (simp add: reads_def attempt_def split_beta)

lemma reads_okE: "reads m \<Longrightarrow> reads (okE m)"
  by (auto simp: reads_def okE_def split: prod.split sum.split) (metis snd_conv)+

lemma reads_or_panic: "reads (or_panic v)"
  by (cases v) (simp_all add: or_panic_def reads_def)

lemma reads_ok_or: "reads (ok_or e v)"
  by (cases v) (simp_all add: reads_def)

lemma reads_storage: "reads m \<Longrightarrow> reads (storage m)"
  by (auto simp: reads_def storage_apply split: prod.split sum.split) (metis snd_conv)+

lemma reads_layer_queries:
  "reads (layer_get_current_layer t)" "reads (layer_get t l)" "reads (layer_list t)" "reads (layer_list_entries t l)"
  by (simp_all add: reads_def layer_get_current_layer_def layer_get_def layer_list_def layer_list_entries_def)

lemma reads_queries:
  "reads (lm_get_current_layer t)" "reads (lm_get_current_layer_id t)" "reads (lm_list_layers t)"
  "reads (lm_get_layer_entries t l)"
  unfolding lm_get_current_layer_def lm_get_current_layer_id_def lm_list_layers_def lm_get_layer_entries_def
  by (intro reads_bindE reads_storage reads_layer_queries reads_ok_or)+

lemma reads_sum: "(\<And>a. reads (f a)) \<Longrightarrow> (\<And>b. reads (g b)) \<Longrightarrow> reads (case s of Inl a \<Rightarrow> f a | Inr b \<Rightarrow> g b)"
  by (cases s) simp_all

lemma reads_option: "reads f \<Longrightarrow> (\<And>b. reads (g b)) \<Longrightarrow> reads (case s of None \<Rightarrow> f | Some b \<Rightarrow> g b)"
  by (cases s) simp_all

lemma reads_If: "reads f \<Longrightarrow> reads g \<Longrightarrow> reads (if b then f else g)"
  by simp

lemmas reads_rules = reads_basic reads_bindE reads_attempt reads_okE reads_or_panic reads_queries reads_sum
  reads_option reads_If

lemma reads_current_id: "reads (current_id_or_none t)"
  unfolding current_id_or_none_def by (intro reads_rules)

lemma reads_hook_fail: "reads (hook_fail e)"
  unfolding hook_fail_def by (rule reads_basic)

lemma reads_hook_read_dir: "reads (hook_read_dir t path)"
  unfolding hook_read_dir_def by (intro reads_rules)

lemma reads_handle_read: "reads (handle_read checks x t path)"
  unfolding handle_read_def read_current_layer_def read_layer_list_def read_layer_tree_def
    read_current_diff_def read_stats_usage_def handle_snapshot_read_def Let_def
  by (intro reads_rules reads_current_id reads_hook_fail reads_hook_read_dir)

text \<open>The manager operation that a write can reach; each is a step of the system.\<close>

inductive hook_command :: "uuid \<Rightarrow> str \<Rightarrow> db \<Rightarrow> db \<Rightarrow> bool" for t where
  new_layer: "hook_command t LAYERS_NEW d (snd (lm_create_checkpoint_with_confirm t name descr confirm d))"
| switch_layer: "hook_command t LAYERS_SWITCH d (snd (lm_switch_to_layer t l d))"
| drop_layer: "hook_command t LAYERS_DROP d (snd (lm_delete_layer t l d))"

lemma hook_command_step: "hook_command t path d d' \<Longrightarrow> step x d d'"
  by (induction rule: hook_command.induct) (rule step.intros)+

text \<open>An operation that leaves the state alone or takes it along a relation.\<close>

definition effect :: "('s \<Rightarrow> 's \<Rightarrow> bool) \<Rightarrow> ('s, 'e, 'a) op \<Rightarrow> bool" where
  "effect R m \<longleftrightarrow> (\<forall>d. snd (m d) = d \<or> R d (snd (m d)))"

lemma effect_reads: "reads m \<Longrightarrow> effect R m"
  by (simp add: effect_def reads_def)

lemma effect_reads_then: "reads m \<Longrightarrow> (\<And>a. effect R (f a)) \<Longrightarrow> effect R (bindE m f)"
  by (auto simp: effect_def bindE_def split: prod.split sum.split dest: readsD)

lemma effect_then_reads: "effect R m \<Longrightarrow> (\<And>a. reads (f a)) \<Longrightarrow> effect R (bindE m f)"
  unfolding effect_def bindE_def reads_def by (auto split: prod.split sum.split) (metis snd_conv)+

lemma effect_attempt: "effect R m \<Longrightarrow> effect R (attempt m)"
  by (simp add: effect_def attempt_def split_beta)

lemma effect_sum: "(\<And>a. effect R (f a)) \<Longrightarrow> (\<And>b. effect R (g b)) \<Longrightarrow> effect R (case s of Inl a \<Rightarrow> f a | Inr b \<Rightarrow> g b)"
  by (cases s) simp_all

lemma effect_option: "effect R f \<Longrightarrow> (\<And>b. effect R (g b)) \<Longrightarrow> effect R (case s of None \<Rightarrow> f | Some b \<Rightarrow> g b)"
  by (cases s) simp_all

lemma effect_If: "(b \<Longrightarrow> effect R f) \<Longrightarrow> (\<not> b \<Longrightarrow> effect R g) \<Longrightarrow> effect R (if b then f else g)"
  by simp

lemma reads_layer_error:
  "reads f \<Longrightarrow> (\<And>l ls. reads (g l ls)) \<Longrightarrow>
    reads (case e of HistoricalLayerNeedsConfirmation l ls \<Rightarrow> g l ls | _ \<Rightarrow> f)"
  "reads f \<Longrightarrow> (\<And>l. reads (h l)) \<Longrightarrow> reads (case e of HasChildLayers l \<Rightarrow> h l | _ \<Rightarrow> f)"
  by (cases e; simp)+

lemma reads_find_ref: "reads (find_layer_ref x t ref)" "reads (find_drop_ref x t ref)"
  unfolding find_layer_ref_def find_drop_ref_def by (intro reads_rules)+

lemma effect_commands:
  "effect (hook_command t LAYERS_NEW) (lm_create_checkpoint_with_confirm t name descr confirm)"
  "effect (hook_command t LAYERS_SWITCH) (lm_switch_to_layer t l)"
  "effect (hook_command t LAYERS_DROP) (lm_delete_layer t l)"
  by (auto simp: effect_def intro: hook_command.intros)

lemma effect_write_new: "effect (hook_command t LAYERS_NEW) (write_new_layer x t input)"
  unfolding write_new_layer_def
  by (intro effect_sum effect_reads [OF reads_basic(1)] effect_then_reads effect_attempt effect_commands
      reads_sum reads_layer_error reads_hook_fail reads_basic)

lemma effect_write_switch: "effect (hook_command t LAYERS_SWITCH) (write_switch_layer x t input)"
  unfolding write_switch_layer_def
  by (intro effect_sum effect_reads [OF reads_basic(1)] effect_reads_then [OF reads_find_ref(1)] effect_then_reads
      effect_attempt effect_commands reads_sum reads_hook_fail reads_basic)

lemma effect_write_drop: "effect (hook_command t LAYERS_DROP) (write_drop_layer x t input)"
  unfolding write_drop_layer_def
  by (intro effect_sum effect_reads [OF reads_basic(1)] effect_reads_then [OF reads_find_ref(2)] effect_then_reads
      effect_attempt effect_commands reads_sum reads_layer_error reads_hook_fail reads_basic)

lemma effect_handle_write: "effect (hook_command t path) (handle_write x t path data)"
  unfolding handle_write_def Let_def
  by (intro effect_If effect_option effect_reads [OF reads_basic(1)])
     (simp_all add: effect_write_new effect_write_switch effect_write_drop)

section \<open>Checkpoints by writing a file\<close>

lemma get_layer_of:
  assumes "layers_ok d" "r \<in> set (d_layers d)" "ly_tenant_id r = t"
  shows "layer_get t (ly_id r) d = (Inr (Some r), d)"
proof -
  obtain q where q: "find (\<lambda>s. ly_tenant_id s = t \<and> ly_id s = ly_id r) (d_layers d) = Some q"
    using assms(2,3) by (cases "find (\<lambda>s. ly_tenant_id s = t \<and> ly_id s = ly_id r) (d_layers d)") auto
  then have "q \<in> set (d_layers d)" "ly_id q = ly_id r" by (auto dest: find_SomeD)
  with assms(1,2) have "q = r" using layer_tbl.lookup_unique [of d q r] by (auto simp: layers_ok_def)
  with q show ?thesis by (simp add: layer_get_def)
qed

text \<open>
  C8.  Writing the name of a layer to \<open>/.tarbox/layers/new\<close> takes a checkpoint: with surrounding
  white space removed it names a new writable layer on top of the current one, the answer says so,
  and reading \<open>/.tarbox/layers/current\<close> then shows exactly that layer.
\<close>

theorem hook_checkpoint_shown:
  assumes "layers_ok d" and "ids_drawn d"
    and "layer_get_current_layer t d = (Inr (Some l), d)"
    and "list_all (\<lambda>r. ly_parent_id r \<noteq> Some l) (d_layers d)"
    and "t \<in> set (map tn_id (d_tenants d))"
    and "varchar 255 name" and "(t, name) \<notin> set (map layer_name_key (d_layers d))"
    and "from_utf8 data = Some s" and "trim s = name" and "\<not> looks_like_json name"
  shows "\<exists>new d'. handle_write x t LAYERS_NEW data d =
      (Inr (WriteSuccess (''Created layer '' @ quoted name @ '' ('' @ uuid_to_string x (ly_id new) @ '')'' @ [NL])), d') \<and>
    ly_name new = name \<and> ly_parent_id new = Some l \<and> \<not> ly_is_readonly new \<and>
    handle_read checks x t LAYERS_CURRENT d' =
      (Inr (Content (json_pretty x (layer_info_json (layer_info_of x new True)))), d')"
proof -
  from checkpoint_at_tip_core [OF assms(1-7), of None] obtain new d' where
    cp: "lm_create_checkpoint t name None d = (Inr new, d')"
    and new: "ly_parent_id new = Some l" "ly_tenant_id new = t" "ly_name new = name" "\<not> ly_is_readonly new"
      "new \<in> set (d_layers d')" "layer_get_current_layer t d' = (Inr (Some (ly_id new)), d')" by auto
  have "layers_ok (snd (lm_create_checkpoint_with_confirm t name None False d))"
    by (rule preservesD [of layers_ok]) (intro preserves_rules, rule assms(1))
  then have "layers_ok d'" using cp unfolding lm_create_checkpoint_def by simp
  from get_layer_of [OF this new(5,2)] new(6)
  have "lm_get_current_layer t d' = (Inr new, d')"
    by (simp add: lm_get_current_layer_def bindE_def storage_apply)
  then have rd: "handle_read checks x t LAYERS_CURRENT d' =
      (Inr (Content (json_pretty x (layer_info_json (layer_info_of x new True)))), d')"
    by (simp add: handle_read_def is_hook_path_def starts_with_def hook_paths read_current_layer_def bindE_def attempt_def)
  have "handle_write x t LAYERS_NEW data d =
      (Inr (WriteSuccess (''Created layer '' @ quoted name @ '' ('' @ uuid_to_string x (ly_id new) @ '')'' @ [NL])), d')"
    using cp assms(8-10) new(3) unfolding lm_create_checkpoint_def
    by (simp add: handle_write_def is_hook_path_def starts_with_def hook_paths Let_def write_new_layer_def bindE_def attempt_def)
  with rd new show ?thesis by blast
qed

theorem hook_checkpoint_shown_witness:
  "\<exists>new d'. handle_write example_ext 0 LAYERS_NEW ('' v1'' @ [NL]) example_db =
       (Inr (WriteSuccess (''Created layer '' @ quoted ''v1'' @ '' ('' @ uuid_to_string example_ext (ly_id new) @ '')'' @ [NL])), d') \<and>
     handle_read True example_ext 0 LAYERS_CURRENT d' =
       (Inr (Content (json_pretty example_ext (layer_info_json (layer_info_of example_ext new True)))), d')"
proof -
  have "from_utf8 ('' v1'' @ [NL]) = Some ('' v1'' @ [NL])" "trim ('' v1'' @ [NL]) = ''v1''"
    "\<not> looks_like_json ''v1''" by code_simp+
  note input = this
  have "layer_get_current_layer 0 example_db = (Inr (Some 1), example_db)"
    "list_all (\<lambda>r. ly_parent_id r \<noteq> Some 1) (d_layers example_db)"
    "0 \<in> set (map tn_id (d_tenants example_db))" "varchar 255 ''v1''"
    "(0, ''v1'') \<notin> set (map layer_name_key (d_layers example_db))"
    by (simp_all add: example_db_eq layer_get_current_layer_def layer_name_key_def varchar_short)
  from hook_checkpoint_shown [OF example_ok example_ids this input, of example_ext True] show ?thesis by blast
qed

text \<open>The flag \<open>force\<close> of a request to drop a layer has no effect.\<close>

lemma force_ignored:
  assumes "looks_like_json a" "looks_like_json b"
    and "parse_drop_layer x a = Inr r" "parse_drop_layer x b = Inr q" "dr_layer r = dr_layer q"
  shows "write_drop_layer x t a = write_drop_layer x t b"
  unfolding write_drop_layer_def by (simp only: assms if_True sum.case)

lemma hook_prefix_too_wide: "is_hook_path ''/.tarboxrc''"
  by (simp add: is_hook_path_def starts_with_def hook_paths)

end
