(* ===== verification/FdTable.thy ===== *)
theory FdTable
  imports Models Machine "HOL-Library.AList"
begin

text \<open>
  File descriptors of the WASI adapter: \<open>src/src/wasi/fd_table.rs\<close>, and the errors of
  \<open>src/src/wasi/error.rs\<close>.  A position is a \<open>u64\<close>, an offset an \<open>i64\<close> (a word read with \<open>sint\<close>),
  a descriptor number a \<open>u32\<close>.  The argument \<open>checks\<close> says whether the program was compiled with
  overflow checks (the debug profile, where an overflow panics) or without (the release
  profile, where it wraps).
\<close>

section \<open>Errors\<close>

datatype wasi_error =
    NotFound
  | PermissionDenied
  | FileExists
  | InvalidArgument
  | IsADirectory
  | NotADirectory
  | NotEmpty
  | NoSpaceLeft
  | InvalidFd
  | BadFd
  | FdNotOpen
  | NotSupported
  | IoError str

fun show_wasi_error :: "wasi_error \<Rightarrow> str" where
  "show_wasi_error NotFound = ''File not found''"
| "show_wasi_error PermissionDenied = ''Permission denied''"
| "show_wasi_error FileExists = ''File already exists''"
| "show_wasi_error InvalidArgument = ''Invalid argument''"
| "show_wasi_error IsADirectory = ''Is a directory''"
| "show_wasi_error NotADirectory = ''Not a directory''"
| "show_wasi_error NotEmpty = ''Directory not empty''"
| "show_wasi_error NoSpaceLeft = ''No space left on device''"
| "show_wasi_error InvalidFd = ''Invalid file descriptor''"
| "show_wasi_error BadFd = ''Bad file descriptor''"
| "show_wasi_error FdNotOpen = ''File descriptor not open''"
| "show_wasi_error NotSupported = ''Operation not supported''"
| "show_wasi_error (IoError msg) = ''IO error: '' @ msg"

fun wasi_of_fs_error :: "fs_error \<Rightarrow> wasi_error" where
  "wasi_of_fs_error (PathNotFound p) = NotFound"
| "wasi_of_fs_error (AlreadyExists p) = FileExists"
| "wasi_of_fs_error (NotDirectory p) = NotADirectory"
| "wasi_of_fs_error (IsDirectory p) = IsADirectory"
| "wasi_of_fs_error (DirectoryNotEmpty p) = NotEmpty"
| "wasi_of_fs_error (InvalidPath p) = InvalidArgument"
| "wasi_of_fs_error (PathTooLong n) = InvalidArgument"
| "wasi_of_fs_error (FilenameTooLong n) = InvalidArgument"
| "wasi_of_fs_error (Storage e) = IoError ''Storage error''"

fun to_wasi_errno :: "wasi_error \<Rightarrow> 16 word" where
  "to_wasi_errno NotFound = 44"
| "to_wasi_errno PermissionDenied = 63"
| "to_wasi_errno FileExists = 20"
| "to_wasi_errno InvalidArgument = 28"
| "to_wasi_errno IsADirectory = 31"
| "to_wasi_errno NotADirectory = 54"
| "to_wasi_errno NotEmpty = 66"
| "to_wasi_errno NoSpaceLeft = 51"
| "to_wasi_errno InvalidFd = 8"
| "to_wasi_errno BadFd = 8"
| "to_wasi_errno FdNotOpen = 8"
| "to_wasi_errno NotSupported = 58"
| "to_wasi_errno (IoError msg) = 29"

text \<open>How an operation of the adapter can fail: with an error, or by a panic.\<close>

type_synonym wasi_failure = "wasi_error failure"

section \<open>Descriptors\<close>

record open_flags =
  of_read :: bool
  of_write :: bool
  of_append :: bool
  of_create :: bool
  of_truncate :: bool

definition flags_default :: open_flags where
  "flags_default = \<lparr>of_read = True, of_write = False, of_append = False, of_create = False, of_truncate = False\<rparr>"

definition flags_read_only :: open_flags where
  "flags_read_only = flags_default\<lparr>of_read := True, of_write := False\<rparr>"

definition flags_write_only :: open_flags where
  "flags_write_only = flags_default\<lparr>of_read := False, of_write := True\<rparr>"

definition flags_read_write :: open_flags where
  "flags_read_write = flags_default\<lparr>of_read := True, of_write := True\<rparr>"

definition flags_create :: open_flags where
  "flags_create = flags_default\<lparr>of_read := False, of_write := True, of_create := True\<rparr>"

definition with_truncate :: "open_flags \<Rightarrow> open_flags" where
  "with_truncate f = f\<lparr>of_truncate := True\<rparr>"

definition with_append :: "open_flags \<Rightarrow> open_flags" where
  "with_append f = f\<lparr>of_append := True\<rparr>"

record file_descriptor =
  fd_inode_id :: int
  fd_path :: str
  fd_flags :: open_flags
  fd_position :: "64 word"
  fd_is_directory :: bool

definition descriptor_new :: "int \<Rightarrow> str \<Rightarrow> open_flags \<Rightarrow> bool \<Rightarrow> file_descriptor" where
  "descriptor_new i path flags is_directory =
     \<lparr>fd_inode_id = i, fd_path = path, fd_flags = flags, fd_position = 0, fd_is_directory = is_directory\<rparr>"

definition can_read :: "file_descriptor \<Rightarrow> bool" where
  "can_read f = of_read (fd_flags f)"

definition can_write :: "file_descriptor \<Rightarrow> bool" where
  "can_write f = of_write (fd_flags f)"

definition descriptor_seek :: "bool \<Rightarrow> 64 word \<Rightarrow> 8 word \<Rightarrow> (file_descriptor, wasi_failure, 64 word) op" where
  "descriptor_seek checks offset whence =
     bindE
       (if whence = 0 then
          if sint offset < 0 then raise (Fails InvalidArgument)
          else modify (\<lambda>f. f\<lparr>fd_position := offset\<rparr>)
        else if whence = 1 then
          if sint offset < 0 then
            bindE (or_panic (neg_checked checks offset)) (\<lambda>abs_offset.
            bindE (gets fd_position) (\<lambda>position.
              if uint abs_offset > uint position then raise (Fails InvalidArgument)
              else modify (\<lambda>f. f\<lparr>fd_position := position - abs_offset\<rparr>)))
          else
            bindE (gets fd_position) (\<lambda>position.
            bindE (or_panic (add_checked checks position offset)) (\<lambda>sum.
              modify (\<lambda>f. f\<lparr>fd_position := sum\<rparr>)))
        else if whence = 2 then raise (Fails NotSupported)
        else raise (Fails InvalidArgument))
       (\<lambda>_. gets fd_position)"

section \<open>The table\<close>

record fd_table =
  ft_fds :: "(32 word \<times> file_descriptor) list"
  ft_next_fd :: "32 word"

definition fdt_new :: fd_table where
  "fdt_new = \<lparr>ft_fds = [], ft_next_fd = 3\<rparr>"

text \<open>The overflow of the counter panics after the insertion.\<close>

definition fdt_allocate :: "bool \<Rightarrow> file_descriptor \<Rightarrow> (fd_table, wasi_failure, 32 word) op" where
  "fdt_allocate checks descriptor =
     bindE (gets ft_next_fd) (\<lambda>fd.
     bindE (modify (\<lambda>t. t\<lparr>ft_fds := AList.update fd descriptor (ft_fds t)\<rparr>)) (\<lambda>_.
     bindE (or_panic (add_checked checks fd 1)) (\<lambda>next_fd.
     bindE (modify (\<lambda>t. t\<lparr>ft_next_fd := next_fd\<rparr>)) (\<lambda>_.
       ret fd))))"

definition fdt_get :: "32 word \<Rightarrow> (fd_table, wasi_failure, file_descriptor) op" where
  "fdt_get fd = bindE (gets (\<lambda>t. map_of (ft_fds t) fd)) (ok_or (Fails BadFd))"

text \<open>\<open>get_mut\<close>, with what the caller does to the descriptor it borrows.\<close>

definition fdt_get_mut :: "32 word \<Rightarrow> (file_descriptor, wasi_failure, 'a) op \<Rightarrow> (fd_table, wasi_failure, 'a) op" where
  "fdt_get_mut fd m =
     bindE (fdt_get fd) (\<lambda>f t.
       case m f of (r, f') \<Rightarrow> (r, t\<lparr>ft_fds := AList.update fd f' (ft_fds t)\<rparr>))"

definition fdt_close :: "32 word \<Rightarrow> (fd_table, wasi_failure, unit) op" where
  "fdt_close fd =
     bindE (fdt_get fd) (\<lambda>_. modify (\<lambda>t. t\<lparr>ft_fds := AList.delete fd (ft_fds t)\<rparr>))"

definition fdt_len :: "fd_table \<Rightarrow> nat" where
  "fdt_len t = length (ft_fds t)"

definition fdt_is_empty :: "fd_table \<Rightarrow> bool" where
  "fdt_is_empty t \<longleftrightarrow> ft_fds t = []"

definition fdt_close_all :: "(fd_table, wasi_failure, unit) op" where
  "fdt_close_all = modify (\<lambda>t. t\<lparr>ft_fds := []\<rparr>)"

section \<open>Positions\<close>

text \<open>
  C32.  A seek moves to the offset, counted from the start or from the current position, exactly
  when the target is neither negative nor beyond \<open>u64\<close>; a negative target is an error that leaves
  the position alone, seeking from the end is not supported, any other \<open>whence\<close> is invalid.  With
  overflow checks a target beyond \<open>u64\<close> and the offset \<open>i64::MIN\<close> panic; without them the former
  wraps around to the start of the file.
\<close>

theorem seek_exact:
  "descriptor_seek checks offset whence f =
     (let target = (if whence = 0 then 0 else uint (fd_position f)) + sint offset in
      if whence = 2 then (Inl (Fails NotSupported), f)
      else if whence \<noteq> 0 \<and> whence \<noteq> 1 then (Inl (Fails InvalidArgument), f)
      else if checks \<and> whence = 1 \<and> sint offset = - (2 ^ 63) then (Inl Panic, f)
      else if target < 0 then (Inl (Fails InvalidArgument), f)
      else if checks \<and> 2 ^ 64 \<le> target then (Inl Panic, f)
      else (Inr (word_of_int target), f\<lparr>fd_position := word_of_int target\<rparr>))"
proof (cases "whence = 0")
  case True
  have "offset = word_of_int (sint offset)" by simp
  moreover have "sint offset < 2 ^ 64" using sint_as_uint [of offset] uint_bounds [of offset] by (auto split: if_splits)
  ultimately show ?thesis using True by (simp add: descriptor_seek_def Let_def)
next
  case False
  have sum: "word_of_int (uint (fd_position f) + sint offset) = fd_position f + offset"
    by (simp add: wi_hom_add [symmetric])
  show ?thesis
  proof (cases "sint offset < 0")
    case True
    have "uint (fd_position f) + sint offset < 2 ^ 64" using True uint_bounds [of "fd_position f"] by simp
    with True False show ?thesis
      by (simp add: descriptor_seek_def Let_def neg_checked_def or_panic_def neg_offset sum bindE_def)
  next
    case nonneg: False
    have "\<not> uint (fd_position f) + sint offset < 0" using nonneg uint_bounds(1) [of "fd_position f"] by linarith
    with nonneg False show ?thesis
      by (simp add: descriptor_seek_def Let_def add_checked_def or_panic_def nonneg_offset sum bindE_def)
  qed
qed

section \<open>The table as a map\<close>

text \<open>
  What the adapter relies on: the table is a map from numbers to descriptors, of which an operation
  changes at most the entry of the number it is given.
\<close>

locale descriptor_store =
  fixes view :: "'t \<Rightarrow> 'k \<Rightarrow> 'v option"
    and get :: "'k \<Rightarrow> ('t, 'e, 'v) op"
    and borrow :: "'k \<Rightarrow> ('v, 'e, 'a) op \<Rightarrow> ('t, 'e, 'a) op"
    and close :: "'k \<Rightarrow> ('t, 'e, unit) op"
    and bad :: 'e
  assumes get_law: "get k t = (case view t k of None \<Rightarrow> (Inl bad, t) | Some v \<Rightarrow> (Inr v, t))"
    and borrow_bad: "view t k = None \<Longrightarrow> borrow k m t = (Inl bad, t)"
    and borrow_result: "view t k = Some v \<Longrightarrow> fst (borrow k m t) = fst (m v)"
    and borrow_view: "view t k = Some v \<Longrightarrow> view (snd (borrow k m t)) = (view t)(k \<mapsto> snd (m v))"
    and close_result: "fst (close k t) = (if view t k = None then Inl bad else Inr ())"
    and close_view: "view (snd (close k t)) = (view t)(k := None)"
begin

lemma borrow_frame: "j \<noteq> k \<Longrightarrow> view (snd (borrow k m t)) j = view t j"
  by (cases "view t k") (simp_all add: borrow_bad borrow_view)

lemma borrow_dom: "dom (view (snd (borrow k m t))) = dom (view t)"
  by (cases "view t k") (auto simp: borrow_bad borrow_view)

lemma get_closed: "get k (snd (close k t)) = (Inl bad, snd (close k t))"
  by (simp add: get_law close_view)

lemma close_twice: "fst (close k (snd (close k t))) = Inl bad"
  by (simp add: close_result close_view)

end

definition fds :: "fd_table \<Rightarrow> 32 word \<Rightarrow> file_descriptor option" where
  "fds t = map_of (ft_fds t)"

interpretation fdt: descriptor_store fds fdt_get fdt_get_mut fdt_close "Fails BadFd"
proof
  fix t k and m :: "(file_descriptor, wasi_failure, 'z) op" and v
  show get: "fdt_get k t = (case fds t k of None \<Rightarrow> (Inl (Fails BadFd), t) | Some v \<Rightarrow> (Inr v, t))" for k t
    by (simp add: fdt_get_def fds_def split: option.split)
  show "fds t k = None \<Longrightarrow> fdt_get_mut k m t = (Inl (Fails BadFd), t)"
    by (simp add: fdt_get_mut_def bindE_def get)
  show "fds t k = Some v \<Longrightarrow> fst (fdt_get_mut k m t) = fst (m v)"
    by (simp add: fdt_get_mut_def bindE_def get split: prod.split)
  show "fds t k = Some v \<Longrightarrow> fds (snd (fdt_get_mut k m t)) = (fds t)(k \<mapsto> snd (m v))"
    by (simp add: fdt_get_mut_def bindE_def get split: prod.split) (simp add: fds_def update_conv')
  show "fst (fdt_close k t) = (if fds t k = None then Inl (Fails BadFd) else Inr ())"
    by (auto simp: fdt_close_def bindE_def get split: option.split)
  show "fds (snd (fdt_close k t)) = (fds t)(k := None)"
    by (auto simp: fdt_close_def bindE_def get fds_def delete_conv' fun_eq_iff split: option.split)
qed

text \<open>The invariant: every number in use is at least 3 and below the next one.\<close>

definition fdt_ok :: "fd_table \<Rightarrow> bool" where
  "fdt_ok t \<longleftrightarrow> 3 \<le> uint (ft_next_fd t) \<and> distinct (map fst (ft_fds t)) \<and>
     (\<forall>fd \<in> dom (fds t). 3 \<le> uint fd \<and> uint fd < uint (ft_next_fd t))"

lemma fdt_ok_new: "fdt_ok fdt_new"
  by (simp add: fdt_ok_def fdt_new_def fds_def)

lemma next_fd_get_mut: "ft_next_fd (snd (fdt_get_mut fd m t)) = ft_next_fd t"
  by (cases "fds t fd") (simp_all add: fdt_get_mut_def bindE_def fdt.get_law split: prod.split)

lemma next_fd_close: "ft_next_fd (snd (fdt_close fd t)) = ft_next_fd t"
  by (cases "fds t fd") (simp_all add: fdt_close_def bindE_def fdt.get_law)

lemma distinct_get_mut: "distinct (map fst (ft_fds t)) \<Longrightarrow> distinct (map fst (ft_fds (snd (fdt_get_mut fd m t))))"
  by (cases "fds t fd") (simp_all add: fdt_get_mut_def bindE_def fdt.get_law distinct_update split: prod.split)

lemma fdt_ok_get_mut: "fdt_ok t \<Longrightarrow> fdt_ok (snd (fdt_get_mut fd m t))"
  by (simp add: fdt_ok_def next_fd_get_mut fdt.borrow_dom distinct_get_mut)

lemma fdt_ok_close: "fdt_ok t \<Longrightarrow> fdt_ok (snd (fdt_close fd t))"
  by (cases "fds t fd")
     (auto simp: fdt_ok_def fdt_close_def bindE_def fdt.get_law fds_def delete_conv' distinct_delete split: if_splits)

lemma fdt_allocate_eq:
  assumes "uint (ft_next_fd t) < 2 ^ 32 - 1"
  shows "fdt_allocate checks f t =
    (Inr (ft_next_fd t), \<lparr>ft_fds = AList.update (ft_next_fd t) f (ft_fds t), ft_next_fd = ft_next_fd t + 1\<rparr>)"
  using assms by (simp add: fdt_allocate_def or_panic_def add_checked_def bindE_def)

lemma fdt_ok_allocate:
  assumes "fdt_ok t" and "uint (ft_next_fd t) < 2 ^ 32 - 1"
  shows "fdt_ok (snd (fdt_allocate checks f t))" and "fds t (ft_next_fd t) = None"
    and "fds (snd (fdt_allocate checks f t)) = (fds t)(ft_next_fd t \<mapsto> f)"
proof -
  have u: "uint (ft_next_fd t + 1) = uint (ft_next_fd t) + 1"
    using assms(2) uint_lt2p [of "ft_next_fd t"] by (simp add: uint_word_ariths)
  show view: "fds (snd (fdt_allocate checks f t)) = (fds t)(ft_next_fd t \<mapsto> f)"
    unfolding fdt_allocate_eq [OF assms(2)] by (simp add: fds_def update_conv')
  show "fds t (ft_next_fd t) = None" using assms(1) by (auto simp: fdt_ok_def dom_def)
  have low: "3 \<le> uint (ft_next_fd t)" using assms(1) by (simp add: fdt_ok_def)
  have "distinct (map fst (AList.update (ft_next_fd t) f (ft_fds t)))"
    using assms(1) by (simp add: fdt_ok_def distinct_update)
  moreover have "3 \<le> uint fd \<and> uint fd < uint (ft_next_fd t) + 1"
    if "fd \<in> insert (ft_next_fd t) (dom (fds t))" for fd
    using that assms(1) by (auto simp: fdt_ok_def dom_def)
  ultimately show "fdt_ok (snd (fdt_allocate checks f t))"
    using view unfolding fdt_ok_def by (simp add: fdt_allocate_eq [OF assms(2)] u) (use low in linarith)
qed

section \<open>Sequences of calls\<close>

text \<open>Calls on one table, in any order; the numbers that were handed out are collected, a panic ends the sequence.\<close>

datatype fd_call =
    Allocate file_descriptor
  | Seek "32 word" "64 word" "8 word"
  | Close "32 word"
  | CloseAll

fun fdt_call :: "bool \<Rightarrow> fd_call \<Rightarrow> (fd_table, wasi_failure, 32 word list) op" where
  "fdt_call checks (Allocate f) = bindE (fdt_allocate checks f) (\<lambda>fd. ret [fd])"
| "fdt_call checks (Seek fd offset whence) =
     bindE (fdt_get_mut fd (descriptor_seek checks offset whence)) (\<lambda>_. ret [])"
| "fdt_call checks (Close fd) = bindE (fdt_close fd) (\<lambda>_. ret [])"
| "fdt_call checks CloseAll = bindE fdt_close_all (\<lambda>_. ret [])"

fun fdt_calls :: "bool \<Rightarrow> fd_call list \<Rightarrow> fd_table \<Rightarrow> 32 word list \<times> fd_table" where
  "fdt_calls checks [] t = ([], t)"
| "fdt_calls checks (c # cs) t =
     (case fdt_call checks c t of
        (Inl Panic, t') \<Rightarrow> ([], t')
      | (Inl (Fails e), t') \<Rightarrow> fdt_calls checks cs t'
      | (Inr ns, t') \<Rightarrow> (case fdt_calls checks cs t' of (ms, t'') \<Rightarrow> (ns @ ms, t'')))"

lemma snd_bindE_ret: "snd (bindE m (\<lambda>a. ret (g a)) s) = snd (m s)"
  by (simp add: bindE_def split: prod.split sum.split)

lemma fst_bindE_ret: "fst (bindE m (\<lambda>a. ret (g a)) s) = map_sum id g (fst (m s))"
  by (simp add: bindE_def split: prod.split sum.split)

text \<open>One call keeps the invariant and hands out no number or the next one.\<close>

lemma fdt_call_ok:
  assumes "fdt_ok t" and "uint (ft_next_fd t) < 2 ^ 32 - 1"
  shows "fdt_ok (snd (fdt_call checks c t)) \<and>
    uint (ft_next_fd t) \<le> uint (ft_next_fd (snd (fdt_call checks c t))) \<and>
    uint (ft_next_fd (snd (fdt_call checks c t))) \<le> uint (ft_next_fd t) + 1 \<and>
    (\<forall>ns. fst (fdt_call checks c t) = Inr ns \<longrightarrow>
       ns = [] \<or> (ns = [ft_next_fd t] \<and> uint (ft_next_fd (snd (fdt_call checks c t))) = uint (ft_next_fd t) + 1))"
proof (cases c)
  case (Allocate f)
  have "uint (ft_next_fd t + 1) = uint (ft_next_fd t) + 1"
    using assms(2) uint_lt2p [of "ft_next_fd t"] by (simp add: uint_word_ariths)
  moreover have "fst (fdt_allocate checks f t) = Inr (ft_next_fd t)"
    "ft_next_fd (snd (fdt_allocate checks f t)) = ft_next_fd t + 1"
    by (simp_all add: fdt_allocate_eq [OF assms(2)])
  ultimately show ?thesis using Allocate fdt_ok_allocate(1) [OF assms] by (simp add: snd_bindE_ret fst_bindE_ret)
next
  case CloseAll
  have "fdt_ok (t\<lparr>ft_fds := []\<rparr>)" using assms(1) by (simp add: fdt_ok_def fds_def)
  with CloseAll show ?thesis by (simp add: fdt_close_all_def)
qed (use assms(1) in \<open>auto simp: snd_bindE_ret fst_bindE_ret fdt_ok_get_mut fdt_ok_close next_fd_get_mut
       next_fd_close map_sum_eq_Inr\<close>)

lemma fdt_calls_ok:
  assumes "fdt_ok t" and "uint (ft_next_fd t) + int (length cs) \<le> 2 ^ 32 - 1"
  shows "fdt_ok (snd (fdt_calls checks cs t)) \<and> distinct (fst (fdt_calls checks cs t)) \<and>
    (\<forall>fd \<in> set (fst (fdt_calls checks cs t)). uint (ft_next_fd t) \<le> uint fd)"
  using assms
proof (induction cs arbitrary: t)
  case (Cons c cs)
  have lt: "uint (ft_next_fd t) < 2 ^ 32 - 1" using Cons.prems(2) by simp
  obtain r t' where c: "fdt_call checks c t = (r, t')" by force
  note one = fdt_call_ok [OF Cons.prems(1) lt, of checks c, unfolded c fst_conv snd_conv]
  have "uint (ft_next_fd t') + int (length cs) \<le> 2 ^ 32 - 1" using one Cons.prems(2) by simp
  note rest = Cons.IH [OF conjunct1 [OF one] this]
  show ?case
  proof (cases r)
    case (Inl e)
    with one rest c show ?thesis by (cases e) force+
  next
    case (Inr ns)
    obtain ms t'' where cs: "fdt_calls checks cs t' = (ms, t'')" by force
    have "ns = [] \<or> (ns = [ft_next_fd t] \<and> uint (ft_next_fd t') = uint (ft_next_fd t) + 1)" using one Inr by blast
    with one rest c cs Inr show ?thesis by fastforce
  qed
qed simp

text \<open>
  C33.  Whatever calls are made on a table, up to four billion of them: no descriptor number is
  handed out twice, not even after it was closed, the numbers of the standard streams are never
  handed out, and every open descriptor was allocated below the next number.
\<close>

theorem descriptors_never_reused:
  assumes "length calls \<le> 2 ^ 32 - 4"
  shows "distinct (fst (fdt_calls checks calls fdt_new)) \<and>
    (\<forall>fd \<in> set (fst (fdt_calls checks calls fdt_new)). 3 \<le> uint fd) \<and>
    fdt_ok (snd (fdt_calls checks calls fdt_new))"
  using fdt_calls_ok [OF fdt_ok_new, of calls checks] assms by (simp add: fdt_new_def)

theorem descriptors_never_reused_witness:
  "distinct (fst (fdt_calls True [Allocate (descriptor_new 1 ''/a'' flags_default False), Close 3,
     Allocate (descriptor_new 2 ''/b'' flags_default False)] fdt_new))"
  using descriptors_never_reused [of "[Allocate (descriptor_new 1 ''/a'' flags_default False), Close 3,
     Allocate (descriptor_new 2 ''/b'' flags_default False)]" True] by simp

end
