(* ===== verification/WasiAdapter.thy ===== *)
theory WasiAdapter
  imports FdTable SystemSteps
begin

text \<open>
  The adapter that serves WebAssembly programs: \<open>src/src/wasi/adapter.rs\<close> over the file system
  and the table of descriptors, and its configuration \<open>src/src/wasi/config.rs\<close>.  The state is
  the adapter, with its table behind a mutex that a panic poisons (None), and the database.
  One call is one step: what other tasks do between the two times a call takes the lock is not
  modelled.
\<close>

section \<open>The texts of errors\<close>

fun show_manager_error :: "ext \<Rightarrow> layer_manager_error \<Rightarrow> str" where
  "show_manager_error x (LayerNotFound l) = ''Layer not found: '' @ uuid_to_string x l"
| "show_manager_error x NoCurrentLayer = ''No current layer set for tenant''"
| "show_manager_error x (ReadonlyLayer l) = ''Cannot modify readonly layer: '' @ uuid_to_string x l"
| "show_manager_error x (HasChildLayers l) =
     ''Layer has child layers and cannot be deleted: '' @ uuid_to_string x l"
| "show_manager_error x (HistoricalLayerNeedsConfirmation l ls) =
     ''Cannot create layer from historical position without confirmation''"
| "show_manager_error x (InvalidLayerChain s) = ''Invalid layer chain: '' @ s"
| "show_manager_error x (LayerStorage e) = ''Storage error: '' @ db_error_text x e"

fun show_storage_error :: "ext \<Rightarrow> storage_error \<Rightarrow> str" where
  "show_storage_error x (DbError e) = db_error_text x e"
| "show_storage_error x (ManagerError e) = show_manager_error x e"

fun show_fs_error :: "ext \<Rightarrow> fs_error \<Rightarrow> str" where
  "show_fs_error x (PathNotFound p) = ''Path not found: '' @ p"
| "show_fs_error x (AlreadyExists p) = ''File or directory already exists: '' @ p"
| "show_fs_error x (NotDirectory p) = ''Not a directory: '' @ p"
| "show_fs_error x (IsDirectory p) = ''Is a directory: '' @ p"
| "show_fs_error x (DirectoryNotEmpty p) = ''Directory not empty: '' @ p"
| "show_fs_error x (InvalidPath p) = ''Invalid path: '' @ p"
| "show_fs_error x (PathTooLong n) = ''Path too long: '' @ decimal n @ '' bytes (max 4096)''"
| "show_fs_error x (FilenameTooLong n) = ''Filename too long: '' @ decimal n @ '' bytes (max 255)''"
| "show_fs_error x (Storage e) = ''Storage error: '' @ show_storage_error x e"

section \<open>Configuration\<close>

text \<open>
  The feature \<open>sqlite\<close> of the crate, off by default, adds the second mode; the argument
  \<open>sqlite\<close> says whether it is on.
\<close>

datatype db_mode = Http | Sqlite

fun show_db_mode :: "db_mode \<Rightarrow> str" where
  "show_db_mode Http = ''http''"
| "show_db_mode Sqlite = ''sqlite''"

definition ascii_lower :: "char \<Rightarrow> char" where
  "ascii_lower c = (let n = of_char c :: nat in if 65 \<le> n \<and> n \<le> 90 then char_of (n + 32) else c)"

text \<open>No letter outside ASCII has a lower case that lies in \<open>http\<close>; \<open>sqlite\<close> has its \<open>i\<close> from a dotted capital only with a combining dot.\<close>

definition db_mode_from_str :: "bool \<Rightarrow> str \<Rightarrow> str + db_mode" where
  "db_mode_from_str sqlite s =
     (if map ascii_lower s = ''http'' then Inr Http
      else if sqlite \<and> map ascii_lower s = ''sqlite'' then Inr Sqlite
      else Inl (''Invalid DB mode: '' @ s))"

record wasi_config =
  wc_db_mode :: db_mode
  wc_api_url :: "str option"
  wc_api_key :: "str option"
  wc_sqlite_path :: "str option"
  wc_cache_size_mb :: nat
  wc_cache_ttl_secs :: nat
  wc_tenant_id :: "uuid option"

definition wasi_config_default :: wasi_config where
  "wasi_config_default =
     \<lparr>wc_db_mode = Http, wc_api_url = None, wc_api_key = None, wc_sqlite_path = None,
      wc_cache_size_mb = 100, wc_cache_ttl_secs = 300, wc_tenant_id = None\<rparr>"

fun ok_of :: "'e + 'a \<Rightarrow> 'a option" where
  "ok_of (Inl e) = None"
| "ok_of (Inr a) = Some a"

definition parsed_or :: "(str \<Rightarrow> 'a option) \<Rightarrow> 'a \<Rightarrow> str option \<Rightarrow> 'a" where
  "parsed_or f fallback var =
     (case Option.bind var f of None \<Rightarrow> fallback | Some v \<Rightarrow> v)"

text \<open>\<open>env\<close> is what \<open>std::env::var\<close> answers.\<close>

definition config_from_env :: "bool \<Rightarrow> ext \<Rightarrow> (str \<Rightarrow> str option) \<Rightarrow> str + wasi_config" where
  "config_from_env sqlite x env =
     (let db_mode = parsed_or (ok_of \<circ> db_mode_from_str sqlite) Http (env ''TARBOX_DB_MODE'');
          api_url = env ''TARBOX_API_URL'';
          api_key = env ''TARBOX_API_KEY'';
          sqlite_path = (if sqlite then env ''TARBOX_SQLITE_PATH'' else None);
          cache_size_mb = parsed_or parse_u64 100 (env ''TARBOX_CACHE_SIZE'');
          cache_ttl_secs = parsed_or parse_u64 300 (env ''TARBOX_CACHE_TTL'');
          tenant_id = Option.bind (env ''TARBOX_TENANT_ID'') (uuid_parse x)
      in
        if db_mode = Http \<and> api_url = None then Inl ''TARBOX_API_URL is required for HTTP mode''
        else if sqlite \<and> db_mode = Sqlite \<and> sqlite_path = None
          then Inl ''TARBOX_SQLITE_PATH is required for SQLite mode''
        else Inr \<lparr>wc_db_mode = db_mode, wc_api_url = api_url, wc_api_key = api_key,
                  wc_sqlite_path = sqlite_path, wc_cache_size_mb = cache_size_mb,
                  wc_cache_ttl_secs = cache_ttl_secs, wc_tenant_id = tenant_id\<rparr>)"

definition config_http :: "str \<Rightarrow> str option \<Rightarrow> wasi_config" where
  "config_http api_url api_key = wasi_config_default\<lparr>wc_api_url := Some api_url, wc_api_key := api_key\<rparr>"

definition config_sqlite :: "str \<Rightarrow> wasi_config" where
  "config_sqlite sqlite_path =
     wasi_config_default\<lparr>wc_db_mode := Sqlite, wc_sqlite_path := Some sqlite_path\<rparr>"

definition with_tenant_id :: "uuid \<Rightarrow> wasi_config \<Rightarrow> wasi_config" where
  "with_tenant_id t c = c\<lparr>wc_tenant_id := Some t\<rparr>"

definition with_cache_size :: "nat \<Rightarrow> wasi_config \<Rightarrow> wasi_config" where
  "with_cache_size n c = c\<lparr>wc_cache_size_mb := n\<rparr>"

definition with_cache_ttl :: "nat \<Rightarrow> wasi_config \<Rightarrow> wasi_config" where
  "with_cache_ttl n c = c\<lparr>wc_cache_ttl_secs := n\<rparr>"

section \<open>The adapter\<close>

record wasi_adapter =
  wa_fs :: file_system
  wa_tenant_id :: uuid
  wa_fd_table :: "fd_table option"
  wa_config :: wasi_config

type_synonym 'a wasi_op = "(wasi_adapter \<times> db, wasi_failure, 'a) op"

definition wasi_new :: "file_system \<Rightarrow> uuid \<Rightarrow> wasi_config \<Rightarrow> wasi_adapter" where
  "wasi_new fs t config =
     \<lparr>wa_fs = fs, wa_tenant_id = t, wa_fd_table = Some fdt_new, wa_config = config\<rparr>"

text \<open>\<open>lock().unwrap()\<close>, with what is done while the lock is held.\<close>

definition lock :: "(fd_table, wasi_failure, 'a) op \<Rightarrow> 'a wasi_op" where
  "lock m = (\<lambda>(w, d).
     case wa_fd_table w of
       None \<Rightarrow> (Inl Panic, w, d)
     | Some t \<Rightarrow>
         (case m t of
            (Inl Panic, t') \<Rightarrow> (Inl Panic, w\<lparr>wa_fd_table := None\<rparr>, d)
          | (r, t') \<Rightarrow> (r, w\<lparr>wa_fd_table := Some t'\<rparr>, d)))"

definition on_fs :: "(fs_error \<Rightarrow> wasi_error) \<Rightarrow> (file_system \<Rightarrow> 'a fs_op) \<Rightarrow> 'a wasi_op" where
  "on_fs g m = (\<lambda>(w, d).
     case m (wa_fs w) d of
       (Inl e, d') \<Rightarrow> (Inl (Fails (g e)), w, d')
     | (Inr a, d') \<Rightarrow> (Inr a, w, d'))"

definition wasi_fd_open :: "bool \<Rightarrow> str \<Rightarrow> open_flags \<Rightarrow> 32 word wasi_op" where
  "wasi_fd_open checks path flags =
     bindE (on_fs wasi_of_fs_error (\<lambda>fs. fs_stat fs path)) (\<lambda>stat.
       lock (fdt_allocate checks (descriptor_new (ino_id stat) path flags (ino_type stat = Dir))))"

text \<open>The part of \<open>fd_read\<close> and \<open>fd_write\<close> under the first lock, and \<open>position += n\<close> under the second.\<close>

definition usable :: "(file_descriptor \<Rightarrow> bool) \<Rightarrow> 32 word \<Rightarrow> (fd_table, wasi_failure, str \<times> 64 word) op" where
  "usable permitted fd =
     bindE (fdt_get fd) (\<lambda>descriptor.
       if \<not> permitted descriptor then raise (Fails PermissionDenied)
       else if fd_is_directory descriptor then raise (Fails IsADirectory)
       else ret (fd_path descriptor, fd_position descriptor))"

definition advance :: "bool \<Rightarrow> nat \<Rightarrow> (file_descriptor, wasi_failure, unit) op" where
  "advance checks n =
     bindE (gets fd_position) (\<lambda>position.
     bindE (or_panic (add_checked checks position (word_of_nat n))) (\<lambda>sum.
       modify (\<lambda>f. f\<lparr>fd_position := sum\<rparr>)))"

text \<open>The buffer is an argument and, as filled, a result.  A slice whose end is before its start panics.\<close>

definition wasi_fd_read :: "bool \<Rightarrow> ext \<Rightarrow> 32 word \<Rightarrow> bytes \<Rightarrow> (nat \<times> bytes) wasi_op" where
  "wasi_fd_read checks x fd buf =
     bindE (lock (usable can_read fd)) (\<lambda>(path, position).
     bindE (on_fs (\<lambda>e. IoError (''Failed to read file: '' @ show_fs_error x e)) (\<lambda>fs. fs_read_file fs path)) (\<lambda>data.
     bindE (or_panic (add_checked checks position (word_of_nat (length buf)))) (\<lambda>sum.
       let start = unat position; finish = min (unat sum) (length data) in
       if length data \<le> start then ret (0, buf)
       else if finish < start \<or> length buf < finish - start then raise Panic
       else
         (let to_read = finish - start in
          bindE (lock (fdt_get_mut fd (advance checks to_read))) (\<lambda>_.
            ret (to_read, take to_read (drop start data) @ drop to_read buf))))))"

definition wasi_fd_write :: "bool \<Rightarrow> ext \<Rightarrow> 32 word \<Rightarrow> bytes \<Rightarrow> nat wasi_op" where
  "wasi_fd_write checks x fd data =
     bindE (lock (usable can_write fd)) (\<lambda>(path, position).
     bindE (on_fs (\<lambda>e. IoError (''Failed to write file: '' @ show_fs_error x e)) (\<lambda>fs. fs_write_file x fs path data)) (\<lambda>_.
       let written = length data in
       bindE (lock (fdt_get_mut fd (advance checks written))) (\<lambda>_.
         ret written)))"

definition wasi_fd_seek :: "bool \<Rightarrow> 32 word \<Rightarrow> 64 word \<Rightarrow> 8 word \<Rightarrow> 64 word wasi_op" where
  "wasi_fd_seek checks fd offset whence = lock (fdt_get_mut fd (descriptor_seek checks offset whence))"

definition wasi_fd_close :: "32 word \<Rightarrow> unit wasi_op" where
  "wasi_fd_close fd = lock (fdt_close fd)"

record file_stat =
  st_inode_id :: "64 word"
  st_size :: "64 word"
  st_is_directory :: bool
  st_is_symlink :: bool

definition wasi_path_stat :: "str \<Rightarrow> file_stat wasi_op" where
  "wasi_path_stat path =
     bindE (on_fs wasi_of_fs_error (\<lambda>fs. fs_stat fs path)) (\<lambda>stat.
       ret \<lparr>st_inode_id = word_of_int (ino_id stat), st_size = word_of_int (ino_size stat),
            st_is_directory = (ino_type stat = Dir), st_is_symlink = (ino_type stat = Symlink)\<rparr>)"

definition wasi_path_create_directory :: "str \<Rightarrow> unit wasi_op" where
  "wasi_path_create_directory path =
     bindE (on_fs wasi_of_fs_error (\<lambda>fs. fs_create_directory fs path)) (\<lambda>_. ret ())"

definition wasi_path_remove_directory :: "ext \<Rightarrow> str \<Rightarrow> unit wasi_op" where
  "wasi_path_remove_directory x path =
     bindE (on_fs wasi_of_fs_error (\<lambda>fs. fs_remove_directory x fs path)) (\<lambda>_. ret ())"

definition wasi_path_unlink_file :: "str \<Rightarrow> unit wasi_op" where
  "wasi_path_unlink_file path =
     bindE (on_fs wasi_of_fs_error (\<lambda>fs. fs_delete_file fs path)) (\<lambda>_. ret ())"

record dir_entry =
  de_name :: str
  de_is_directory :: bool

definition wasi_fd_readdir :: "ext \<Rightarrow> 32 word \<Rightarrow> dir_entry list wasi_op" where
  "wasi_fd_readdir x fd =
     bindE (lock (bindE (fdt_get fd) (\<lambda>descriptor.
       if \<not> fd_is_directory descriptor then raise (Fails NotADirectory)
       else ret (fd_path descriptor)))) (\<lambda>path.
     bindE (on_fs wasi_of_fs_error (\<lambda>fs. fs_list_directory x fs path)) (\<lambda>entries.
       ret (map (\<lambda>e. \<lparr>de_name = ino_name e, de_is_directory = (ino_type e = Dir)\<rparr>) entries)))"

definition wasi_fd_count :: "nat wasi_op" where
  "wasi_fd_count = lock (gets fdt_len)"

definition wasi_close_all :: "unit wasi_op" where
  "wasi_close_all = lock fdt_close_all"

section \<open>Lemmas\<close>

lemma lock_apply [op_simps]:
  "wa_fd_table w = Some t \<Longrightarrow> m t = (Inr a, t') \<Longrightarrow> lock m (w, d) = (Inr a, w\<lparr>wa_fd_table := Some t'\<rparr>, d)"
  "wa_fd_table w = Some t \<Longrightarrow> m t = (Inl (Fails e), t') \<Longrightarrow>
     lock m (w, d) = (Inl (Fails e), w\<lparr>wa_fd_table := Some t'\<rparr>, d)"
  "wa_fd_table w = Some t \<Longrightarrow> m t = (Inl Panic, t') \<Longrightarrow> lock m (w, d) = (Inl Panic, w\<lparr>wa_fd_table := None\<rparr>, d)"
  "wa_fd_table w = None \<Longrightarrow> lock m (w, d) = (Inl Panic, w, d)"
  by (simp_all add: lock_def)

lemma on_fs_apply [op_simps]:
  "m (wa_fs w) d = (Inr a, d') \<Longrightarrow> on_fs g m (w, d) = (Inr a, w, d')"
  "m (wa_fs w) d = (Inl e, d') \<Longrightarrow> on_fs g m (w, d) = (Inl (Fails (g e)), w, d')"
  by (simp_all add: on_fs_def)

lemma usable_eq:
  "usable permitted fd t =
     (case fds t fd of
        None \<Rightarrow> Inl (Fails BadFd)
      | Some f \<Rightarrow> if \<not> permitted f then Inl (Fails PermissionDenied)
          else if fd_is_directory f then Inl (Fails IsADirectory)
          else Inr (fd_path f, fd_position f), t)"
  by (simp add: usable_def bindE_def fdt.get_law split: option.split)

lemma advance_eq:
  assumes "unat (fd_position f) + n < 2 ^ 64"
  shows "advance checks n f = (Inr (), f\<lparr>fd_position := fd_position f + word_of_nat n\<rparr>)"
  using add_checked_small [OF assms] by (simp add: advance_def or_panic_def)

lemma get_mut_eq:
  assumes "fds t fd = Some f" and "m f = (r, f')"
  shows "fdt_get_mut fd m t = (r, t\<lparr>ft_fds := AList.update fd f' (ft_fds t)\<rparr>)"
  using assms by (simp add: fdt_get_mut_def bindE_def fdt.get_law)

lemma fds_update: "fds (t\<lparr>ft_fds := AList.update fd f (ft_fds t)\<rparr>) = (fds t)(fd \<mapsto> f)"
  by (simp add: fds_def update_conv')

section \<open>Reading\<close>

definition moved :: "file_descriptor \<Rightarrow> nat \<Rightarrow> file_descriptor" where
  "moved f n = f\<lparr>fd_position := word_of_nat n\<rparr>"

lemma moved_simps [simp]:
  "fd_path (moved f n) = fd_path f" "can_read (moved f n) = can_read f"
  "fd_is_directory (moved f n) = fd_is_directory f" "moved (moved f m) n = moved f n"
  "n < 2 ^ 64 \<Longrightarrow> unat (fd_position (moved f n)) = n"
  by (simp_all add: moved_def can_read_def unat_of_nat)

text \<open>One read of a file from a position inside it.\<close>

lemma fd_read_step:
  assumes "wa_fd_table w = Some t" "fds t fd = Some f" "can_read f" "\<not> fd_is_directory f"
    and "fs_read_file (wa_fs w) (fd_path f) d = (Inr data, d)"
    and "unat (fd_position f) = p" "p \<le> length data" "length data < 2 ^ 63" "length buf < 2 ^ 63"
    and "k = min (length buf) (length data - p)"
  shows "\<exists>t'. wasi_fd_read checks x fd buf (w, d) =
      (Inr (k, take k (drop p data) @ drop k buf), w\<lparr>wa_fd_table := Some t'\<rparr>, d) \<and>
    fds t' = (fds t)(fd \<mapsto> moved f (p + k)) \<and> ft_next_fd t' = ft_next_fd t"
proof -
  have pos: "fd_position f = word_of_nat p" using assms(6) by (simp flip: assms(6))
  have lim: "unat (fd_position f) + length buf < 2 ^ 64" using assms(6-9) by simp
  note sum = add_checked_small(1) [OF lim, of checks] add_checked_small(2) [OF lim]
  have w: "w\<lparr>wa_fd_table := Some t\<rparr> = w" using assms(1) by (cases w) simp
  have use: "lock (usable can_read fd) (w, d) = (Inr (fd_path f, fd_position f), w, d)"
    using assms(1-4) by (simp add: lock_def usable_eq w)
  show ?thesis
  proof (cases "p = length data")
    case True
    then have "wasi_fd_read checks x fd buf (w, d) = (Inr (k, take k (drop p data) @ drop k buf), w, d)"
      using assms(5,6,10) sum
      by (simp add: wasi_fd_read_def bindE_def use on_fs_apply or_panic_def Let_def)
    moreover have "fds t = (fds t)(fd \<mapsto> moved f (p + k))"
      using True assms(2,10) pos by (simp add: moved_def fun_upd_idem)
    ultimately show ?thesis using w by metis
  next
    case False
    with assms(7) have lt: "p < length data" by simp
    have fin: "min (unat (fd_position f + word_of_nat (length buf))) (length data) = p + k"
      using sum assms(6,7,10) by simp
    have kl: "k \<le> length buf" using assms(10) by simp
    have adv: "advance checks k f = (Inr (), moved f (p + k))"
      using assms(6,8,10) lt by (subst advance_eq) (simp_all add: moved_def pos)
    let ?t = "t\<lparr>ft_fds := AList.update fd (moved f (p + k)) (ft_fds t)\<rparr>"
    have upd: "lock (fdt_get_mut fd (advance checks k)) (w, d) = (Inr (), w\<lparr>wa_fd_table := Some ?t\<rparr>, d)"
      using assms(1) get_mut_eq [where m = "advance checks k", OF assms(2) adv] by (simp add: lock_def)
    have "wasi_fd_read checks x fd buf (w, d) =
        (Inr (k, take k (drop p data) @ drop k buf), w\<lparr>wa_fd_table := Some ?t\<rparr>, d)"
      using lt assms(5,6) sum fin kl
      by (simp add: wasi_fd_read_def bindE_def use on_fs_apply or_panic_def Let_def upd)
    then show ?thesis by (intro exI [of _ ?t]) (simp add: fds_update)
  qed
qed

text \<open>A program that reads until it is told that nothing is left, with at most so many calls.\<close>

fun read_to_end :: "bool \<Rightarrow> ext \<Rightarrow> 32 word \<Rightarrow> bytes \<Rightarrow> nat \<Rightarrow> bytes option wasi_op" where
  "read_to_end checks x fd buf 0 = ret None"
| "read_to_end checks x fd buf (Suc n) =
     bindE (wasi_fd_read checks x fd buf) (\<lambda>(k, filled).
       if k = 0 then ret (Some [])
       else bindE (read_to_end checks x fd buf n) (\<lambda>rest.
         ret (map_option (\<lambda>r. take k filled @ r) rest)))"

lemma read_to_end_rest:
  assumes "wa_fd_table w = Some t" "fds t fd = Some f" "can_read f" "\<not> fd_is_directory f"
    and "fs_read_file (wa_fs w) (fd_path f) d = (Inr data, d)"
    and "unat (fd_position f) = p" "p \<le> length data" "length data < 2 ^ 63" "length buf < 2 ^ 63" "buf \<noteq> []"
    and "length data - p < n"
  shows "\<exists>t'. read_to_end checks x fd buf n (w, d) = (Inr (Some (drop p data)), w\<lparr>wa_fd_table := Some t'\<rparr>, d) \<and>
    fds t' = (fds t)(fd \<mapsto> moved f (length data)) \<and> ft_next_fd t' = ft_next_fd t"
  using assms
proof (induction n arbitrary: w t f p)
  case (Suc n)
  define k where "k = min (length buf) (length data - p)"
  from fd_read_step [OF Suc.prems(1-9) k_def, of checks x] obtain t' where
    r: "wasi_fd_read checks x fd buf (w, d) = (Inr (k, take k (drop p data) @ drop k buf), w\<lparr>wa_fd_table := Some t'\<rparr>, d)"
      "fds t' = (fds t)(fd \<mapsto> moved f (p + k))" "ft_next_fd t' = ft_next_fd t" by blast
  show ?case
  proof (cases "k = 0")
    case True
    with Suc.prems(7,10) have "p = length data" by (cases buf) (simp_all add: k_def min_def split: if_splits)
    with r True show ?thesis by (intro exI [of _ t']) (simp add: bindE_def)
  next
    case False
    have "p + k \<le> length data" using Suc.prems(7) by (simp add: k_def)
    then have m: "unat (fd_position (moved f (p + k))) = p + k" "length data - (p + k) < n"
      using Suc.prems(8,11) False by simp_all
    have "fs_read_file (wa_fs (w\<lparr>wa_fd_table := Some t'\<rparr>)) (fd_path (moved f (p + k))) d = (Inr data, d)"
      "wa_fd_table (w\<lparr>wa_fd_table := Some t'\<rparr>) = Some t'" "fds t' fd = Some (moved f (p + k))"
      using Suc.prems(5) r(2) by simp_all
    note h = this
    have "can_read (moved f (p + k))" "\<not> fd_is_directory (moved f (p + k))" using Suc.prems(3,4) by simp_all
    from Suc.IH [OF h(2,3) this h(1) m(1) \<open>p + k \<le> length data\<close> Suc.prems(8-10) m(2)]
    obtain t'' where "read_to_end checks x fd buf n (w\<lparr>wa_fd_table := Some t'\<rparr>, d) =
        (Inr (Some (drop (p + k) data)), w\<lparr>wa_fd_table := Some t', wa_fd_table := Some t''\<rparr>, d)"
      "fds t'' = (fds t')(fd \<mapsto> moved (moved f (p + k)) (length data))" "ft_next_fd t'' = ft_next_fd t'" by blast
    then have "fds t'' = (fds t)(fd \<mapsto> moved f (length data))" using r(2) by simp
    moreover note \<open>read_to_end checks x fd buf n _ = _\<close> \<open>ft_next_fd t'' = _\<close>
    moreover have "take k (drop p data) @ drop (p + k) data = drop p data"
      by (metis add.commute append_take_drop_id drop_drop)
    ultimately show ?thesis using r False
      by (intro exI [of _ t'']) (simp add: bindE_def k_def)
  qed
qed simp

lemma fs_read_file_InrD:
  assumes "fs_read_file fs path d = (Inr data, d')"
  shows "\<exists>r. fs_stat fs path d = (Inr r, d) \<and> ino_type r = File"
proof -
  obtain r d1 where "fs_resolve_path fs path d = (Inr r, d1)" "ino_type r = File"
    using assms by (auto simp: fs_read_file_def bindE_eq_Inr split: if_splits)
  with readsD [OF reads_resolve this(1)] show ?thesis by (simp add: fs_stat_def)
qed

text \<open>Opening gives a descriptor that was not in use, at position 0.\<close>

lemma fd_open_eq:
  assumes "wa_fd_table w = Some t" "fdt_ok t" "uint (ft_next_fd t) < 2 ^ 32 - 1"
    and "fs_stat (wa_fs w) path d = (Inr r, d)"
  shows "\<exists>t'. wasi_fd_open checks path flags (w, d) = (Inr (ft_next_fd t), w\<lparr>wa_fd_table := Some t'\<rparr>, d) \<and>
    fdt_ok t' \<and> fds t (ft_next_fd t) = None \<and>
    fds t' = (fds t)(ft_next_fd t \<mapsto> descriptor_new (ino_id r) path flags (ino_type r = Dir))"
proof -
  let ?f = "descriptor_new (ino_id r) path flags (ino_type r = Dir)"
  note ok = fdt_ok_allocate(1,3) [OF assms(2,3), where f = ?f and checks = checks] fdt_ok_allocate(2) [OF assms(2,3)]
  obtain t' where t': "fdt_allocate checks ?f t = (Inr (ft_next_fd t), t')"
    by (simp add: fdt_allocate_eq [OF assms(3)])
  then have "wasi_fd_open checks path flags (w, d) = (Inr (ft_next_fd t), w\<lparr>wa_fd_table := Some t'\<rparr>, d)"
    using assms(1,4) by (simp add: wasi_fd_open_def bindE_def on_fs_apply lock_apply)
  with ok t' show ?thesis by (intro exI [of _ t']) simp
qed

lemma fd_write_eq:
  assumes "wa_fd_table w = Some t" "fds t fd = Some f" "can_write f" "\<not> fd_is_directory f"
    and "unat (fd_position f) + length data < 2 ^ 64"
    and "fs_write_file x (wa_fs w) (fd_path f) data d = (Inr (), d')"
  shows "wasi_fd_write checks x fd data (w, d) =
    (Inr (length data), w\<lparr>wa_fd_table := Some (t\<lparr>ft_fds :=
       AList.update fd (moved f (unat (fd_position f) + length data)) (ft_fds t)\<rparr>)\<rparr>, d')"
proof -
  have w: "w\<lparr>wa_fd_table := Some t\<rparr> = w" using assms(1) by (cases w) simp
  have use: "lock (usable can_write fd) (w, d) = (Inr (fd_path f, fd_position f), w, d)"
    using assms(1-4) by (simp add: lock_def usable_eq w)
  have adv: "advance checks (length data) f = (Inr (), moved f (unat (fd_position f) + length data))"
    using advance_eq [OF assms(5)] by (simp add: moved_def)
  have upd: "lock (fdt_get_mut fd (advance checks (length data))) (w, d') =
      (Inr (), w\<lparr>wa_fd_table := Some (t\<lparr>ft_fds :=
         AList.update fd (moved f (unat (fd_position f) + length data)) (ft_fds t)\<rparr>)\<rparr>, d')"
    using assms(1) get_mut_eq [where m = "advance checks (length data)", OF assms(2) adv] by (simp add: lock_def)
  show ?thesis using assms(6)
    by (simp add: wasi_fd_write_def bindE_def use on_fs_apply Let_def upd)
qed

text \<open>
  C31.  What a program writes through one descriptor, a program reads through another: after a
  write, whose whole effect on the content is that of \<open>write_file\<close> on the path of the
  descriptor, whatever its position and its append flag, a descriptor opened for reading, with any
  buffer that is not empty, delivers in finitely many reads exactly what \<open>read_file\<close> yields, and
  then says that nothing is left.  It got a number that was not in use, and no other descriptor has
  moved except the one written through, by the length of the data.
\<close>

theorem written_then_read_through_descriptors:
  assumes "wa_fd_table w = Some t" "fdt_ok t" "uint (ft_next_fd t) < 2 ^ 32 - 1"
    and "fds t fd = Some f" "can_write f" "\<not> fd_is_directory f" "unat (fd_position f) + length data < 2 ^ 64"
    and "fs_write_file x (wa_fs w) (fd_path f) data d = (Inr (), d')"
    and "fs_read_file (wa_fs w) (fd_path f) d' = (Inr content, d')"
    and "of_read flags" "buf \<noteq> []" "length buf < 2 ^ 63" "length content < 2 ^ 63" "length content < n"
  shows "\<exists>w1 w2 w3 fd' t'.
    wasi_fd_write checks x fd data (w, d) = (Inr (length data), w1, d') \<and>
    wasi_fd_open checks (fd_path f) flags (w1, d') = (Inr fd', w2, d') \<and>
    read_to_end checks x fd' buf n (w2, d') = (Inr (Some content), w3, d') \<and>
    fds t fd' = None \<and> wa_fd_table w3 = Some t' \<and>
    (\<forall>j. j \<noteq> fd' \<longrightarrow> fds t' j = (if j = fd then Some (moved f (unat (fd_position f) + length data)) else fds t j))"
proof -
  let ?f = "moved f (unat (fd_position f) + length data)"
  define t1 where "t1 = t\<lparr>ft_fds := AList.update fd ?f (ft_fds t)\<rparr>"
  define w1 where "w1 = w\<lparr>wa_fd_table := Some t1\<rparr>"
  have "snd (fdt_get_mut fd (advance checks (length data)) t) = t1"
    unfolding t1_def using advance_eq [OF assms(7)]
    by (subst get_mut_eq [OF assms(4)]) (simp_all add: moved_def)
  then have ok: "fdt_ok t1" using fdt_ok_get_mut [OF assms(2)] by metis
  have f1: "fds t1 = (fds t)(fd \<mapsto> ?f)" and n1: "ft_next_fd t1 = ft_next_fd t"
    unfolding t1_def by (rule fds_update) simp
  have wr: "wasi_fd_write checks x fd data (w, d) = (Inr (length data), w1, d')"
    unfolding w1_def t1_def by (rule fd_write_eq [OF assms(1,4-8)])
  have fs: "wa_fs w1 = wa_fs w" and tab: "wa_fd_table w1 = Some t1" by (simp_all add: w1_def)
  obtain r where r: "fs_stat (wa_fs w1) (fd_path f) d' = (Inr r, d')" "ino_type r = File"
    using fs_read_file_InrD [OF assms(9)] fs by auto
  let ?g = "descriptor_new (ino_id r) (fd_path f) flags False"
  let ?n = "ft_next_fd t1"
  obtain t2 where op: "wasi_fd_open checks (fd_path f) flags (w1, d') = (Inr ?n, w1\<lparr>wa_fd_table := Some t2\<rparr>, d')"
    and free: "fds t1 ?n = None" and f2: "fds t2 = (fds t1)(?n \<mapsto> ?g)"
    using fd_open_eq [OF tab ok _ r(1), of checks flags] assms(3) r(2) n1 by auto
  have g: "can_read ?g" "\<not> fd_is_directory ?g" "fd_path ?g = fd_path f" "unat (fd_position ?g) = 0"
    using assms(10) by (simp_all add: descriptor_new_def can_read_def)
  have "\<exists>t3. read_to_end checks x ?n buf n (w1\<lparr>wa_fd_table := Some t2\<rparr>, d') =
      (Inr (Some (drop 0 content)), w1\<lparr>wa_fd_table := Some t2, wa_fd_table := Some t3\<rparr>, d') \<and>
      fds t3 = (fds t2)(?n \<mapsto> moved ?g (length content)) \<and> ft_next_fd t3 = ft_next_fd t2"
    using assms(9,11-14) fs g f2 by (intro read_to_end_rest [where f = ?g]) simp_all
  then obtain t3 where "read_to_end checks x ?n buf n (w1\<lparr>wa_fd_table := Some t2\<rparr>, d') =
      (Inr (Some content), w1\<lparr>wa_fd_table := Some t3\<rparr>, d')" "fds t3 = (fds t2)(?n \<mapsto> moved ?g (length content))" by auto
  moreover have "fds t ?n = None" using free f1 by (auto split: if_splits)
  moreover have "\<forall>j. j \<noteq> ?n \<longrightarrow> fds t3 j = (if j = fd then Some ?f else fds t j)"
    using f1 f2 calculation(2) by simp
  ultimately show ?thesis using wr op
    by (intro exI [of _ w1] exI [of _ "w1\<lparr>wa_fd_table := Some t2\<rparr>"] exI [of _ "w1\<lparr>wa_fd_table := Some t3\<rparr>"]
        exI [of _ ?n] exI [of _ t3]) simp
qed

definition example_flags :: open_flags where
  "example_flags = flags_read_write"

definition example_wasi :: wasi_adapter where
  "example_wasi = (wasi_new example_fs 0 (config_http ''url'' None))\<lparr>wa_fd_table :=
     Some (snd (fdt_allocate True (descriptor_new 2 ''/f'' example_flags False) fdt_new))\<rparr>"

lemma example_write: "\<exists>d'. fs_write_file example_ext example_fs ''/f'' [CHR 0x00] example_file_db = (Inr (), d') \<and>
    fs_read_file example_fs ''/f'' d' = (Inr [CHR 0x00], d')"
proof -
  have "text_content 0 2 1 example_file_db = None"
    by (simp add: text_content_def example_file_no_text)
  then show ?thesis
    using write_binary_core [OF example_file_ok example_file_drawn example_file_writable example_paths(4), unfolded
      example_paths(5), OF example_file, of "[CHR 0x00]" example_ext]
    by (simp add: detect_nul example_fs_def) blast
qed

theorem written_then_read_through_descriptors_witness:
  "\<exists>w1 w2 w3 d' fd'. wasi_fd_write True example_ext 3 [CHR 0x00] (example_wasi, example_file_db) = (Inr 1, w1, d') \<and>
     wasi_fd_open True ''/f'' flags_read_only (w1, d') = (Inr fd', w2, d') \<and>
     read_to_end True example_ext fd' ''ab'' 2 (w2, d') = (Inr (Some [CHR 0x00]), w3, d')"
proof -
  let ?f = "descriptor_new 2 ''/f'' example_flags False"
  let ?t = "snd (fdt_allocate True ?f fdt_new)"
  have lim: "uint (ft_next_fd fdt_new) < 2 ^ 32 - 1" by (simp add: fdt_new_def)
  note ok = fdt_ok_allocate [OF fdt_ok_new lim]
  have n3: "ft_next_fd fdt_new = 3" by (simp add: fdt_new_def)
  have tab: "ft_next_fd ?t = 4" "fds ?t 3 = Some ?f"
    using ok(3) [of True ?f] by (simp_all add: fdt_allocate_eq [OF lim] n3)
  have w: "wa_fd_table example_wasi = Some ?t" "wa_fs example_wasi = example_fs"
    by (simp_all add: example_wasi_def wasi_new_def)
  obtain d' where d': "fs_write_file example_ext example_fs ''/f'' [CHR 0x00] example_file_db = (Inr (), d')"
    "fs_read_file example_fs ''/f'' d' = (Inr [CHR 0x00], d')"
    using example_write by blast
  have f: "fd_path ?f = ''/f''" "can_write ?f" "\<not> fd_is_directory ?f" "fd_position ?f = 0"
    by (simp_all add: descriptor_new_def can_write_def example_flags_def flags_read_write_def)
  have flags: "of_read flags_read_only" by (simp add: flags_read_only_def)
  from written_then_read_through_descriptors [where x = example_ext and data = "[CHR 0x00]" and buf = "''ab''" and
      n = 2 and checks = True and content = "[CHR 0x00]", OF w(1) ok(1) _ tab(2) f(2,3) _ _ _ flags, unfolded w(2) f(1), OF _ _ d'] tab(1) f(4)
  show ?thesis by simp blast
qed

end
