(* ===== verification/Backend.thy ===== *)
theory Backend
  imports Hooks WasiAdapter
begin

unbundle bit_operations_syntax

text \<open>
  The backend of the FUSE file system: the interface \<open>src/src/fuse/interface.rs\<close> and its
  implementation \<open>src/src/fuse/backend.rs\<close>.  Each call opens the file system of the tenant (which
  initialises its base layer when there is none) and runs one operation of it, or hands a path
  under \<open>/.tarbox\<close> to the hooks.
\<close>

section \<open>The interface\<close>

datatype fuse_error =
    FsePathNotFound str
  | FseAlreadyExists str
  | FseNotDirectory str
  | FseIsDirectory str
  | FseDirectoryNotEmpty str
  | FseInvalidPath str
  | FsePermissionDenied str
  | FseNotSupported str
  | FseIoError str

text \<open>The error numbers of the C library, by their names.\<close>

datatype errno = ENOENT | EEXIST | ENOTDIR | EISDIR | ENOTEMPTY | EINVAL | EACCES | ENOSYS | EIO

fun to_errno :: "fuse_error \<Rightarrow> errno" where
  "to_errno (FsePathNotFound p) = ENOENT"
| "to_errno (FseAlreadyExists p) = EEXIST"
| "to_errno (FseNotDirectory p) = ENOTDIR"
| "to_errno (FseIsDirectory p) = EISDIR"
| "to_errno (FseDirectoryNotEmpty p) = ENOTEMPTY"
| "to_errno (FseInvalidPath p) = EINVAL"
| "to_errno (FsePermissionDenied p) = EACCES"
| "to_errno (FseNotSupported p) = ENOSYS"
| "to_errno (FseIoError p) = EIO"

datatype file_type = RegularFile | Directory | SymbolicLink

record file_attr =
  fa_inode :: "64 word"
  fa_kind :: file_type
  fa_size :: "64 word"
  fa_atime :: timestamp
  fa_mtime :: timestamp
  fa_ctime :: timestamp
  fa_mode :: "32 word"
  fa_uid :: "32 word"
  fa_gid :: "32 word"
  fa_nlinks :: "32 word"

record fuse_dir_entry =
  fe_inode :: "64 word"
  fe_name :: str
  fe_kind :: file_type

record set_attr =
  sa_size :: "64 word option"
  sa_atime :: "timestamp option"
  sa_mtime :: "timestamp option"
  sa_mode :: "32 word option"
  sa_uid :: "32 word option"
  sa_gid :: "32 word option"

record stat_fs =
  sf_blocks :: nat
  sf_bfree :: nat
  sf_bavail :: nat
  sf_files :: nat
  sf_ffree :: nat
  sf_bsize :: nat
  sf_namelen :: nat

text \<open>What the interface answers for operations that the backend does not implement.\<close>

definition create_symlink :: "str \<Rightarrow> str \<Rightarrow> fuse_error" where
  "create_symlink target link_path = FseNotSupported (''Symlink not supported: '' @ target @ '' -> '' @ link_path)"

definition read_symlink :: "str \<Rightarrow> fuse_error" where
  "read_symlink path = FseNotSupported (''Read symlink not supported: '' @ path)"

definition xattr_named :: "str \<Rightarrow> str \<Rightarrow> fuse_error" where
  "xattr_named path name = FseNotSupported (''Extended attributes not supported: '' @ path @ '':'' @ name)"

definition xattr_list :: "str \<Rightarrow> fuse_error" where
  "xattr_list path = FseNotSupported (''Extended attributes not supported: '' @ path)"

section \<open>The backend\<close>

fun map_fs_error :: "ext \<Rightarrow> fs_error \<Rightarrow> fuse_error" where
  "map_fs_error x (PathNotFound p) = FsePathNotFound p"
| "map_fs_error x (AlreadyExists p) = FseAlreadyExists p"
| "map_fs_error x (NotDirectory p) = FseNotDirectory p"
| "map_fs_error x (IsDirectory p) = FseIsDirectory p"
| "map_fs_error x (DirectoryNotEmpty p) = FseDirectoryNotEmpty p"
| "map_fs_error x (InvalidPath p) = FseInvalidPath p"
| "map_fs_error x (PathTooLong n) = FseInvalidPath (''path too long: '' @ decimal n @ '' bytes'')"
| "map_fs_error x (FilenameTooLong n) = FseInvalidPath (''filename too long: '' @ decimal n @ '' bytes'')"
| "map_fs_error x (Storage e) = FseIoError (show_storage_error x e)"

record backend =
  be_tenant_id :: uuid
  be_root_inode_id :: int

type_synonym 'a backend_op = "(db, fuse_error failure, 'a) op"

definition backend_new :: "ext \<Rightarrow> uuid \<Rightarrow> backend backend_op" where
  "backend_new x t =
     bindE (map_err (\<lambda>e. Fails (FseIoError (db_error_text x e))) (tenant_get_by_id t)) (\<lambda>found.
     bindE (ok_or (Fails (FsePathNotFound ''tenant not found'')) found) (\<lambda>tenant.
       ret \<lparr>be_tenant_id = t, be_root_inode_id = tn_root_inode_id tenant\<rparr>))"

definition core :: "ext \<Rightarrow> 'a fs_op \<Rightarrow> 'a backend_op" where
  "core x m = map_err (\<lambda>e. Fails (map_fs_error x e)) m"

definition backend_fs :: "ext \<Rightarrow> backend \<Rightarrow> file_system backend_op" where
  "backend_fs x b = core x (fs_new (be_tenant_id b))"

text \<open>\<open>self.fs().await?.op(...).await.map_err(map_fs_error)\<close>.\<close>

definition with_fs :: "ext \<Rightarrow> backend \<Rightarrow> (file_system \<Rightarrow> 'a fs_op) \<Rightarrow> 'a backend_op" where
  "with_fs x b m = bindE (backend_fs x b) (\<lambda>fs. core x (m fs))"

fun inode_type_to_file_type :: "inode_type \<Rightarrow> file_type" where
  "inode_type_to_file_type File = RegularFile"
| "inode_type_to_file_type Dir = Directory"
| "inode_type_to_file_type Symlink = SymbolicLink"

definition inode_to_attr :: "inode \<Rightarrow> file_attr" where
  "inode_to_attr inode =
     \<lparr>fa_inode = word_of_int (ino_id inode), fa_kind = inode_type_to_file_type (ino_type inode),
      fa_size = word_of_int (ino_size inode), fa_atime = ino_atime inode, fa_mtime = ino_mtime inode,
      fa_ctime = ino_ctime inode, fa_mode = word_of_int (ino_mode inode), fa_uid = word_of_int (ino_uid inode),
      fa_gid = word_of_int (ino_gid inode), fa_nlinks = 1\<rparr>"

text \<open>The number of a hook path: its hash with the highest bit set.\<close>

definition hook_inode :: "ext \<Rightarrow> str \<Rightarrow> 64 word" where
  "hook_inode x path =
     0x8000000000000000 OR (word_of_nat (default_hasher x path) AND 0x7FFFFFFFFFFFFFFF)"

definition hook_attr_to_file_attr :: "ext \<Rightarrow> str \<Rightarrow> hook_file_attr \<Rightarrow> timestamp \<Rightarrow> file_attr" where
  "hook_attr_to_file_attr x path hook_attr time =
     \<lparr>fa_inode = hook_inode x path, fa_kind = (if ha_is_dir hook_attr then Directory else RegularFile),
      fa_size = ha_size hook_attr, fa_atime = time, fa_mtime = time, fa_ctime = time,
      fa_mode = ha_mode hook_attr, fa_uid = 0, fa_gid = 0, fa_nlinks = 1\<rparr>"

fun hook_error_to_fs_error :: "ext \<Rightarrow> hook_error \<Rightarrow> fuse_error" where
  "hook_error_to_fs_error x (HookInvalidPath p) = FsePathNotFound p"
| "hook_error_to_fs_error x (HookPermissionDenied p) = FsePermissionDenied p"
| "hook_error_to_fs_error x (HookInvalidInput msg) = FseInvalidPath msg"
| "hook_error_to_fs_error x (HookLayerError e) = FseIoError (show_manager_error x e)"
| "hook_error_to_fs_error x (HookInternal msg) = FseIoError msg"

text \<open>\<open>data[start..end]\<close> with \<open>end\<close> the smaller of \<open>start + count\<close> and the length.\<close>

definition window :: "bool \<Rightarrow> bytes \<Rightarrow> 64 word \<Rightarrow> 32 word \<Rightarrow> bytes backend_op" where
  "window checks data offset count =
     bindE (or_panic (add_checked checks offset (word_of_nat (unat count)))) (\<lambda>sum.
       let start = unat offset; finish = min (unat sum) (length data) in
       if length data \<le> start then ret []
       else if finish < start then raise Panic
       else ret (take (finish - start) (drop start data)))"

definition backend_read_file :: "bool \<Rightarrow> ext \<Rightarrow> backend \<Rightarrow> str \<Rightarrow> 64 word \<Rightarrow> 32 word \<Rightarrow> bytes backend_op" where
  "backend_read_file checks x b path offset count =
     (if is_hook_path path then
        bindE (handle_read checks x (be_tenant_id b) path) (\<lambda>result.
          case result of
            Content s \<Rightarrow> window checks s offset count
          | WriteSuccess message \<Rightarrow> window checks message offset count
          | HookFailed e \<Rightarrow> raise (Fails (hook_error_to_fs_error x e))
          | NotAHook \<Rightarrow> window checks [] offset count)
      else
        bindE (with_fs x b (\<lambda>fs. fs_read_file fs path)) (\<lambda>data. window checks data offset count))"

definition backend_write_file :: "ext \<Rightarrow> backend \<Rightarrow> str \<Rightarrow> 64 word \<Rightarrow> bytes \<Rightarrow> 32 word backend_op" where
  "backend_write_file x b path offset data =
     (if is_hook_path path then
        if offset \<noteq> 0 then raise (Fails (FseNotSupported ''Offset writes not supported for hook paths''))
        else
          bindE (handle_write x (be_tenant_id b) path data) (\<lambda>result.
            case result of
              HookFailed e \<Rightarrow> raise (Fails (hook_error_to_fs_error x e))
            | _ \<Rightarrow> ret (word_of_nat (length data)))
      else if offset \<noteq> 0 then raise (Fails (FseNotSupported ''Offset writes not supported yet''))
      else
        bindE (with_fs x b (\<lambda>fs. fs_write_file x fs path data)) (\<lambda>_.
          ret (word_of_nat (length data))))"

text \<open>The refusal of an operation on a hook path.\<close>

definition unless_hook :: "str \<Rightarrow> str \<Rightarrow> 'a backend_op \<Rightarrow> 'a backend_op" where
  "unless_hook path what m = (if is_hook_path path then raise (Fails (FsePermissionDenied what)) else m)"

definition backend_create_file :: "ext \<Rightarrow> backend \<Rightarrow> str \<Rightarrow> 32 word \<Rightarrow> file_attr backend_op" where
  "backend_create_file x b path mode =
     unless_hook path ''Cannot create files in /.tarbox/''
       (bindE (with_fs x b (\<lambda>fs. fs_create_file fs path)) (\<lambda>inode. ret (inode_to_attr inode)))"

definition backend_delete_file :: "ext \<Rightarrow> backend \<Rightarrow> str \<Rightarrow> unit backend_op" where
  "backend_delete_file x b path =
     unless_hook path ''Cannot delete files in /.tarbox/'' (with_fs x b (\<lambda>fs. fs_delete_file fs path))"

definition backend_truncate :: "ext \<Rightarrow> backend \<Rightarrow> str \<Rightarrow> 64 word \<Rightarrow> unit backend_op" where
  "backend_truncate x b path count =
     unless_hook path ''Cannot truncate files in /.tarbox/''
       (if count \<noteq> 0 then raise (Fails (FseNotSupported ''Non-zero truncate not supported yet''))
        else with_fs x b (\<lambda>fs. fs_write_file x fs path []))"

definition backend_create_dir :: "ext \<Rightarrow> backend \<Rightarrow> str \<Rightarrow> 32 word \<Rightarrow> file_attr backend_op" where
  "backend_create_dir x b path mode =
     unless_hook path ''Cannot create directories in /.tarbox/''
       (bindE (with_fs x b (\<lambda>fs. fs_create_directory fs path)) (\<lambda>inode. ret (inode_to_attr inode)))"

definition hook_dir_entry :: "ext \<Rightarrow> str \<Rightarrow> str \<Rightarrow> fuse_dir_entry" where
  "hook_dir_entry x path name =
     (let is_dir = name \<in> {''layers'', ''snapshots'', ''stats'', ''current'', ''list'', ''new'', ''switch'', ''drop'',
            ''tree'', ''diff'', ''usage''} \<and>
          (path = TARBOX_HOOK_PATH \<or> path = ''/.tarbox/layers'' \<or> path = ''/.tarbox/stats'')
      in \<lparr>fe_inode = hook_inode x (path @ ''/'' @ name), fe_name = name,
          fe_kind = (if is_dir then Directory else RegularFile)\<rparr>)"

definition backend_read_dir :: "ext \<Rightarrow> backend \<Rightarrow> str \<Rightarrow> fuse_dir_entry list backend_op" where
  "backend_read_dir x b path =
     (if is_hook_path path then
        bindE (hook_read_dir (be_tenant_id b) path) (\<lambda>result.
          case result of
            Content content \<Rightarrow> ret (map (hook_dir_entry x path) (filter (\<lambda>l. l \<noteq> []) (lines content)))
          | HookFailed e \<Rightarrow> raise (Fails (hook_error_to_fs_error x e))
          | _ \<Rightarrow> ret [])
      else
        bindE (with_fs x b (\<lambda>fs. fs_list_directory x fs path)) (\<lambda>entries.
          ret (map (\<lambda>inode. \<lparr>fe_inode = word_of_int (ino_id inode), fe_name = ino_name inode,
                             fe_kind = inode_type_to_file_type (ino_type inode)\<rparr>) entries @
               (if path = ''/'' then [\<lparr>fe_inode = hook_inode x TARBOX_HOOK_PATH, fe_name = ''.tarbox'',
                                       fe_kind = Directory\<rparr>] else []))))"

definition backend_remove_dir :: "ext \<Rightarrow> backend \<Rightarrow> str \<Rightarrow> unit backend_op" where
  "backend_remove_dir x b path =
     unless_hook path ''Cannot remove directories in /.tarbox/'' (with_fs x b (\<lambda>fs. fs_remove_directory x fs path))"

definition backend_get_attr :: "ext \<Rightarrow> backend \<Rightarrow> str \<Rightarrow> file_attr backend_op" where
  "backend_get_attr x b path =
     (if is_hook_path path then
        (case hook_get_attr path of
           Some hook_attr \<Rightarrow> gets (\<lambda>d. hook_attr_to_file_attr x path hook_attr (d_clock d))
         | None \<Rightarrow> raise (Fails (FsePathNotFound path)))
      else bindE (with_fs x b (\<lambda>fs. fs_stat fs path)) (\<lambda>inode. ret (inode_to_attr inode)))"

definition backend_set_attr :: "ext \<Rightarrow> backend \<Rightarrow> str \<Rightarrow> set_attr \<Rightarrow> file_attr backend_op" where
  "backend_set_attr x b path attr =
     unless_hook path ''Cannot change attributes of /.tarbox/ entries''
       (bindE (case sa_mode attr of
                 None \<Rightarrow> ret ()
               | Some mode \<Rightarrow> with_fs x b (\<lambda>fs. fs_chmod fs path (sint mode))) (\<lambda>_.
        bindE (if sa_uid attr \<noteq> None \<or> sa_gid attr \<noteq> None then
                 let uid = sint (case sa_uid attr of None \<Rightarrow> 0 | Some u \<Rightarrow> u);
                     gid = sint (case sa_gid attr of None \<Rightarrow> 0 | Some g \<Rightarrow> g)
                 in with_fs x b (\<lambda>fs. fs_chown fs path uid gid)
               else ret ()) (\<lambda>_.
        bindE (case sa_size attr of None \<Rightarrow> ret () | Some count \<Rightarrow> backend_truncate x b path count) (\<lambda>_.
          backend_get_attr x b path))))"

definition backend_chmod :: "ext \<Rightarrow> backend \<Rightarrow> str \<Rightarrow> 32 word \<Rightarrow> unit backend_op" where
  "backend_chmod x b path mode =
     unless_hook path ''Cannot change permissions of /.tarbox/ entries''
       (with_fs x b (\<lambda>fs. fs_chmod fs path (sint mode)))"

definition backend_chown :: "ext \<Rightarrow> backend \<Rightarrow> str \<Rightarrow> 32 word \<Rightarrow> 32 word \<Rightarrow> unit backend_op" where
  "backend_chown x b path uid gid =
     unless_hook path ''Cannot change ownership of /.tarbox/ entries''
       (with_fs x b (\<lambda>fs. fs_chown fs path (sint uid) (sint gid)))"

definition backend_statfs :: "stat_fs backend_op" where
  "backend_statfs = ret
     \<lparr>sf_blocks = 1000000000, sf_bfree = 500000000, sf_bavail = 500000000, sf_files = 10000000,
      sf_ffree = 9000000, sf_bsize = 4096, sf_namelen = 255\<rparr>"

section \<open>Hook paths are kept apart\<close>

lemma reads_window: "reads (window checks data offset n)"
  unfolding window_def Let_def by (intro reads_rules)

lemma reads_hook_result:
  "(\<And>s. reads (f s)) \<Longrightarrow> (\<And>s. reads (g s)) \<Longrightarrow> (\<And>e. reads (h e)) \<Longrightarrow> reads k \<Longrightarrow>
    reads (case r of Content s \<Rightarrow> f s | WriteSuccess s \<Rightarrow> g s | HookFailed e \<Rightarrow> h e | NotAHook \<Rightarrow> k)"
  by (cases r) simp_all

lemma effect_hook_write:
  assumes "is_hook_path path"
  shows "effect (hook_command (be_tenant_id b) path) (backend_write_file x b path offset data)"
  unfolding backend_write_file_def using assms
  by (intro effect_If effect_reads [OF reads_basic(2)] effect_then_reads effect_handle_write reads_hook_result
      reads_basic) simp


definition example_backend :: backend where
  "example_backend = \<lparr>be_tenant_id = 0, be_root_inode_id = 1\<rparr>"


text \<open>The entries of the directory of layers are listed as directories, but their attributes say file.\<close>

lemma listed_as_directory:
  "fe_kind (hook_dir_entry x LAYERS ''current'') = Directory"
  "hook_get_attr LAYERS_CURRENT = Some attr_readonly_file"
  by (simp_all add: hook_dir_entry_def hook_get_attr_def is_hook_path_def starts_with_def hook_paths)

section \<open>Reading a part of a file\<close>

lemma window_eq:
  assumes "unat offset + unat n < 2 ^ 64"
  shows "window checks data offset n d = (Inr (take (unat n) (drop (unat offset) data)), d)"
proof -
  note sum = add_checked_small(1) [OF assms, of checks] add_checked_small(2) [OF assms]
  have "take (min (unat offset + unat n) (length data) - unat offset) (drop (unat offset) data) =
      take (unat n) (drop (unat offset) data)"
    by (cases "unat offset + unat n \<le> length data") (simp_all add: min_def)
  with sum show ?thesis by (simp add: window_def or_panic_def Let_def) (auto simp: min_def)
qed

lemma read_file_window:
  assumes "\<not> is_hook_path path" and "fs_new (be_tenant_id b) d = (Inr fs, d1)"
    and "fs_read_file fs path d1 = (Inr data, d2)" and "unat offset + unat n < 2 ^ 64"
  shows "backend_read_file checks x b path offset n d = (Inr (take (unat n) (drop (unat offset) data)), d2)"
  using assms(1-3) window_eq [OF assms(4)]
  by (simp add: backend_read_file_def with_fs_def backend_fs_def core_def map_err_def bindE_def)

end

