(* ===== verification/Clients.thy ===== *)
theory Clients
  imports Backend
begin

text \<open>
  The interfaces as clients of the system: every call through the WASI adapter or the FUSE backend
  is a sequence of steps of the system, so that what holds of the reachable states holds after any
  of them.  The state of an adapter is seen through a projection on the database.
\<close>

abbreviation steps :: "ext \<Rightarrow> db \<Rightarrow> db \<Rightarrow> bool" where
  "steps x \<equiv> rtranclp (step x)"

definition follows :: "ext \<Rightarrow> ('s \<Rightarrow> db) \<Rightarrow> ('s, 'e, 'a) op \<Rightarrow> bool" where
  "follows x f m \<longleftrightarrow> (\<forall>s. steps x (f s) (f (snd (m s))))"

named_theorems follows_rules \<open>operations that are sequences of steps\<close>

lemma follows_reads: "reads m \<Longrightarrow> follows x f m"
  by (simp add: follows_def reads_def)

lemma follows_basic [follows_rules]:
  "follows x f (ret a)" "follows x f (raise e)" "follows x f (gets g)" "follows x f (ok_or e v)"
  "follows x f (or_panic v)"
  by (rule follows_reads, rule reads_basic reads_ok_or reads_or_panic)+

lemma follows_bindE [follows_rules]:
  assumes "follows x f m" and "\<And>a. follows x f (k a)"
  shows "follows x f (bindE m k)"
  unfolding follows_def
proof
  fix s
  obtain r s' where m: "m s = (r, s')" by force
  with assms(1) have "steps x (f s) (f s')" unfolding follows_def by (metis snd_conv)
  moreover have "steps x (f s') (f (snd (k a s')))" for a using assms(2) by (simp add: follows_def)
  ultimately show "steps x (f s) (f (snd (bindE m k s)))"
    using m by (cases r) (auto simp: bindE_def intro: rtranclp_trans)
qed

lemma follows_map_err [follows_rules]: "follows x f m \<Longrightarrow> follows x f (map_err g m)"
  by (simp add: follows_def map_err_def split_beta split: sum.split)

lemma follows_attempt [follows_rules]: "follows x f m \<Longrightarrow> follows x f (attempt m)"
  by (simp add: follows_def attempt_def split_beta)

lemma follows_If [follows_rules]: "follows x f m \<Longrightarrow> follows x f n \<Longrightarrow> follows x f (if b then m else n)"
  by simp

lemma follows_option [follows_rules]:
  "follows x f m \<Longrightarrow> (\<And>a. follows x f (k a)) \<Longrightarrow> follows x f (case v of None \<Rightarrow> m | Some a \<Rightarrow> k a)"
  by (cases v) simp_all

lemma follows_hook_result [follows_rules]:
  "(\<And>s. follows x f (g s)) \<Longrightarrow> (\<And>s. follows x f (h s)) \<Longrightarrow> (\<And>e. follows x f (i e)) \<Longrightarrow> follows x f k \<Longrightarrow>
    follows x f (case r of Content s \<Rightarrow> g s | WriteSuccess s \<Rightarrow> h s | HookFailed e \<Rightarrow> i e | NotAHook \<Rightarrow> k)"
  by (cases r) simp_all

lemma follows_fs [follows_rules]:
  "follows x (\<lambda>d. d) (fs_new t)" "follows x (\<lambda>d. d) (fs_create_file fs path)"
  "follows x (\<lambda>d. d) (fs_create_directory fs path)" "follows x (\<lambda>d. d) (fs_write_file x fs path data)"
  "follows x (\<lambda>d. d) (fs_delete_file fs path)" "follows x (\<lambda>d. d) (fs_remove_directory x fs path)"
  "follows x (\<lambda>d. d) (fs_chmod fs path mode)" "follows x (\<lambda>d. d) (fs_chown fs path u g)"
  unfolding follows_def fs_create_file_def fs_create_directory_def
  by (rule allI, rule r_into_rtranclp, rule step.intros)+

lemma reads_fs:
  "reads (fs_read_file fs path)" "reads (fs_stat fs path)" "reads (fs_list_directory x fs path)"
proof -
  have "reads (db_err (inode_list_children x t i))" for t i
    by (simp add: reads_def db_err_def inode_list_children_def map_err_def)
  then show "reads (fs_list_directory x fs path)"
    unfolding fs_list_directory_def by (intro reads_rules reads_resolve)
qed (unfold fs_read_file_def fs_stat_def, (intro reads_rules reads_resolve reads_read_internal)+)

lemmas follows_fs_reads [follows_rules] = follows_reads [OF reads_fs(1)] follows_reads [OF reads_fs(2)]
  follows_reads [OF reads_fs(3)]

section \<open>The backend\<close>

lemma follows_command: "effect (hook_command t path) m \<Longrightarrow> follows x (\<lambda>d. d) m"
  unfolding effect_def follows_def by (metis hook_command_step r_into_rtranclp rtranclp.rtrancl_refl)

lemma follows_handle_write [follows_rules]: "follows x (\<lambda>d. d) (handle_write x t path data)"
  by (rule follows_command [OF effect_handle_write])

lemma follows_hook_reads [follows_rules]:
  "follows x f (handle_read checks x t path)" "follows x f (hook_read_dir t path)" "follows x f (window checks data offset n)"
  by (rule follows_reads, rule reads_handle_read reads_hook_read_dir reads_window)+

lemma follows_with_fs [follows_rules]:
  "(\<And>fs. follows x (\<lambda>d. d) (m fs)) \<Longrightarrow> follows x (\<lambda>d. d) (with_fs x b m)"
  unfolding with_fs_def backend_fs_def core_def by (intro follows_rules)

lemma follows_unless_hook [follows_rules]: "follows x f m \<Longrightarrow> follows x f (unless_hook path what m)"
  unfolding unless_hook_def by (intro follows_rules)

lemma follows_truncate [follows_rules]: "follows x (\<lambda>d. d) (backend_truncate x b path n)"
  unfolding backend_truncate_def by (intro follows_rules)

lemma follows_get_attr [follows_rules]: "follows x (\<lambda>d. d) (backend_get_attr x b path)"
  unfolding backend_get_attr_def by (intro follows_rules)

lemma follows_backend [follows_rules]:
  "follows x (\<lambda>d. d) (backend_read_file checks x b path offset n)"
  "follows x (\<lambda>d. d) (backend_write_file x b path offset data)"
  "follows x (\<lambda>d. d) (backend_create_file x b path mode)"
  "follows x (\<lambda>d. d) (backend_delete_file x b path)"
  "follows x (\<lambda>d. d) (backend_create_dir x b path mode)"
  "follows x (\<lambda>d. d) (backend_read_dir x b path)"
  "follows x (\<lambda>d. d) (backend_remove_dir x b path)"
  "follows x (\<lambda>d. d) (backend_set_attr x b path attr)"
  "follows x (\<lambda>d. d) (backend_chmod x b path mode)"
  "follows x (\<lambda>d. d) (backend_chown x b path uid gid)"
  unfolding backend_read_file_def backend_write_file_def backend_create_file_def backend_delete_file_def
    backend_create_dir_def backend_read_dir_def backend_remove_dir_def backend_set_attr_def backend_chmod_def
    backend_chown_def Let_def
  by (intro follows_rules)+

section \<open>The WASI adapter\<close>

lemma follows_lock [follows_rules]: "follows x snd (lock m)"
  by (auto simp: follows_def lock_def split: option.split prod.split sum.split failure.split)

lemma follows_on_fs [follows_rules]:
  assumes "\<And>fs. follows x (\<lambda>d. d) (m fs)"
  shows "follows x snd (on_fs g m)"
  unfolding follows_def
proof
  fix s :: "wasi_adapter \<times> db"
  obtain w d where s: "s = (w, d)" by force
  have "steps x d (snd (m (wa_fs w) d))" using assms by (simp add: follows_def)
  moreover have "snd (snd (on_fs g m (w, d))) = snd (m (wa_fs w) d)"
    by (simp add: on_fs_def split: prod.split sum.split)
  ultimately show "steps x (snd s) (snd (snd (on_fs g m s)))" by (simp add: s)
qed

lemma follows_prod [follows_rules]: "(\<And>a b. follows x f (k a b)) \<Longrightarrow> follows x f (case p of (a, b) \<Rightarrow> k a b)"
  by (cases p) simp

lemma follows_wasi [follows_rules]:
  "follows x snd (wasi_fd_open checks path flags)"
  "follows x snd (wasi_fd_read checks x fd buf)"
  "follows x snd (wasi_fd_write checks x fd data)"
  "follows x snd (wasi_fd_seek checks fd offset whence)"
  "follows x snd (wasi_fd_close fd)"
  "follows x snd (wasi_path_stat path)"
  "follows x snd (wasi_path_create_directory path)"
  "follows x snd (wasi_path_remove_directory x path)"
  "follows x snd (wasi_path_unlink_file path)"
  "follows x snd (wasi_fd_readdir x fd)"
  "follows x snd wasi_close_all"
  unfolding wasi_fd_open_def wasi_fd_read_def wasi_fd_write_def wasi_fd_seek_def wasi_fd_close_def
    wasi_path_stat_def wasi_path_create_directory_def wasi_path_remove_directory_def wasi_path_unlink_file_def
    wasi_fd_readdir_def wasi_close_all_def Let_def
  by (intro follows_rules)+

end
