(* ===== verification/FuseAdapter.thy ===== *)
theory FuseAdapter
  imports Clients
begin

text \<open>
  The adapter between the kernel and the backend: \<open>src/src/fuse/adapter.rs\<close>.  The kernel names
  files by inode numbers and the backend by paths; the adapter keeps the map between them.  The
  numbers are \<open>u64\<close> in the code and \<open>nat\<close> here: the counter wraps only after \<open>2 ^ 64\<close> new paths.
  A request answers an error number or a reply; the state is the map and the database.
\<close>

section \<open>The map of inode numbers\<close>

record inode_map =
  im_inode_to_path :: "(nat \<times> str) list"
  im_path_to_inode :: "(str \<times> nat) list"
  im_next_inode :: nat

definition im_insert :: "nat \<Rightarrow> str \<Rightarrow> inode_map \<Rightarrow> inode_map" where
  "im_insert inode path m =
     m\<lparr>im_inode_to_path := AList.update inode path (im_inode_to_path m),
       im_path_to_inode := AList.update path inode (im_path_to_inode m)\<rparr>"

definition im_new :: inode_map where
  "im_new = im_insert 1 ''/'' \<lparr>im_inode_to_path = [], im_path_to_inode = [], im_next_inode = 2\<rparr>"

definition im_get_or_create :: "str \<Rightarrow> inode_map \<Rightarrow> nat \<times> inode_map" where
  "im_get_or_create path m =
     (case map_of (im_path_to_inode m) path of
        Some inode \<Rightarrow> (inode, m)
      | None \<Rightarrow>
          (let inode = im_next_inode m
           in (inode, im_insert inode path (m\<lparr>im_next_inode := inode + 1\<rparr>))))"

definition im_get_path :: "inode_map \<Rightarrow> nat \<Rightarrow> str option" where
  "im_get_path m inode = map_of (im_inode_to_path m) inode"

definition im_remove :: "nat \<Rightarrow> inode_map \<Rightarrow> inode_map" where
  "im_remove inode m =
     (case map_of (im_inode_to_path m) inode of
        None \<Rightarrow> m
      | Some path \<Rightarrow>
          m\<lparr>im_inode_to_path := AList.delete inode (im_inode_to_path m),
            im_path_to_inode := AList.delete path (im_path_to_inode m)\<rparr>)"

section \<open>Conversions\<close>

text \<open>
  A tick of the clock is a nanosecond here, counted from the epoch; the kernel is given whole seconds.
\<close>

definition datetime_to_systemtime :: "timestamp \<Rightarrow> timestamp" where
  "datetime_to_systemtime dt = (dt div 10 ^ 9) * 10 ^ 9"

definition systemtime_to_datetime :: "timestamp \<Rightarrow> timestamp" where
  "systemtime_to_datetime st = (st div 10 ^ 9) * 10 ^ 9"

record fuser_attr =
  fu_ino :: nat
  fu_size :: "64 word"
  fu_blocks :: nat
  fu_atime :: timestamp
  fu_mtime :: timestamp
  fu_ctime :: timestamp
  fu_crtime :: timestamp
  fu_kind :: file_type
  fu_perm :: "16 word"
  fu_nlink :: "32 word"
  fu_uid :: "32 word"
  fu_gid :: "32 word"
  fu_rdev :: nat
  fu_blksize :: nat
  fu_flags :: nat

text \<open>The attributes of the backend with the number the kernel knows in place of its own.\<close>

definition to_fuse_attr :: "nat \<Rightarrow> file_attr \<Rightarrow> fuser_attr" where
  "to_fuse_attr ino attr =
     \<lparr>fu_ino = ino, fu_size = fa_size attr, fu_blocks = (unat (fa_size attr) + 511) div 512,
      fu_atime = datetime_to_systemtime (fa_atime attr), fu_mtime = datetime_to_systemtime (fa_mtime attr),
      fu_ctime = datetime_to_systemtime (fa_ctime attr), fu_crtime = 0,
      fu_kind = fa_kind attr, fu_perm = ucast (fa_mode attr), fu_nlink = fa_nlinks attr, fu_uid = fa_uid attr, fu_gid = fa_gid attr,
      fu_rdev = 0, fu_blksize = 4096, fu_flags = 0\<rparr>"

section \<open>The interface\<close>

text \<open>
  The adapter holds its backend as \<open>Arc<dyn FilesystemInterface>\<close>: the table of the methods of the
  trait, over the database.  Those that answer \<open>NotSupported\<close> by default are not called.
\<close>

record interface =
  if_read_file :: "str \<Rightarrow> 64 word \<Rightarrow> 32 word \<Rightarrow> bytes backend_op"
  if_write_file :: "str \<Rightarrow> 64 word \<Rightarrow> bytes \<Rightarrow> 32 word backend_op"
  if_create_file :: "str \<Rightarrow> 32 word \<Rightarrow> file_attr backend_op"
  if_delete_file :: "str \<Rightarrow> unit backend_op"
  if_truncate :: "str \<Rightarrow> 64 word \<Rightarrow> unit backend_op"
  if_create_dir :: "str \<Rightarrow> 32 word \<Rightarrow> file_attr backend_op"
  if_read_dir :: "str \<Rightarrow> fuse_dir_entry list backend_op"
  if_remove_dir :: "str \<Rightarrow> unit backend_op"
  if_get_attr :: "str \<Rightarrow> file_attr backend_op"
  if_set_attr :: "str \<Rightarrow> set_attr \<Rightarrow> file_attr backend_op"
  if_chmod :: "str \<Rightarrow> 32 word \<Rightarrow> unit backend_op"
  if_chown :: "str \<Rightarrow> 32 word \<Rightarrow> 32 word \<Rightarrow> unit backend_op"
  if_statfs :: "stat_fs backend_op"

definition tarbox_backend :: "bool \<Rightarrow> ext \<Rightarrow> backend \<Rightarrow> interface" where
  "tarbox_backend checks x b =
     \<lparr>if_read_file = backend_read_file checks x b, if_write_file = backend_write_file x b,
      if_create_file = backend_create_file x b, if_delete_file = backend_delete_file x b,
      if_truncate = backend_truncate x b, if_create_dir = backend_create_dir x b,
      if_read_dir = backend_read_dir x b, if_remove_dir = backend_remove_dir x b,
      if_get_attr = backend_get_attr x b, if_set_attr = backend_set_attr x b,
      if_chmod = backend_chmod x b, if_chown = backend_chown x b, if_statfs = backend_statfs\<rparr>"

section \<open>Requests\<close>

type_synonym 'a fuse_op = "(inode_map \<times> db, errno failure, 'a) op"

definition on_map :: "(inode_map \<Rightarrow> 'a \<times> inode_map) \<Rightarrow> 'a fuse_op" where
  "on_map f = (\<lambda>(m, d). case f m of (a, m') \<Rightarrow> (Inr a, m', d))"

fun failure_to_errno :: "fuse_error failure \<Rightarrow> errno failure" where
  "failure_to_errno Panic = Panic"
| "failure_to_errno (Fails e) = Fails (to_errno e)"

definition block_on :: "'a backend_op \<Rightarrow> 'a fuse_op" where
  "block_on f = (\<lambda>(m, d).
     case f d of (Inl e, d') \<Rightarrow> (Inl (failure_to_errno e), m, d') | (Inr a, d') \<Rightarrow> (Inr a, m, d'))"

definition fuse_get_path :: "nat \<Rightarrow> str fuse_op" where
  "fuse_get_path inode = bindE (gets (\<lambda>(m, d). im_get_path m inode)) (ok_or (Fails ENOENT))"

definition child_path :: "str \<Rightarrow> str \<Rightarrow> str" where
  "child_path parent_path name = (if parent_path = ''/'' then ''/'' @ name else parent_path @ ''/'' @ name)"

text \<open>The first part of the requests on a name in a directory: the name must be UTF-8.\<close>

definition named_path :: "nat \<Rightarrow> bytes \<Rightarrow> str fuse_op" where
  "named_path parent name =
     bindE (ok_or (Fails EINVAL) (from_utf8 name)) (\<lambda>n.
     bindE (fuse_get_path parent) (\<lambda>parent_path. ret (child_path parent_path n)))"

text \<open>The last part of those that answer with an entry.\<close>

definition entry_reply :: "str \<Rightarrow> file_attr \<Rightarrow> fuser_attr fuse_op" where
  "entry_reply path attr =
     bindE (on_map (im_get_or_create path)) (\<lambda>inode. ret (to_fuse_attr inode attr))"

definition forget_path :: "str \<Rightarrow> unit fuse_op" where
  "forget_path path = on_map (\<lambda>m.
     ((), case map_of (im_path_to_inode m) path of None \<Rightarrow> m | Some inode \<Rightarrow> im_remove inode m))"

definition fuse_lookup :: "interface \<Rightarrow> nat \<Rightarrow> bytes \<Rightarrow> fuser_attr fuse_op" where
  "fuse_lookup i parent name =
     bindE (named_path parent name) (\<lambda>path.
     bindE (block_on (if_get_attr i path)) (\<lambda>attr. entry_reply path attr))"

definition fuse_getattr :: "interface \<Rightarrow> nat \<Rightarrow> fuser_attr fuse_op" where
  "fuse_getattr i ino =
     bindE (fuse_get_path ino) (\<lambda>path.
     bindE (block_on (if_get_attr i path)) (\<lambda>attr. ret (to_fuse_attr ino attr)))"

datatype time_or_now = SpecificTime timestamp | TimeNow

fun time_of :: "timestamp \<Rightarrow> time_or_now \<Rightarrow> timestamp" where
  "time_of time (SpecificTime st) = systemtime_to_datetime st"
| "time_of time TimeNow = time"

definition fuse_setattr ::
  "interface \<Rightarrow> nat \<Rightarrow> 32 word option \<Rightarrow> 32 word option \<Rightarrow> 32 word option \<Rightarrow> 64 word option \<Rightarrow>
   time_or_now option \<Rightarrow> time_or_now option \<Rightarrow> fuser_attr fuse_op" where
  "fuse_setattr i ino mode uid gid count atime mtime =
     bindE (fuse_get_path ino) (\<lambda>path.
     bindE (gets (\<lambda>(m, d). d_clock d)) (\<lambda>time.
     bindE (block_on (if_set_attr i path
       \<lparr>sa_size = count, sa_atime = map_option (time_of time) atime, sa_mtime = map_option (time_of time) mtime,
        sa_mode = mode, sa_uid = uid, sa_gid = gid\<rparr>)) (\<lambda>attr. ret (to_fuse_attr ino attr))))"

definition fuse_read :: "interface \<Rightarrow> nat \<Rightarrow> 64 word \<Rightarrow> 32 word \<Rightarrow> bytes fuse_op" where
  "fuse_read i ino offset count =
     bindE (fuse_get_path ino) (\<lambda>path. block_on (if_read_file i path offset count))"

definition fuse_write :: "interface \<Rightarrow> nat \<Rightarrow> 64 word \<Rightarrow> bytes \<Rightarrow> 32 word fuse_op" where
  "fuse_write i ino offset data =
     bindE (fuse_get_path ino) (\<lambda>path. block_on (if_write_file i path offset data))"

definition fuse_mkdir :: "interface \<Rightarrow> nat \<Rightarrow> bytes \<Rightarrow> 32 word \<Rightarrow> fuser_attr fuse_op" where
  "fuse_mkdir i parent name mode =
     bindE (named_path parent name) (\<lambda>path.
     bindE (block_on (if_create_dir i path mode)) (\<lambda>attr. entry_reply path attr))"

definition fuse_rmdir :: "interface \<Rightarrow> nat \<Rightarrow> bytes \<Rightarrow> unit fuse_op" where
  "fuse_rmdir i parent name =
     bindE (named_path parent name) (\<lambda>path.
     bindE (block_on (if_remove_dir i path)) (\<lambda>_. forget_path path))"

definition fuse_create :: "interface \<Rightarrow> nat \<Rightarrow> bytes \<Rightarrow> 32 word \<Rightarrow> fuser_attr fuse_op" where
  "fuse_create i parent name mode =
     bindE (named_path parent name) (\<lambda>path.
     bindE (block_on (if_create_file i path mode)) (\<lambda>attr. entry_reply path attr))"

definition fuse_unlink :: "interface \<Rightarrow> nat \<Rightarrow> bytes \<Rightarrow> unit fuse_op" where
  "fuse_unlink i parent name =
     bindE (named_path parent name) (\<lambda>path.
     bindE (block_on (if_delete_file i path)) (\<lambda>_. forget_path path))"

text \<open>A listing: the number, the kind and the name of each entry, after \<open>.\<close> and \<open>..\<close>.\<close>

definition list_entry_number :: "str \<Rightarrow> fuse_dir_entry \<Rightarrow> (nat \<times> file_type \<times> str) fuse_op" where
  "list_entry_number path entry =
     bindE (on_map (im_get_or_create (child_path path (fe_name entry)))) (\<lambda>inode.
       ret (inode, fe_kind entry, fe_name entry))"

text \<open>
  The buffer of the reply decides how many entries it takes: \<open>full\<close> says, given those it has,
  whether it refuses the next one.  An entry carries the offset of the one after it.
\<close>

fun fill_reply :: "((nat \<times> nat \<times> file_type \<times> str) list \<Rightarrow> nat \<times> nat \<times> file_type \<times> str \<Rightarrow> bool) \<Rightarrow>
    (nat \<times> nat \<times> file_type \<times> str) list \<Rightarrow> (nat \<times> nat \<times> file_type \<times> str) list \<Rightarrow>
    (nat \<times> nat \<times> file_type \<times> str) list" where
  "fill_reply full acc [] = acc"
| "fill_reply full acc (e # es) = (if full acc e then acc else fill_reply full (acc @ [e]) es)"

definition number_entries :: "(nat \<times> file_type \<times> str) list \<Rightarrow> (nat \<times> nat \<times> file_type \<times> str) list" where
  "number_entries es = map (\<lambda>(i, inode, kind, name). (inode, i + 1, kind, name)) (zip [0..<length es] es)"

definition fuse_readdir ::
  "interface \<Rightarrow> ((nat \<times> nat \<times> file_type \<times> str) list \<Rightarrow> nat \<times> nat \<times> file_type \<times> str \<Rightarrow> bool) \<Rightarrow>
   nat \<Rightarrow> 64 word \<Rightarrow> (nat \<times> nat \<times> file_type \<times> str) list fuse_op" where
  "fuse_readdir i full ino offset =
     bindE (fuse_get_path ino) (\<lambda>path.
     bindE (block_on (if_read_dir i path)) (\<lambda>entries.
     bindE (mapE (list_entry_number path) entries) (\<lambda>numbered.
       let all_entries = (ino, Directory, ''.'') # (ino, Directory, ''..'') # numbered
       in ret (fill_reply full [] (drop (unat offset) (number_entries all_entries))))))"

definition fuse_open :: "nat \<Rightarrow> (nat \<times> nat) fuse_op" where
  "fuse_open ino = ret (0, 0)"

definition fuse_release :: "nat \<Rightarrow> unit fuse_op" where
  "fuse_release ino = ret ()"

definition fuse_statfs :: "interface \<Rightarrow> (stat_fs \<times> nat) fuse_op" where
  "fuse_statfs i = bindE (block_on (if_statfs i)) (\<lambda>stats. ret (stats, 0))"

section \<open>The map stays a bijection and numbers are not reused\<close>

definition im_ok :: "inode_map \<Rightarrow> bool" where
  "im_ok m \<longleftrightarrow>
     (\<forall>i p. map_of (im_inode_to_path m) i = Some p \<longleftrightarrow> map_of (im_path_to_inode m) p = Some i) \<and>
     (\<forall>i \<in> dom (map_of (im_inode_to_path m)). i < im_next_inode m)"

text \<open>Every number handed out before means what it meant, or nothing.\<close>

definition im_later :: "inode_map \<Rightarrow> inode_map \<Rightarrow> bool" where
  "im_later m m' \<longleftrightarrow> im_next_inode m \<le> im_next_inode m' \<and>
     (\<forall>i < im_next_inode m. im_get_path m' i = None \<or> im_get_path m' i = im_get_path m i)"

lemma im_later_refl: "im_later m m"
  by (simp add: im_later_def)

lemma im_later_trans: "im_later m m' \<Longrightarrow> im_later m' m'' \<Longrightarrow> im_later m m''"
  by (auto simp: im_later_def) (metis order_less_le_trans)

lemma im_ok_new: "im_ok im_new"
  by (auto simp: im_ok_def im_new_def im_insert_def)

lemma im_ok_get_or_create:
  assumes "im_ok m"
  shows "im_ok (snd (im_get_or_create path m)) \<and> im_later m (snd (im_get_or_create path m)) \<and>
    im_get_path (snd (im_get_or_create path m)) (fst (im_get_or_create path m)) = Some path"
proof (cases "map_of (im_path_to_inode m) path")
  case None
  have new: "map_of (im_inode_to_path m) (im_next_inode m) = None"
    using assms by (fastforce simp: im_ok_def dom_def)
  let ?m = "snd (im_get_or_create path m)"
  have f: "map_of (im_inode_to_path ?m) = (map_of (im_inode_to_path m))(im_next_inode m \<mapsto> path)"
    and g: "map_of (im_path_to_inode ?m) = (map_of (im_path_to_inode m))(path \<mapsto> im_next_inode m)"
    and n: "im_next_inode ?m = im_next_inode m + 1" "fst (im_get_or_create path m) = im_next_inode m"
    using None by (simp_all add: im_get_or_create_def im_insert_def update_conv' Let_def)
  have old: "map_of (im_path_to_inode m) q \<noteq> Some (im_next_inode m)" for q
    using assms new by (fastforce simp: im_ok_def)
  have "map_of (im_inode_to_path m) i \<noteq> Some path" for i using assms None by (fastforce simp: im_ok_def)
  with assms old have "\<forall>i p. map_of (im_inode_to_path ?m) i = Some p \<longleftrightarrow> map_of (im_path_to_inode ?m) p = Some i"
    unfolding f g im_ok_def by auto
  moreover have "\<forall>i \<in> dom (map_of (im_inode_to_path ?m)). i < im_next_inode ?m"
    using assms unfolding f n by (auto simp: im_ok_def dom_def intro!: less_SucI)
  ultimately show ?thesis using n f by (simp add: im_ok_def im_later_def im_get_path_def)
next
  case (Some i)
  then show ?thesis using assms by (simp add: im_get_or_create_def im_later_refl im_get_path_def im_ok_def)
qed

lemma im_ok_remove:
  assumes "im_ok m"
  shows "im_ok (im_remove i m) \<and> im_later m (im_remove i m) \<and> im_get_path (im_remove i m) i = None"
proof (cases "map_of (im_inode_to_path m) i")
  case None
  then show ?thesis using assms by (simp add: im_remove_def im_later_refl im_get_path_def)
next
  case (Some p)
  have f: "map_of (im_inode_to_path (im_remove i m)) = (map_of (im_inode_to_path m))(i := None)"
    and g: "map_of (im_path_to_inode (im_remove i m)) = (map_of (im_path_to_inode m))(p := None)"
    and n: "im_next_inode (im_remove i m) = im_next_inode m"
    using Some by (simp_all add: im_remove_def delete_conv')
  have "\<forall>j q. map_of (im_inode_to_path (im_remove i m)) j = Some q \<longleftrightarrow>
      map_of (im_path_to_inode (im_remove i m)) q = Some j"
    using assms Some unfolding f g im_ok_def by (metis fun_upd_apply option.inject option.discI)
  moreover have "\<forall>j \<in> dom (map_of (im_inode_to_path (im_remove i m))). j < im_next_inode (im_remove i m)"
    using assms unfolding f n by (auto simp: im_ok_def dom_def split: if_splits)
  ultimately show ?thesis using f n by (simp add: im_ok_def im_later_def im_get_path_def)
qed

text \<open>An operation of the adapter that keeps the map in order and takes steps of the system.\<close>

definition serves :: "ext \<Rightarrow> 'a fuse_op \<Rightarrow> bool" where
  "serves x f \<longleftrightarrow> follows x snd f \<and>
     (\<forall>m d. im_ok m \<longrightarrow> im_ok (fst (snd (f (m, d)))) \<and> im_later m (fst (snd (f (m, d)))))"

named_theorems serves_rules \<open>requests that keep the map\<close>

lemma serves_basic [serves_rules]: "serves x (ret a)" "serves x (raise e)" "serves x (gets g)" "serves x (ok_or e v)"
  by (cases v; simp add: serves_def follows_basic im_later_refl)+

lemma serves_bindE [serves_rules]:
  assumes "serves x f" and "\<And>a. serves x (g a)"
  shows "serves x (bindE f g)"
proof -
  have "im_ok m' \<and> im_later m m'" if "im_ok m" "bindE f g (m, d) = (r, m', d')" for m d r m' d'
  proof -
    obtain r1 m1 d1 where f: "f (m, d) = (r1, m1, d1)" by (metis prod_cases3)
    have one: "im_ok m1 \<and> im_later m m1" using assms(1) that(1) f unfolding serves_def by (metis fst_conv snd_conv)
    show ?thesis
    proof (cases r1)
      case (Inl e)
      with one f that(2) show ?thesis by (simp add: bindE_def)
    next
      case (Inr a)
      then have "g a (m1, d1) = (r, m', d')" using f that(2) by (simp add: bindE_def)
      then have "im_ok m' \<and> im_later m1 m'" using assms(2) one unfolding serves_def by (metis fst_conv snd_conv)
      with one show ?thesis using im_later_trans by blast
    qed
  qed
  then have "\<forall>m d. im_ok m \<longrightarrow> im_ok (fst (snd (bindE f g (m, d)))) \<and> im_later m (fst (snd (bindE f g (m, d))))"
    by (metis prod.collapse)
  then show ?thesis using assms follows_bindE [of x snd f g] by (simp add: serves_def)
qed

lemma serves_block_on [serves_rules]:
  assumes "follows x (\<lambda>d. d) f"
  shows "serves x (block_on f)"
proof -
  have "snd (snd (block_on f (m, d))) = snd (f d)" "fst (snd (block_on f (m, d))) = m" for m d
    by (simp_all add: block_on_def split: prod.split sum.split)
  with assms show ?thesis by (simp add: serves_def follows_def im_later_refl)
qed

lemma serves_on_map:
  assumes "\<And>m. im_ok m \<Longrightarrow> im_ok (snd (f m)) \<and> im_later m (snd (f m))"
  shows "serves x (on_map f)"
  using assms by (auto simp: serves_def follows_def on_map_def split: prod.splits) (metis snd_conv)+

lemma serves_entry [serves_rules]: "serves x (on_map (im_get_or_create path))"
  by (rule serves_on_map) (simp add: im_ok_get_or_create)

lemma serves_forget [serves_rules]: "serves x (forget_path path)"
  unfolding forget_path_def
  by (rule serves_on_map) (auto simp: im_ok_remove im_later_refl split: option.split)

lemma serves_mapE [serves_rules]: "(\<And>a. serves x (f a)) \<Longrightarrow> serves x (mapE f as)"
  by (induction as) (auto intro!: serves_rules)

lemma serves_named [serves_rules]: "serves x (named_path parent name)" "serves x (fuse_get_path ino)"
  unfolding named_path_def fuse_get_path_def by (intro serves_rules)+

text \<open>The requests, with any arguments.\<close>

inductive fuse_call :: "interface \<Rightarrow> inode_map \<times> db \<Rightarrow> inode_map \<times> db \<Rightarrow> bool" for i where
  lookup: "fuse_call i s (snd (fuse_lookup i parent name s))"
| getattr: "fuse_call i s (snd (fuse_getattr i ino s))"
| setattr: "fuse_call i s (snd (fuse_setattr i ino mode uid gid count atime mtime s))"
| read_data: "fuse_call i s (snd (fuse_read i ino offset n s))"
| write_data: "fuse_call i s (snd (fuse_write i ino offset data s))"
| mkdir: "fuse_call i s (snd (fuse_mkdir i parent name mode s))"
| rmdir: "fuse_call i s (snd (fuse_rmdir i parent name s))"
| create: "fuse_call i s (snd (fuse_create i parent name mode s))"
| unlink: "fuse_call i s (snd (fuse_unlink i parent name s))"
| readdir: "fuse_call i s (snd (fuse_readdir i full ino offset s))"
| statfs: "fuse_call i s (snd (fuse_statfs i s))"

lemma serves_step:
  assumes "(m', d') = snd (f (m, d))" "serves x f" "im_ok m"
  shows "im_ok m' \<and> im_later m m' \<and> steps x d d'"
proof -
  have "snd (f (m, d)) = (m', d')" using assms(1) by simp
  with assms(2,3) show ?thesis unfolding serves_def follows_def by (metis fst_conv snd_conv)
qed

text \<open>
  What the adapter relies on: every method of the interface is a sequence of steps of the system
  (and so keeps what the reachable states keep).
\<close>

locale filesystem_interface =
  fixes i :: interface and x :: ext
  assumes reading: "follows x (\<lambda>d. d) (if_read_file i path offset n)" "follows x (\<lambda>d. d) (if_read_dir i path)"
      "follows x (\<lambda>d. d) (if_get_attr i path)" "follows x (\<lambda>d. d) (if_statfs i)"
    and writing: "follows x (\<lambda>d. d) (if_write_file i path offset data)"
      "follows x (\<lambda>d. d) (if_create_file i path mode)" "follows x (\<lambda>d. d) (if_create_dir i path mode)"
      "follows x (\<lambda>d. d) (if_delete_file i path)" "follows x (\<lambda>d. d) (if_remove_dir i path)"
      "follows x (\<lambda>d. d) (if_set_attr i path attr)"
begin

lemmas laws = reading writing

lemma serves_requests:
  "serves x (fuse_lookup i parent name)" "serves x (fuse_getattr i ino)"
  "serves x (fuse_setattr i ino mode uid gid count atime mtime)"
  "serves x (fuse_read i ino offset n)" "serves x (fuse_write i ino offset data)"
  "serves x (fuse_mkdir i parent name fmode)" "serves x (fuse_rmdir i parent name)"
  "serves x (fuse_create i parent name fmode)" "serves x (fuse_unlink i parent name)"
  "serves x (fuse_readdir i full ino offset)" "serves x (fuse_statfs i)"
  unfolding fuse_lookup_def fuse_getattr_def fuse_setattr_def fuse_read_def fuse_write_def fuse_mkdir_def
    fuse_rmdir_def fuse_create_def fuse_unlink_def fuse_readdir_def fuse_statfs_def entry_reply_def
    list_entry_number_def Let_def
  by (intro serves_rules laws)+

lemma fuse_call_serves:
  assumes "fuse_call i (m, d) (m', d')" "im_ok m"
  shows "im_ok m' \<and> im_later m m' \<and> steps x d d'"
  using assms(1) by cases (erule serves_step, rule serves_requests, rule assms(2))+

lemma fuse_calls_serve:
  assumes "rtranclp (fuse_call i) (m, d) (m', d')" "im_ok m"
  shows "im_ok m' \<and> im_later m m' \<and> steps x d d'"
  using assms(1)
proof (induction "(m', d')" arbitrary: m' d' rule: rtranclp_induct)
  case base
  with assms(2) show ?case by (simp add: im_later_refl)
next
  case (step s)
  obtain m1 d1 where s: "s = (m1, d1)" by force
  with step(3) have one: "im_ok m1 \<and> im_later m m1 \<and> steps x d d1" by blast
  with fuse_call_serves [OF step(2) [unfolded s]] show ?case by (blast intro: im_later_trans rtranclp_trans)
qed

end

interpretation tarbox: filesystem_interface "tarbox_backend checks x b" x for checks x b
  by unfold_locales (simp_all add: tarbox_backend_def backend_statfs_def follows_rules)


definition example_map :: inode_map where
  "example_map = im_insert 2 ''/.tarbox'' (im_new\<lparr>im_next_inode := 3\<rparr>)"

lemma example_lookup:
  "snd (fuse_lookup (tarbox_backend True example_ext example_backend) 1 ''.tarbox'' (im_new, d)) = (example_map, d)"
proof -
  have "from_utf8 ''.tarbox'' = Some ''.tarbox''" by code_simp
  moreover have "im_get_path im_new 1 = Some ''/''" by code_simp
  moreover have "snd (im_get_or_create ''/.tarbox'' im_new) = example_map" by code_simp
  moreover have "is_hook_path ''/.tarbox''" "hook_get_attr ''/.tarbox'' = Some attr_directory" by code_simp+
  ultimately show ?thesis
    by (simp add: fuse_lookup_def named_path_def fuse_get_path_def child_path_def block_on_def
        tarbox_backend_def backend_get_attr_def entry_reply_def on_map_def bindE_def gets_def ok_or_def ret_def split_beta)
qed


end
