(* ===== verification/Csi.thy ===== *)
theory Csi
  imports Clients
begin

text \<open>
  The services of the driver by which a container orchestrator uses tenants as volumes:
  \<open>src/src/csi/controller.rs\<close>, \<open>mount_manager.rs\<close>, \<open>node.rs\<close> and \<open>identity.rs\<close>, over the volumes and
  snapshots of \<open>Volumes\<close>.  A service answers with a status or a reply; of a generated message type
  only the fields are kept that the code sets to something other than a constant.
\<close>

section \<open>The controller\<close>

datatype status_code = StatusInternal | StatusInvalidArgument | StatusNotFound | StatusUnimplemented

type_synonym status = "status_code \<times> str"
type_synonym 'a service_op = "(db, status, 'a) op"

definition status_err :: "status_code \<Rightarrow> str \<Rightarrow> ('s, str, 'a) op \<Rightarrow> ('s, status, 'a) op" where
  "status_err code what m = map_err (\<lambda>e. (code, what @ e)) m"

record volume =
  vo_volume_id :: str
  vo_capacity_bytes :: int
  vo_volume_context :: "(str \<times> str) list"

record volume_snapshot =
  vs_snapshot_id :: str
  vs_source_volume_id :: str
  vs_creation_seconds :: nat
  vs_ready_to_use :: bool
  vs_size_bytes :: int

definition extract_pvc_info :: "(str \<times> str) list \<Rightarrow> str \<times> str" where
  "extract_pvc_info parameters =
     (case map_of parameters ''csi.storage.k8s.io/pvc/namespace'' of None \<Rightarrow> ''default'' | Some s \<Rightarrow> s,
      case map_of parameters ''csi.storage.k8s.io/pvc/name'' of None \<Rightarrow> ''unknown'' | Some s \<Rightarrow> s)"

text \<open>The field \<open>required_bytes\<close> is an \<open>i64\<close>, so a range always yields a value, 0 included.\<close>

definition csi_create_volume :: "ext \<Rightarrow> (str \<times> str) list \<Rightarrow> int option \<Rightarrow> volume service_op" where
  "csi_create_volume x parameters required_bytes =
     (let (namespace, pvc_name) = extract_pvc_info parameters;
          capacity_bytes = (case required_bytes of None \<Rightarrow> 1024 * 1024 * 1024 | Some n \<Rightarrow> n)
      in bindE (status_err StatusInternal ''Failed to create tenant: '' (create_tenant_from_pvc x namespace pvc_name))
           (\<lambda>t. ret \<lparr>vo_volume_id = uuid_to_string x t, vo_capacity_bytes = capacity_bytes,
                      vo_volume_context = parameters\<rparr>))"

definition csi_delete_volume :: "ext \<Rightarrow> str \<Rightarrow> unit service_op" where
  "csi_delete_volume x volume_id =
     status_err StatusInternal ''Failed to delete tenant: '' (delete_tenant_for_volume x volume_id)"

text \<open>\<open>controller_publish_volume\<close> and \<open>controller_unpublish_volume\<close>: nothing to attach.\<close>

definition csi_publish_volume :: "unit service_op" where
  "csi_publish_volume = ret ()"

definition csi_unpublish_volume :: "unit service_op" where
  "csi_unpublish_volume = ret ()"

text \<open>The capabilities of the request are sent back as they came, here as encoded messages.\<close>

definition csi_validate_volume :: "ext \<Rightarrow> str \<Rightarrow> bytes list \<Rightarrow> bytes list service_op" where
  "csi_validate_volume x volume_id volume_capabilities =
     bindE (status_err StatusInvalidArgument ''Invalid volume_id: '' (parse_volume_id x volume_id)) (\<lambda>t.
     bindE (status_err StatusInternal ''Failed to get tenant: '' (any_err x (tenant_get_by_id t))) (\<lambda>found.
     bindE (ok_or (StatusNotFound, ''Volume not found'') found) (\<lambda>_.
       ret volume_capabilities)))"

definition csi_list_volumes :: "ext \<Rightarrow> volume list service_op" where
  "csi_list_volumes x =
     bindE (status_err StatusInternal ''Failed to list tenants: '' (any_err x tenant_list)) (\<lambda>tenants.
       ret (map (\<lambda>tenant. \<lparr>vo_volume_id = uuid_to_string x (tn_id tenant), vo_capacity_bytes = 0,
                           vo_volume_context = []\<rparr>) tenants))"

definition csi_get_capacity :: "int service_op" where
  "csi_get_capacity = ret (2 ^ 63 - 1)"

datatype controller_capability =
    CreateDeleteVolume | ListVolumes | GetCapacity | CreateDeleteSnapshot | ListSnapshots | CloneVolume | ExpandVolume

definition csi_get_capabilities :: "controller_capability list service_op" where
  "csi_get_capabilities = ret [CreateDeleteVolume, ListVolumes, GetCapacity, CreateDeleteSnapshot, ListSnapshots,
     CloneVolume, ExpandVolume]"

definition snapshot_of_layer :: "ext \<Rightarrow> str \<Rightarrow> layer \<Rightarrow> volume_snapshot" where
  "snapshot_of_layer x source_volume_id layer =
     \<lparr>vs_snapshot_id = uuid_to_string x (ly_id layer), vs_source_volume_id = source_volume_id,
      vs_creation_seconds = ly_created_at layer div 10 ^ 9, vs_ready_to_use = True, vs_size_bytes = 0\<rparr>"

definition csi_create_snapshot :: "ext \<Rightarrow> str \<Rightarrow> str \<Rightarrow> volume_snapshot service_op" where
  "csi_create_snapshot x source_volume_id name =
     bindE (status_err StatusInvalidArgument ''Invalid volume_id: '' (parse_volume_id x source_volume_id)) (\<lambda>t.
     bindE (status_err StatusInternal ''Failed to create snapshot: '' (snapshot_create x t name)) (\<lambda>layer.
       ret (snapshot_of_layer x source_volume_id layer)))"

text \<open>The text of a parse error of the crate \<open>uuid\<close> is the argument \<open>uuid_error\<close>.\<close>

definition csi_delete_snapshot :: "ext \<Rightarrow> (str \<Rightarrow> str) \<Rightarrow> str \<Rightarrow> unit service_op" where
  "csi_delete_snapshot x uuid_error snapshot_id =
     bindE (ok_or (StatusInvalidArgument, ''Invalid snapshot_id: '' @ uuid_error snapshot_id) (uuid_parse x snapshot_id))
       (\<lambda>_. ret ())"

definition csi_list_snapshots :: "ext \<Rightarrow> str \<Rightarrow> volume_snapshot list service_op" where
  "csi_list_snapshots x source_volume_id =
     (if source_volume_id \<noteq> [] then
        bindE (status_err StatusInvalidArgument ''Invalid volume_id: '' (parse_volume_id x source_volume_id)) (\<lambda>t.
        bindE (status_err StatusInternal ''Failed to list snapshots: '' (snapshot_list t)) (\<lambda>layers.
          ret (map (snapshot_of_layer x source_volume_id) layers)))
      else ret [])"

definition csi_expand_volume :: "ext \<Rightarrow> str \<Rightarrow> int option \<Rightarrow> int service_op" where
  "csi_expand_volume x volume_id required_bytes =
     bindE (status_err StatusInvalidArgument ''Invalid volume_id: '' (parse_volume_id x volume_id)) (\<lambda>t.
       ok_or (StatusInvalidArgument, ''Missing required_bytes'') required_bytes)"

definition csi_get_volume :: "unit service_op" where
  "csi_get_volume = raise (StatusUnimplemented, ''ControllerGetVolume not implemented'')"

definition csi_modify_volume :: "unit service_op" where
  "csi_modify_volume = raise (StatusUnimplemented, ''ControllerModifyVolume not implemented'')"

definition csi_get_snapshot :: "ext \<Rightarrow> (str \<Rightarrow> str) \<Rightarrow> str \<Rightarrow> unit service_op" where
  "csi_get_snapshot x uuid_error snapshot_id =
     bindE (ok_or (StatusInvalidArgument, ''Invalid snapshot_id: '' @ uuid_error snapshot_id) (uuid_parse x snapshot_id))
       (\<lambda>_. raise (StatusUnimplemented, ''GetSnapshot requires tenant context''))"

section \<open>Mounts on a node\<close>

text \<open>
  How the host answers during one call: whether directories can be created, the child process a
  command line starts, whether a child can be killed and waited for, and the status of a
  command that was run (\<open>None\<close> when it cannot be run, otherwise whether it succeeded and its
  displayed status).
\<close>

record host =
  ho_create_dir_all :: "str \<Rightarrow> bool"
  ho_spawn :: "str list \<Rightarrow> nat option"
  ho_kill :: "nat \<Rightarrow> bool"
  ho_wait :: "nat \<Rightarrow> bool"
  ho_status :: "str list \<Rightarrow> (bool \<times> str) option"

record mount_handle =
  mh_tenant_id :: uuid
  mh_mount_path :: str
  mh_fuse_process :: "nat option"

type_synonym active_mounts = "(str \<times> mount_handle) list"

definition mount_command :: "ext \<Rightarrow> uuid \<Rightarrow> str \<Rightarrow> bool \<Rightarrow> str list" where
  "mount_command x t target_path read_only =
     [''tarbox'', ''--tenant'', uuid_to_string x t, ''mount'', target_path] @
     (if read_only then [''--read-only''] else [])"

definition mm_mount :: "ext \<Rightarrow> host \<Rightarrow> str \<Rightarrow> uuid \<Rightarrow> str \<Rightarrow> bool \<Rightarrow> (active_mounts, str, unit) op" where
  "mm_mount x h volume_id t target_path read_only =
     bindE (gets (\<lambda>mounts. map_of mounts volume_id)) (\<lambda>mounted.
       if mounted \<noteq> None then ret ()
       else if \<not> ho_create_dir_all h target_path then raise ''Failed to create mount point''
       else
         bindE (ok_or ''Failed to spawn FUSE mount process'' (ho_spawn h (mount_command x t target_path read_only)))
           (\<lambda>child. modify (AList.update volume_id
              \<lparr>mh_tenant_id = t, mh_mount_path = target_path, mh_fuse_process = Some child\<rparr>)))"

text \<open>The handle is taken out of the table before anything can fail.\<close>

definition mm_unmount :: "host \<Rightarrow> str \<Rightarrow> (active_mounts, str, unit) op" where
  "mm_unmount h volume_id =
     bindE (gets (\<lambda>mounts. map_of mounts volume_id)) (\<lambda>found.
       case found of
         None \<Rightarrow> ret ()
       | Some handle \<Rightarrow>
           bindE (modify (AList.delete volume_id)) (\<lambda>_.
           bindE (case mh_fuse_process handle of
                    None \<Rightarrow> ret ()
                  | Some child \<Rightarrow>
                      if \<not> ho_kill h child then raise ''Failed to kill FUSE process''
                      else if \<not> ho_wait h child then raise ''Failed to wait for FUSE process''
                      else ret ()) (\<lambda>_.
           bindE (ok_or ''Failed to unmount'' (ho_status h [''fusermount'', ''-u'', mh_mount_path handle]))
             (\<lambda>(success, status).
               if success then ret () else raise (''fusermount failed with status: '' @ status)))))"

definition mm_is_mounted :: "str \<Rightarrow> (active_mounts, str, bool) op" where
  "mm_is_mounted volume_id = gets (\<lambda>mounts. map_of mounts volume_id \<noteq> None)"

definition mm_get_mount_path :: "str \<Rightarrow> (active_mounts, str, str option) op" where
  "mm_get_mount_path volume_id = gets (\<lambda>mounts. map_option mh_mount_path (map_of mounts volume_id))"

text \<open>Failures are logged and do not stop the loop; \<open>hs\<close> has the host's answers for each round.\<close>

fun cleanup_each :: "host list \<Rightarrow> str list \<Rightarrow> (active_mounts, str, unit) op" where
  "cleanup_each hs [] = ret ()"
| "cleanup_each [] (v # vs) = ret ()"
| "cleanup_each (h # hs) (v # vs) = bindE (attempt (mm_unmount h v)) (\<lambda>_. cleanup_each hs vs)"

definition mm_cleanup_all :: "(nat \<Rightarrow> host) \<Rightarrow> (active_mounts, str, unit) op" where
  "mm_cleanup_all hs =
     bindE (gets (map fst)) (\<lambda>volume_ids. cleanup_each (map hs [0..<length volume_ids]) volume_ids)"

text \<open>The access modes of \<open>src/proto/csi.proto\<close> that are read-only have the numbers 2 and 3.\<close>

definition read_only_mode :: "int option \<Rightarrow> bool" where
  "read_only_mode mode = (case mode of None \<Rightarrow> False | Some m \<Rightarrow> m = 2 \<or> m = 3)"

type_synonym 'a node_op = "(active_mounts, status, 'a) op"

definition node_stage_volume :: "ext \<Rightarrow> host \<Rightarrow> str \<Rightarrow> str \<Rightarrow> int option \<Rightarrow> unit node_op" where
  "node_stage_volume x h volume_id staging_target_path mode =
     bindE (status_err StatusInvalidArgument ''Invalid volume_id: '' (parse_volume_id x volume_id)) (\<lambda>t.
       status_err StatusInternal ''Failed to mount volume: ''
         (mm_mount x h volume_id t staging_target_path (read_only_mode mode)))"

definition node_unstage_volume :: "host \<Rightarrow> str \<Rightarrow> unit node_op" where
  "node_unstage_volume h volume_id = status_err StatusInternal ''Failed to unmount volume: '' (mm_unmount h volume_id)"

text \<open>
  The options \<open>bind\<close> and \<open>ro\<close> are collected and not used, so \<open>readonly\<close> has no effect.  The texts of
  the host's errors are the arguments \<open>dir_error\<close> and \<open>run_error\<close>.
\<close>

definition bind_mount_command :: "str \<Rightarrow> str \<Rightarrow> bool \<Rightarrow> str list" where
  "bind_mount_command staging_path target_path readonly = [''mount'', ''--bind'', staging_path, target_path]"

definition node_publish_volume :: "host \<Rightarrow> str \<Rightarrow> str \<Rightarrow> str \<Rightarrow> str \<Rightarrow> bool \<Rightarrow> unit node_op" where
  "node_publish_volume h dir_error run_error staging_target_path target_path readonly =
     (if \<not> ho_create_dir_all h target_path
      then raise (StatusInternal, ''Failed to create target directory: '' @ dir_error)
      else
        bindE (ok_or (StatusInternal, ''Failed to bind mount: '' @ run_error)
                 (ho_status h (bind_mount_command staging_target_path target_path readonly))) (\<lambda>(success, status).
          if success then ret ()
          else raise (StatusInternal, ''Mount command failed with status: '' @ status)))"

definition node_unpublish_volume :: "host \<Rightarrow> str \<Rightarrow> str \<Rightarrow> unit node_op" where
  "node_unpublish_volume h run_error target_path =
     bindE (ok_or (StatusInternal, ''Failed to unmount: '' @ run_error) (ho_status h [''umount'', target_path]))
       (\<lambda>_. ret ())"

text \<open>Statistics of a mounted volume; \<open>as i64\<close> of the numbers of the host, products and differences checked.\<close>

record volume_usage =
  us_total :: "64 word"
  us_available :: "64 word"
  us_used :: "64 word"

record host_stats =
  hs_block_size :: "64 word"
  hs_blocks :: "64 word"
  hs_blocks_available :: "64 word"
  hs_files :: "64 word"
  hs_files_free :: "64 word"

definition signed_checked :: "bool \<Rightarrow> int \<Rightarrow> 64 word option" where
  "signed_checked checks n =
     (if checks \<and> (n < - (2 ^ 63) \<or> 2 ^ 63 \<le> n) then None else Some (word_of_int n))"

definition usage_of :: "bool \<Rightarrow> 64 word \<Rightarrow> 64 word \<Rightarrow> volume_usage option" where
  "usage_of checks capacity available =
     map_option (\<lambda>used. \<lparr>us_total = capacity, us_available = available, us_used = used\<rparr>)
       (signed_checked checks (sint capacity - sint available))"

definition node_get_volume_stats :: "bool \<Rightarrow> host_stats option \<Rightarrow> str \<Rightarrow> (active_mounts, status failure, volume_usage list) op" where
  "node_get_volume_stats checks stats stat_error =
     bindE (ok_or (Fails (StatusInternal, ''Failed to get volume stats: '' @ stat_error)) stats) (\<lambda>s.
     bindE (or_panic (signed_checked checks (sint (hs_blocks s) * sint (hs_block_size s)))) (\<lambda>total_bytes.
     bindE (or_panic (signed_checked checks (sint (hs_blocks_available s) * sint (hs_block_size s)))) (\<lambda>available_bytes.
     bindE (or_panic (usage_of checks total_bytes available_bytes)) (\<lambda>bytes.
     bindE (or_panic (usage_of checks (hs_files s) (hs_files_free s))) (\<lambda>inodes.
       ret [bytes, inodes])))))"

definition node_expand_volume :: "unit node_op" where
  "node_expand_volume = raise (StatusUnimplemented, ''Node expansion not needed for Tarbox'')"

datatype node_capability = StageUnstageVolume | GetVolumeStats

definition node_get_capabilities :: "node_capability list node_op" where
  "node_get_capabilities = ret [StageUnstageVolume, GetVolumeStats]"

definition node_get_info :: "str \<Rightarrow> (str \<times> int) node_op" where
  "node_get_info node_id = ret (node_id, 0)"

section \<open>Identity\<close>

datatype plugin_service = ControllerServiceCap | VolumeAccessibilityConstraints

definition get_plugin_info :: "str \<Rightarrow> str \<times> str" where
  "get_plugin_info version = (''tarbox.csi.io'', version)"

definition get_plugin_capabilities :: "plugin_service list" where
  "get_plugin_capabilities = [ControllerServiceCap, VolumeAccessibilityConstraints]"

definition probe :: bool where
  "probe = True"

section \<open>The controller as a client\<close>

lemma follows_status [follows_rules]: "follows x f m \<Longrightarrow> follows x f (status_err c what m)"
  unfolding status_err_def by (rule follows_map_err)

lemma follows_volumes [follows_rules]:
  "follows x (\<lambda>d. d) (create_tenant_from_pvc x ns n)" "follows x (\<lambda>d. d) (delete_tenant_for_volume x v)"
  "follows x (\<lambda>d. d) (snapshot_create x t n)"
  unfolding follows_def by (rule allI, rule r_into_rtranclp, rule step.intros)+

lemma reads_tenants: "reads (any_err x (tenant_get_by_id t))" "reads (any_err x tenant_list)" "reads (snapshot_list t)"
  by (simp_all add: reads_def any_err_def with_context_def snapshot_list_def map_err_def tenant_get_by_id_def
      tenant_list_def layer_list_def)

lemmas follows_tenants [follows_rules] = follows_reads [OF reads_tenants(1)] follows_reads [OF reads_tenants(2)]
  follows_reads [OF reads_tenants(3)]

inductive csi_call :: "ext \<Rightarrow> db \<Rightarrow> db \<Rightarrow> bool" for x where
  create_volume: "csi_call x d (snd (csi_create_volume x parameters required d))"
| delete_volume: "csi_call x d (snd (csi_delete_volume x volume_id d))"
| validate_volume: "csi_call x d (snd (csi_validate_volume x volume_id caps d))"
| list_volumes: "csi_call x d (snd (csi_list_volumes x d))"
| create_snapshot: "csi_call x d (snd (csi_create_snapshot x volume_id name d))"
| delete_snapshot: "csi_call x d (snd (csi_delete_snapshot x err snapshot_id d))"
| list_snapshots: "csi_call x d (snd (csi_list_snapshots x volume_id d))"
| expand_volume: "csi_call x d (snd (csi_expand_volume x volume_id required d))"

lemma follows_csi:
  "follows x (\<lambda>d. d) (csi_create_volume x parameters required)" "follows x (\<lambda>d. d) (csi_delete_volume x volume_id)"
  "follows x (\<lambda>d. d) (csi_validate_volume x volume_id caps)" "follows x (\<lambda>d. d) (csi_list_volumes x)"
  "follows x (\<lambda>d. d) (csi_create_snapshot x volume_id name)" "follows x (\<lambda>d. d) (csi_delete_snapshot x err snapshot_id)"
  "follows x (\<lambda>d. d) (csi_list_snapshots x volume_id)" "follows x (\<lambda>d. d) (csi_expand_volume x volume_id required)"
  unfolding csi_create_volume_def csi_delete_volume_def csi_validate_volume_def csi_list_volumes_def
    csi_create_snapshot_def csi_delete_snapshot_def csi_list_snapshots_def csi_expand_volume_def parse_volume_id_def
    Let_def
  by (intro follows_rules)+

lemma follows_direct: "follows x (\<lambda>d. d) m \<Longrightarrow> steps x d (snd (m d))"
  by (simp add: follows_def)

lemma csi_call_steps: "csi_call x d d' \<Longrightarrow> steps x d d'"
  by (induction rule: csi_call.induct) (rule follows_direct, rule follows_csi)+

end
