(* ===== verification/Cli.thy ===== *)
theory Cli
  imports Csi
begin

text \<open>
  The program \<open>tarbox\<close>: the commands of \<open>src/src/main.rs\<close> and the mounting of a file system
  (\<open>src/src/fuse/mount.rs\<close>).  The state is the text printed so far and the database.  A
  command ends, fails with an error whose text the runtime prints, or exits with a code.  The
  parsing of the command line (by the crate \<open>clap\<close>) and the connection to the database are not modelled: a
  command is a value of \<open>command\<close>, and its migrations have run.
\<close>

section \<open>Output\<close>

datatype cli_failure = CliError str | CliExit nat str

type_synonym 'a cli_op = "(str \<times> db, cli_failure, 'a) op"

definition print_text :: "str \<Rightarrow> unit cli_op" where
  "print_text s = modify (\<lambda>(out, d). (out @ s, d))"

definition println :: "str \<Rightarrow> unit cli_op" where
  "println s = print_text (s @ [NL])"

text \<open>\<open>?\<close> on an operation of the database: the error as the text it displays.\<close>

definition on_db :: "('e \<Rightarrow> str) \<Rightarrow> (db, 'e, 'a) op \<Rightarrow> 'a cli_op" where
  "on_db disp m = (\<lambda>(out, d).
     case m d of (Inl e, d') \<Rightarrow> (Inl (CliError (disp e)), out, d') | (Inr a, d') \<Rightarrow> (Inr a, out, d'))"

definition show_int :: "int \<Rightarrow> str" where
  "show_int n = (if n < 0 then ''-'' @ decimal (nat (- n)) else decimal (nat n))"

text \<open>\<open>{:o}\<close> of an \<open>i32\<close> shows its bits.\<close>

fun octal :: "nat \<Rightarrow> str" where
  "octal n = (if n < 8 then [char_of (48 + n)] else octal (n div 8) @ [char_of (48 + n mod 8)])"

declare octal.simps [simp del]

fun debug_inode_type :: "inode_type \<Rightarrow> str" where
  "debug_inode_type File = ''File''"
| "debug_inode_type Dir = ''Dir''"
| "debug_inode_type Symlink = ''Symlink''"

section \<open>Mounting\<close>

record mount_options =
  mo_allow_other :: bool
  mo_allow_root :: bool
  mo_read_only :: bool
  mo_fsname :: "str option"
  mo_auto_unmount :: bool

definition mount_options_default :: mount_options where
  "mount_options_default =
     \<lparr>mo_allow_other = False, mo_allow_root = False, mo_read_only = False, mo_fsname = Some ''tarbox'',
      mo_auto_unmount = False\<rparr>"

datatype fuser_option = AllowOther | AllowRoot | RO | FSName str | AutoUnmount

definition to_fuser_options :: "mount_options \<Rightarrow> fuser_option list" where
  "to_fuser_options m =
     (if mo_allow_other m then [AllowOther] else []) @
     (if mo_allow_root m then [AllowRoot] else []) @
     (if mo_read_only m then [RO] else []) @
     (case mo_fsname m of None \<Rightarrow> [] | Some fsname \<Rightarrow> [FSName fsname]) @
     (if mo_auto_unmount m then [AutoUnmount] else [])"

text \<open>The answers of the host: the mount point, the session that \<open>fuser\<close> starts, a command's outcome.\<close>

record mount_point =
  mp_exists :: bool
  mp_is_dir :: bool
  mp_session :: "fuser_option list \<Rightarrow> bool"
  mp_fusermount :: "(bool \<times> bytes) option"

definition fuse_mount :: "mount_point \<Rightarrow> str \<Rightarrow> mount_options \<Rightarrow> str + unit" where
  "fuse_mount h mountpoint options =
     (if \<not> mp_exists h then Inl (''Mount point does not exist: '' @ mountpoint)
      else if \<not> mp_is_dir h then Inl (''Mount point is not a directory: '' @ mountpoint)
      else if \<not> mp_session h (to_fuser_options options) then Inl ''Failed to mount filesystem''
      else Inr ())"

text \<open>On Linux.\<close>

definition fuse_unmount :: "mount_point \<Rightarrow> str \<Rightarrow> str + unit" where
  "fuse_unmount h mountpoint =
     (case mp_fusermount h of
        None \<Rightarrow> Inl ''Failed to execute fusermount''
      | Some (success, stderr) \<Rightarrow>
          if success then Inr () else Inl (''Failed to unmount: '' @ from_utf8_lossy stderr))"

fun show_fuse_error :: "fuse_error \<Rightarrow> str" where
  "show_fuse_error (FsePathNotFound p) = ''Path not found: '' @ p"
| "show_fuse_error (FseAlreadyExists p) = ''Already exists: '' @ p"
| "show_fuse_error (FseNotDirectory p) = ''Not a directory: '' @ p"
| "show_fuse_error (FseIsDirectory p) = ''Is a directory: '' @ p"
| "show_fuse_error (FseDirectoryNotEmpty p) = ''Directory not empty: '' @ p"
| "show_fuse_error (FseInvalidPath p) = ''Invalid path: '' @ p"
| "show_fuse_error (FsePermissionDenied p) = ''Permission denied: '' @ p"
| "show_fuse_error (FseNotSupported p) = ''Not supported: '' @ p"
| "show_fuse_error (FseIoError p) = ''IO error: '' @ p"

section \<open>Commands\<close>

datatype tenant_command = TenantCreate str | TenantInfo str | TenantList | TenantDelete str

datatype command =
    CmdInit
  | CmdTenant tenant_command
  | CmdMkdir str
  | CmdLs str
  | CmdRmdir str
  | CmdTouch str
  | CmdWrite str str
  | CmdCat str
  | CmdRm str
  | CmdStat str
  | CmdMount str bool bool bool
  | CmdUmount str
  | CmdCsi str str str str

definition get_tenant_id :: "ext \<Rightarrow> str option \<Rightarrow> uuid cli_op" where
  "get_tenant_id x tenant_name =
     bindE (ok_or (CliError ''--tenant option is required for file operations'') tenant_name) (\<lambda>name.
     bindE (on_db (db_error_text x) (tenant_get_by_name name)) (\<lambda>found.
     bindE (ok_or (CliError (''Tenant not found: '' @ name)) found) (\<lambda>tenant.
       ret (tn_id tenant))))"

text \<open>The first lines of every command on files: the tenant, then its file system.\<close>

definition with_file_system :: "ext \<Rightarrow> str option \<Rightarrow> (file_system \<Rightarrow> 'a fs_op) \<Rightarrow> 'a cli_op" where
  "with_file_system x tenant f =
     bindE (get_tenant_id x tenant) (\<lambda>t.
     bindE (on_db (show_fs_error x) (fs_new t)) (\<lambda>fs.
       on_db (show_fs_error x) (f fs)))"

text \<open>The text form of a time (\<open>Display\<close> of \<open>DateTime<Utc>\<close>) is the argument \<open>disp\<close>.\<close>

fun handle_tenant_command :: "ext \<Rightarrow> (timestamp \<Rightarrow> str) \<Rightarrow> tenant_command \<Rightarrow> unit cli_op" where
  "handle_tenant_command x disp (TenantCreate name) =
     bindE (on_db (db_error_text x) (tenant_create name)) (\<lambda>tenant.
     bindE (println (''Created tenant: '' @ name)) (\<lambda>_.
     bindE (println (''Tenant ID: '' @ uuid_to_string x (tn_id tenant))) (\<lambda>_.
       println (''Root inode: '' @ show_int (tn_root_inode_id tenant)))))"
| "handle_tenant_command x disp (TenantInfo name) =
     bindE (on_db (db_error_text x) (tenant_get_by_name name)) (\<lambda>found.
       case found of
         Some t \<Rightarrow>
           bindE (println (''Tenant: '' @ tn_name t)) (\<lambda>_.
           bindE (println (''  ID: '' @ uuid_to_string x (tn_id t))) (\<lambda>_.
           bindE (println (''  Root inode: '' @ show_int (tn_root_inode_id t))) (\<lambda>_.
             println (''  Created: '' @ disp (tn_created_at t)))))
       | None \<Rightarrow> raise (CliExit 1 (''Tenant not found: '' @ name)))"
| "handle_tenant_command x disp TenantList =
     bindE (on_db (db_error_text x) tenant_list) (\<lambda>tenants.
       if tenants = [] then println ''No tenants found''
       else
         bindE (println ''Tenants:'') (\<lambda>_.
           forE tenants (\<lambda>tenant.
             println (''  '' @ tn_name tenant @ '' ('' @ uuid_to_string x (tn_id tenant) @ '')''))))"
| "handle_tenant_command x disp (TenantDelete name) =
     bindE (on_db (db_error_text x) (tenant_get_by_name name)) (\<lambda>found.
       case found of
         Some t \<Rightarrow>
           bindE (on_db (db_error_text x) (tenant_delete (tn_id t))) (\<lambda>_.
             println (''Deleted tenant: '' @ name))
       | None \<Rightarrow> raise (CliExit 1 (''Tenant not found: '' @ name)))"

text \<open>
  The driver of volumes.  Whether a server that was started ends with an error is the argument
  \<open>served\<close>.  For a node, a file system is opened for a random identifier as tenant.
\<close>

definition start_node :: "ext \<Rightarrow> unit cli_op" where
  "start_node x =
     bindE (on_db (\<lambda>e. e) new_v4) (\<lambda>placeholder_tenant.
     bindE (on_db (show_fs_error x) (fs_new placeholder_tenant)) (\<lambda>_. ret ()))"

definition handle_csi_command :: "ext \<Rightarrow> str option \<Rightarrow> str \<Rightarrow> str \<Rightarrow> str \<Rightarrow> str \<Rightarrow> unit cli_op" where
  "handle_csi_command x served endpoint mode node_id metrics_addr =
     bindE (println ''Starting Tarbox CSI Driver'') (\<lambda>_.
     bindE (println (''  Mode: '' @ mode)) (\<lambda>_.
     bindE (println (''  Endpoint: '' @ endpoint)) (\<lambda>_.
     bindE (println (''  Node ID: '' @ node_id)) (\<lambda>_.
     bindE (println (''  Metrics: '' @ metrics_addr)) (\<lambda>_.
     let serve = (case served of None \<Rightarrow> ret () | Some e \<Rightarrow> raise (CliError e)) in
     if mode = ''controller'' then
       bindE (println ''Starting in Controller mode...'') (\<lambda>_. serve)
     else if mode = ''node'' then
       bindE (println ''Starting in Node mode...'') (\<lambda>_. bindE (start_node x) (\<lambda>_. serve))
     else if mode = ''all'' then
       bindE (println ''Starting in All mode (controller + node)...'') (\<lambda>_. bindE (start_node x) (\<lambda>_. serve))
     else raise (CliError (''Invalid mode: '' @ mode @ ''. Must be one of: controller, node, all'')))))))"

definition lift_cli :: "str + 'a \<Rightarrow> 'a cli_op" where
  "lift_cli r = (case r of Inl e \<Rightarrow> raise (CliError e) | Inr a \<Rightarrow> ret a)"

definition run_mount :: "ext \<Rightarrow> mount_point \<Rightarrow> str option \<Rightarrow> str \<Rightarrow> bool \<Rightarrow> bool \<Rightarrow> bool \<Rightarrow> unit cli_op" where
  "run_mount x h tenant mountpoint allow_other allow_root read_only =
     bindE (get_tenant_id x tenant) (\<lambda>t.
     bindE (ok_or (CliError []) tenant) (\<lambda>name.
     let options = \<lparr>mo_allow_other = allow_other, mo_allow_root = allow_root, mo_read_only = read_only,
                    mo_fsname = Some (''tarbox:'' @ name), mo_auto_unmount = True\<rparr> in
     bindE (println (''Mounting Tarbox filesystem at: '' @ mountpoint)) (\<lambda>_.
     bindE (println (''Tenant: '' @ name)) (\<lambda>_.
     bindE (println ''Press Ctrl+C to unmount'') (\<lambda>_.
     bindE (on_db (\<lambda>f. case f of Panic \<Rightarrow> [] | Fails e \<Rightarrow> show_fuse_error e) (backend_new x t)) (\<lambda>_.
     bindE (lift_cli (fuse_mount h mountpoint options)) (\<lambda>_.
       println ([NL] @ ''Unmounting filesystem...''))))))))"

fun run_command :: "ext \<Rightarrow> (timestamp \<Rightarrow> str) \<Rightarrow> mount_point \<Rightarrow> str option \<Rightarrow> str option \<Rightarrow> command \<Rightarrow> unit cli_op" where
  "run_command x disp h served tenant CmdInit = println ''Database schema initialized successfully''"
| "run_command x disp h served tenant (CmdTenant c) = handle_tenant_command x disp c"
| "run_command x disp h served tenant (CmdMkdir path) =
     bindE (with_file_system x tenant (\<lambda>fs. fs_create_directory fs path)) (\<lambda>_.
       println (''Created directory: '' @ path))"
| "run_command x disp h served tenant (CmdLs path) =
     bindE (with_file_system x tenant (\<lambda>fs. fs_list_directory x fs path)) (\<lambda>entries.
       forE entries (\<lambda>entry. println (ino_name entry @ (if ino_type entry = Dir then ''/'' else []))))"
| "run_command x disp h served tenant (CmdRmdir path) =
     bindE (with_file_system x tenant (\<lambda>fs. fs_remove_directory x fs path)) (\<lambda>_.
       println (''Removed directory: '' @ path))"
| "run_command x disp h served tenant (CmdTouch path) =
     bindE (with_file_system x tenant (\<lambda>fs. fs_create_file fs path)) (\<lambda>_.
       println (''Created file: '' @ path))"
| "run_command x disp h served tenant (CmdWrite path content) =
     bindE (with_file_system x tenant (\<lambda>fs. fs_write_file x fs path content)) (\<lambda>_.
       println (''Wrote '' @ decimal (length content) @ '' bytes to '' @ path))"
| "run_command x disp h served tenant (CmdCat path) =
     bindE (with_file_system x tenant (\<lambda>fs. fs_read_file fs path)) (\<lambda>data.
       print_text (from_utf8_lossy data))"
| "run_command x disp h served tenant (CmdRm path) =
     bindE (with_file_system x tenant (\<lambda>fs. fs_delete_file fs path)) (\<lambda>_.
       println (''Removed file: '' @ path))"
| "run_command x disp h served tenant (CmdStat path) =
     bindE (with_file_system x tenant (\<lambda>fs. fs_stat fs path)) (\<lambda>inode.
       forE [''  File: '' @ path, ''  Size: '' @ show_int (ino_size inode),
             ''  Type: '' @ debug_inode_type (ino_type inode), ''  Mode: '' @ octal (nat (ino_mode inode mod 2 ^ 32)),
             ''   Uid: '' @ show_int (ino_uid inode), ''   Gid: '' @ show_int (ino_gid inode),
             ''Access: '' @ disp (ino_atime inode), ''Modify: '' @ disp (ino_mtime inode),
             ''Change: '' @ disp (ino_ctime inode)] println)"
| "run_command x disp h served tenant (CmdMount mountpoint allow_other allow_root read_only) =
     run_mount x h tenant mountpoint allow_other allow_root read_only"
| "run_command x disp h served tenant (CmdUmount mountpoint) =
     bindE (lift_cli (fuse_unmount h mountpoint)) (\<lambda>_. println (''Unmounted: '' @ mountpoint))"
| "run_command x disp h served tenant (CmdCsi endpoint mode node_id metrics_addr) =
     handle_csi_command x served endpoint mode node_id metrics_addr"

section \<open>Commands are steps of the system\<close>

lemma follows_print [follows_rules]: "follows x snd (println s)" "follows x snd (print_text s)"
  by (simp_all add: follows_def println_def print_text_def modify_def split_beta)

lemma follows_on_db [follows_rules]:
  assumes "follows x (\<lambda>d. d) m"
  shows "follows x snd (on_db f m)"
  unfolding follows_def
proof
  fix s :: "str \<times> db"
  have "snd (snd (on_db f m s)) = snd (m (snd s))" by (simp add: on_db_def split: prod.split sum.split)
  with assms show "steps x (snd s) (snd (snd (on_db f m s)))" by (simp add: follows_def)
qed

lemma follows_forE [follows_rules]: "(\<And>a. follows x f (g a)) \<Longrightarrow> follows x f (forE as g)"
  by (induction as) (auto intro!: follows_rules)

lemma follows_lift_cli [follows_rules]: "follows x snd (lift_cli r)"
  unfolding lift_cli_def by (cases r) (auto intro!: follows_rules)

lemma follows_new_v4 [follows_rules]: "follows x (\<lambda>d. d) (new_v4 :: (db, str, uuid) op)"
proof -
  have "snd ((new_v4 :: (db, str, uuid) op) d) = snd ((new_v4 :: uuid db_op) d)" for d by (simp add: new_v4_def)
  then show ?thesis unfolding follows_def by (metis r_into_rtranclp step.draw)
qed

lemma follows_tenants_ops [follows_rules]:
  "follows x (\<lambda>d. d) (tenant_create n)" "follows x (\<lambda>d. d) (tenant_delete t)"
  unfolding follows_def by (rule allI, rule r_into_rtranclp, rule step.intros)+

lemma follows_tenant_queries [follows_rules]:
  "follows x f tenant_list" "follows x f (tenant_get_by_name n)" "follows x f (tenant_get_by_id t)"
  by (rule follows_reads, simp add: reads_def tenant_list_def tenant_get_by_name_def tenant_get_by_id_def)+

lemma follows_cli:
  "follows x snd (handle_tenant_command x disp c)" "follows x snd (handle_csi_command x served e m n a)"
  "follows x snd (get_tenant_id x tenant)" "follows x snd (run_mount x h tenant mp ao ar ro)"
proof -
  show "follows x snd (handle_tenant_command x disp c)"
    by (cases c) (simp_all only: handle_tenant_command.simps, (intro follows_rules)+)
  show g: "follows x snd (get_tenant_id x tenant)" for tenant
    unfolding get_tenant_id_def by (intro follows_rules)
  show "follows x snd (handle_csi_command x served e m n a)"
    unfolding handle_csi_command_def start_node_def Let_def by (intro follows_rules)
  show "follows x snd (run_mount x h tenant mp ao ar ro)"
    unfolding run_mount_def backend_new_def Let_def by (intro follows_rules g)
qed

lemma follows_with_file_system [follows_rules]:
  "(\<And>fs. follows x (\<lambda>d. d) (f fs)) \<Longrightarrow> follows x snd (with_file_system x tenant f)"
  unfolding with_file_system_def by (intro follows_rules follows_cli)

lemma follows_run_command: "follows x snd (run_command x disp h served tenant c)"
  by (cases c) (simp_all only: run_command.simps, (intro follows_rules follows_cli)+)

section \<open>What the commands lead to\<close>

lemma print_bind [simp]:
  "bindE (println s) f (out, d) = f () (out @ s @ [NL], d)"
  by (simp add: println_def print_text_def modify_def bindE_def)

lemma on_db_bind:
  "bindE (on_db disp m) f (out, d) =
     (case m d of (Inl e, d') \<Rightarrow> (Inl (CliError (disp e)), out, d') | (Inr a, d') \<Rightarrow> f a (out, d'))"
  by (simp add: on_db_def bindE_def split: prod.split sum.split)

lemma fs_new_unknown:
  assumes "find (\<lambda>r. tn_id r = t) (d_tenants d) = None"
  shows "fs_new t d = (Inl (PathNotFound ''tenant not found''), d)"
  using assms by (simp add: fs_new_def db_err_def map_err_def tenant_get_by_id_def bindE_def del: find_None_conv)

lemma start_node_fails:
  assumes "d_entropy d (d_draws d) \<notin> tn_id ` set (d_tenants d)"
  shows "start_node x (out, d) =
    (Inl (CliError ''Path not found: tenant not found''), out, d\<lparr>d_draws := Suc (d_draws d)\<rparr>)"
proof -
  let ?d = "d\<lparr>d_draws := Suc (d_draws d)\<rparr>"
  have "fs_new (d_entropy d (d_draws d)) ?d = (Inl (PathNotFound ''tenant not found''), ?d)"
    by (rule fs_new_unknown) (use assms in \<open>simp add: find_None_iff, metis imageI\<close>)
  then show ?thesis by (simp add: start_node_def on_db_bind)
qed

text \<open>
  C28.  The volume driver never serves a node.  In both modes that serve one it first opens a
  file system for a tenant whose identifier it has just drawn; unless a tenant has that random identifier,
  the command fails before any server is started, whatever the other arguments
  and whatever tenants exist.
\<close>

theorem csi_node_never_starts:
  assumes "d_entropy d (d_draws d) \<notin> tn_id ` set (d_tenants d)" and "mode = ''node'' \<or> mode = ''all''"
  shows "\<exists>out'. run_command x disp h served tenant (CmdCsi endpoint mode node_id metrics_addr) (out, d) =
    (Inl (CliError ''Path not found: tenant not found''), out', d\<lparr>d_draws := Suc (d_draws d)\<rparr>)"
  using assms(2)
  by (elim disjE) (simp_all add: handle_csi_command_def Let_def start_node_fails [OF assms(1)] bindE_def [of "start_node x"])

definition example_host :: mount_point where
  "example_host = \<lparr>mp_exists = True, mp_is_dir = True, mp_session = \<lambda>_. True, mp_fusermount = Some (True, [])\<rparr>"

theorem csi_node_never_starts_witness:
  "\<exists>out'. run_command example_ext (\<lambda>_. []) example_host None None (CmdCsi ''unix:///csi.sock'' ''all'' ''n'' ''m'') ([], example_db) =
    (Inl (CliError ''Path not found: tenant not found''), out', example_db\<lparr>d_draws := Suc (d_draws example_db)\<rparr>)"
  by (rule csi_node_never_starts) (simp_all add: example_db_eq)

text \<open>
  C29.  A staged volume is not mounted.  The mount manager reports success once the process has
  been spawned, but gives it the identifier of the tenant where the program expects a name; the
  process fails without mounting, unless some tenant happens to be named by that text.
\<close>

theorem staged_volume_not_mounted:
  assumes "map_of mounts volume_id = None" and "ho_create_dir_all h path"
    and "ho_spawn h (mount_command x t path read_only) = Some child"
    and "list_all (\<lambda>r. tn_name r \<noteq> uuid_to_string x t) (d_tenants d)"
  shows "(\<exists>mounts'. mm_mount x h volume_id t path read_only mounts = (Inr (), mounts') \<and>
      fst (mm_is_mounted volume_id mounts') = Inr True) \<and>
    take 5 (mount_command x t path read_only) = [''tarbox'', ''--tenant'', uuid_to_string x t, ''mount'', path] \<and>
    run_command x disp mp served (Some (uuid_to_string x t)) (CmdMount path False False read_only) (out, d) =
      (Inl (CliError (''Tenant not found: '' @ uuid_to_string x t)), out, d)"
proof -
  have "find (\<lambda>r. tn_name r = uuid_to_string x t) (d_tenants d) = None"
    using assms(4) by (simp add: find_None_iff list_all_iff)
  then have "get_tenant_id x (Some (uuid_to_string x t)) (out, d) =
      (Inl (CliError (''Tenant not found: '' @ uuid_to_string x t)), out, d)"
    by (simp add: get_tenant_id_def tenant_get_by_name_def on_db_def bindE_def del: find_None_conv)
  then show ?thesis
    using assms(1-3)
    by (simp add: run_mount_def mm_mount_def mm_is_mounted_def mount_command_def bindE_def update_conv')
qed

definition example_csi_host :: host where
  "example_csi_host = \<lparr>ho_create_dir_all = \<lambda>_. True, ho_spawn = \<lambda>_. Some 7, ho_kill = \<lambda>_. True, ho_wait = \<lambda>_. True,
     ho_status = \<lambda>_. Some (True, ''exit status: 0'')\<rparr>"

theorem staged_volume_not_mounted_witness:
  "run_command example_ext (\<lambda>_. []) example_host None (Some (uuid_to_string example_ext 0))
     (CmdMount ''/vol'' False False True) ([], empty_db (\<lambda>n. n)) =
   (Inl (CliError (''Tenant not found: '' @ uuid_to_string example_ext 0)), [], empty_db (\<lambda>n. n))"
  using staged_volume_not_mounted [of "[]" "''vol''" example_csi_host "''/vol''" example_ext 0 True 7 "empty_db (\<lambda>n. n)"]
  by (simp add: example_csi_host_def empty_db_def)

end
