(* ===== verification/Interfaces.thy ===== *)
theory Interfaces
  imports FuseAdapter Cli
begin

text \<open>
  All interfaces at work on one database.  A state holds the inode map of the kernel's mount, the
  descriptor table of a WASI program and the shared database; a transition is one call through
  either of them, one call of the volume driver, one command of the command line, or one operation of a
  management client.  The whole is a refinement of the
  transition system of \<open>SystemSteps\<close>: the abstraction forgets the two tables.
\<close>

inductive wasi_call :: "ext \<Rightarrow> wasi_adapter \<times> db \<Rightarrow> wasi_adapter \<times> db \<Rightarrow> bool" for x where
  fd_open: "wasi_call x s (snd (wasi_fd_open checks path flags s))"
| fd_read: "wasi_call x s (snd (wasi_fd_read checks x fd buf s))"
| fd_write: "wasi_call x s (snd (wasi_fd_write checks x fd data s))"
| fd_seek: "wasi_call x s (snd (wasi_fd_seek checks fd offset whence s))"
| fd_close: "wasi_call x s (snd (wasi_fd_close fd s))"
| path_stat: "wasi_call x s (snd (wasi_path_stat path s))"
| create_directory: "wasi_call x s (snd (wasi_path_create_directory path s))"
| remove_directory: "wasi_call x s (snd (wasi_path_remove_directory x path s))"
| unlink_file: "wasi_call x s (snd (wasi_path_unlink_file path s))"
| fd_readdir: "wasi_call x s (snd (wasi_fd_readdir x fd s))"
| close_all: "wasi_call x s (snd (wasi_close_all s))"

lemma follows_step: "follows x snd m \<Longrightarrow> steps x (snd s) (snd (snd (m s)))"
  unfolding follows_def by blast

lemma wasi_call_steps: "wasi_call x s s' \<Longrightarrow> steps x (snd s) (snd s')"
  by (induction rule: wasi_call.induct) (rule follows_step, rule follows_wasi)+

record machine_state =
  ms_inodes :: inode_map
  ms_wasi :: wasi_adapter
  ms_db :: db

inductive client_call :: "ext \<Rightarrow> interface \<Rightarrow> machine_state \<Rightarrow> machine_state \<Rightarrow> bool" for x i where
  kernel: "fuse_call i (ms_inodes s, ms_db s) (m, d) \<Longrightarrow> client_call x i s (s\<lparr>ms_inodes := m, ms_db := d\<rparr>)"
| wasi: "wasi_call x (ms_wasi s, ms_db s) (w, d) \<Longrightarrow> client_call x i s (s\<lparr>ms_wasi := w, ms_db := d\<rparr>)"
| volumes: "csi_call x (ms_db s) d \<Longrightarrow> client_call x i s (s\<lparr>ms_db := d\<rparr>)"
| command_line: "client_call x i s (s\<lparr>ms_db := snd (snd (run_command x disp h served tenant c (out, ms_db s)))\<rparr>)"
| management: "step x (ms_db s) d \<Longrightarrow> client_call x i s (s\<lparr>ms_db := d\<rparr>)"

lemma client_call_steps:
  assumes "client_call x (tarbox_backend checks x b) s s'" and "im_ok (ms_inodes s)"
  shows "im_ok (ms_inodes s') \<and> im_later (ms_inodes s) (ms_inodes s') \<and> steps x (ms_db s) (ms_db s')"
  using assms(1)
proof (cases rule: client_call.cases)
  case (kernel m d)
  with tarbox.fuse_call_serves [OF kernel(2) assms(2)] show ?thesis by simp
next
  case (wasi w d)
  with wasi_call_steps [OF wasi(2)] assms(2) show ?thesis by (simp add: im_later_refl)
next
  case (volumes d)
  with csi_call_steps [OF volumes(2)] assms(2) show ?thesis by (simp add: im_later_refl)
next
  case (command_line disp h served tenant c out)
  with follows_run_command [of x disp h served tenant c] assms(2) show ?thesis
    by (simp add: im_later_refl follows_def)
next
  case (management d)
  with assms(2) show ?thesis by (auto simp: im_later_refl)
qed

lemma client_calls_steps:
  assumes "rtranclp (client_call x (tarbox_backend checks x b)) s s'" and "im_ok (ms_inodes s)"
  shows "im_ok (ms_inodes s') \<and> im_later (ms_inodes s) (ms_inodes s') \<and> steps x (ms_db s) (ms_db s')"
  using assms(1)
proof (induction rule: rtranclp_induct)
  case base
  with assms(2) show ?case by (simp add: im_later_refl)
next
  case (step s1 s2)
  then have "im_ok (ms_inodes s1)" by blast
  with client_call_steps [OF step(2)] step(3) show ?case by (blast intro: im_later_trans rtranclp_trans)
qed

text \<open>
  C4.  Kernel requests through FUSE, calls of a WASI program or of the volume driver, commands and management operations, in any
  order and with any arguments, starting with a fresh inode map on a database that the system can
  reach, lead only to databases that the system can reach.  So the constraints of the
  schema, the shape of the layer graph, the freshness of identifiers and the separation of mounts
  hold after every call through every interface, and the inode map is still one to one.
\<close>

theorem interfaces_refine_system:
  assumes "reachable x e (ms_db s)" and "inj e" and "ms_inodes s = im_new"
    and "rtranclp (client_call x (tarbox_backend checks x b)) s s'"
  shows "reachable x e (ms_db s') \<and> layers_ok (ms_db s') \<and> ids_drawn (ms_db s') \<and> mounts_ok (ms_db s') \<and>
    im_ok (ms_inodes s')"
proof -
  have "im_ok (ms_inodes s') \<and> steps x (ms_db s) (ms_db s')"
    using client_calls_steps [OF assms(4)] by (simp add: assms(3) im_ok_new)
  moreover from this have "reachable x e (ms_db s')" using reachable_steps [OF _ assms(1)] by blast
  ultimately show ?thesis using reachable_core [OF _ assms(2)] by blast
qed

definition example_state :: machine_state where
  "example_state = \<lparr>ms_inodes = im_new, ms_wasi = example_wasi, ms_db = example_file_db\<rparr>"

theorem interfaces_refine_system_witness:
  "let (m, d) = snd (fuse_mkdir (tarbox_backend True example_ext example_backend) 1 ''d'' 0x1ED (im_new, example_file_db));
       (w, d') = snd (wasi_fd_write True example_ext 3 ''data'' (example_wasi, d))
   in layers_ok d' \<and> im_ok m"
proof -
  obtain m d where one: "snd (fuse_mkdir (tarbox_backend True example_ext example_backend) 1 ''d'' 0x1ED (im_new, example_file_db)) = (m, d)"
    by force
  obtain w d' where two: "snd (wasi_fd_write True example_ext 3 ''data'' (example_wasi, d)) = (w, d')" by force
  let ?s = "\<lparr>ms_inodes = m, ms_wasi = example_wasi, ms_db = d\<rparr>"
  let ?s' = "\<lparr>ms_inodes = m, ms_wasi = w, ms_db = d'\<rparr>"
  have "client_call example_ext (tarbox_backend True example_ext example_backend) example_state ?s"
    using client_call.kernel [of "tarbox_backend True example_ext example_backend" example_state m d]
      fuse_call.mkdir [of "tarbox_backend True example_ext example_backend" "(im_new, example_file_db)" 1 "''d''" "0x1ED", unfolded one]
    by (simp add: example_state_def)
  moreover have "client_call example_ext (tarbox_backend True example_ext example_backend) ?s ?s'"
    using client_call.wasi [of example_ext ?s w d' "tarbox_backend True example_ext example_backend"]
      wasi_call.fd_write [of example_ext "(example_wasi, d)" True 3 "''data''", unfolded two] by simp
  ultimately have calls: "rtranclp (client_call example_ext (tarbox_backend True example_ext example_backend)) example_state ?s'"
    by (meson converse_rtranclp_into_rtranclp r_into_rtranclp)
  have "layers_ok (ms_db ?s') \<and> im_ok (ms_inodes ?s')"
    using interfaces_refine_system [OF _ _ _ calls, of "\<lambda>n. n"] example_file_reachable
    by (simp add: example_state_def)
  with one two show ?thesis by simp
qed

end
