(* ===== verification/TreeTypes.thy ===== *)
theory TreeTypes
  imports SystemSteps
begin

text \<open>
  The type invariant of the tree of files: whatever has a parent has it in its own tenant, the
  parent is a directory, and it is older.  No constraint of the schema says that a parent is a
  directory; the operations do.
\<close>

definition typed_parent :: "inode list \<Rightarrow> inode \<Rightarrow> bool" where
  "typed_parent is r \<longleftrightarrow>
     (case ino_parent_id r of
        None \<Rightarrow> True
      | Some i \<Rightarrow> i < ino_id r \<and> list_ex (\<lambda>p. inode_key p = (ino_tenant_id r, i) \<and> ino_type p = Dir) is)"

definition tree_typed :: "db \<Rightarrow> bool" where
  "tree_typed d \<longleftrightarrow> layers_ok d \<and> list_all (typed_parent (d_inodes d)) (d_inodes d)"

lemma tree_typedD:
  assumes "tree_typed d" "r \<in> set (d_inodes d)" "ino_parent_id r = Some i"
  shows "i < ino_id r" and "\<exists>p \<in> set (d_inodes d). inode_key p = (ino_tenant_id r, i) \<and> ino_type p = Dir"
  using assms by (auto simp: tree_typed_def list_all_iff list_ex_iff typed_parent_def)

lemma preserves_typed_frame:
  assumes "preserves layers_ok m" and "\<And>d. d_inodes (snd (m d)) = d_inodes d"
  shows "preserves tree_typed m"
  using assms by (simp add: preserves_def tree_typed_def)

lemma typed_parent_mono:
  "set is \<subseteq> set js \<Longrightarrow> typed_parent is r \<Longrightarrow> typed_parent js r"
  by (auto simp: typed_parent_def list_ex_iff split: option.splits)

section \<open>Deleting a subtree\<close>

text \<open>The recursive deletion reaches every descendant: the ids of the generations grow.\<close>

definition children_of :: "inode list \<Rightarrow> uuid \<Rightarrow> int list \<Rightarrow> int list" where
  "children_of is t ids = map ino_id (filter (\<lambda>i. ino_tenant_id i = t \<and>
     (case ino_parent_id i of None \<Rightarrow> False | Some p \<Rightarrow> p \<in> set ids)) is)"

lemma in_children_of:
  "k \<in> set (children_of is t ids) \<longleftrightarrow>
     (\<exists>r \<in> set is. ino_tenant_id r = t \<and> ino_id r = k \<and> (\<exists>p \<in> set ids. ino_parent_id r = Some p))"
  by (auto simp: children_of_def split: option.splits)

lemma subtree_Suc:
  "subtree_ids (Suc n) is t ids =
     (let kids = children_of is t ids in if kids = [] then ids else ids @ subtree_ids n is t kids)"
  by (simp add: children_of_def)

definition above :: "inode list \<Rightarrow> uuid \<Rightarrow> int \<Rightarrow> inode set" where
  "above is t a = {r \<in> set is. ino_tenant_id r = t \<and> a < ino_id r}"

lemma subtree_closed:
  assumes older: "\<And>r p. r \<in> set is \<Longrightarrow> ino_parent_id r = Some p \<Longrightarrow> p < ino_id r"
    and "ids \<noteq> []" and "card (above is t (Min (set ids))) \<le> n"
    and "r \<in> set is" "ino_tenant_id r = t" "ino_parent_id r = Some p" "p \<in> set (subtree_ids n is t ids)"
  shows "ino_id r \<in> set (subtree_ids n is t ids)"
  using assms(2-)
proof (induction n arbitrary: ids)
  case 0
  have "Min (set ids) \<le> p" using 0 by simp
  also have "p < ino_id r" by (rule older [OF 0(3,5)])
  finally have "r \<in> above is t (Min (set ids))" using 0 by (simp add: above_def)
  moreover have "finite (above is t (Min (set ids)))" by (simp add: above_def)
  ultimately show ?case using 0(2) by auto
next
  case (Suc n)
  let ?kids = "children_of is t ids"
  show ?case
  proof (cases "?kids = []")
    case True
    then have "p \<in> set ids" using Suc.prems(6) by (simp add: subtree_Suc del: subtree_ids.simps)
    then have "ino_id r \<in> set ?kids" using Suc.prems(3-5) by (auto simp: in_children_of)
    with True show ?thesis by simp
  next
    case False
    have res: "set (subtree_ids (Suc n) is t ids) = set ids \<union> set (subtree_ids n is t ?kids)"
      using False by (simp add: subtree_Suc Let_def del: subtree_ids.simps)
    have "Min (set ?kids) \<in> set ?kids" using False by simp
    then obtain q where q: "q \<in> set is" "ino_tenant_id q = t" "ino_id q = Min (set ?kids)"
      "\<exists>p \<in> set ids. ino_parent_id q = Some p" by (auto simp: in_children_of)
    then have lt: "Min (set ids) < ino_id q" using older [of q]
      by (metis List.finite_set Min_le order_le_less_trans)
    then have "above is t (Min (set ?kids)) \<subseteq> above is t (Min (set ids))" "q \<in> above is t (Min (set ids))"
      "q \<notin> above is t (Min (set ?kids))" using q by (auto simp: above_def)
    moreover have "finite (above is t (Min (set ids)))" by (simp add: above_def)
    ultimately have "card (above is t (Min (set ?kids))) < card (above is t (Min (set ids)))"
      by (intro psubset_card_mono) auto
    then have small: "card (above is t (Min (set ?kids))) \<le> n" using Suc.prems(2) by simp
    show ?thesis
    proof (cases "p \<in> set ids")
      case True
      then have "ino_id r \<in> set ?kids" using Suc.prems(3-5) by (auto simp: in_children_of)
      then show ?thesis using res subtree_start [of ?kids n "is" t] by auto
    next
      case False
      then have "p \<in> set (subtree_ids n is t ?kids)" using Suc.prems(6) res by simp
      from Suc.IH [OF \<open>?kids \<noteq> []\<close> small Suc.prems(3-5) this] res show ?thesis by simp
    qed
  qed
qed

lemma typed_delete_inode_rows:
  assumes "tree_typed d"
  shows "list_all (typed_parent (d_inodes (delete_inode_rows t i d))) (d_inodes (delete_inode_rows t i d))"
proof (cases "exists_row (\<lambda>r. inode_key r = (t, i)) (d_inodes d)")
  case False
  then have "d_inodes (delete_inode_rows t i d) = d_inodes d"
    by (simp add: delete_inode_rows_inodes delete_rows_def)
  with assms show ?thesis by (simp add: tree_typed_def)
next
  case True
  let ?is = "d_inodes d" let ?D = "set (subtree_ids (length ?is) ?is t [i])"
  have rows: "r \<in> set (d_inodes (delete_inode_rows t i d)) \<longleftrightarrow> r \<in> set ?is \<and> \<not> (ino_tenant_id r = t \<and> ino_id r \<in> ?D)" for r
    using True by (simp add: delete_inode_rows_inodes delete_rows_def)
  have small: "card (above ?is t (Min (set [i]))) \<le> length ?is"
    by (rule order_trans [OF card_mono card_length]) (auto simp: above_def)
  have closed: "ino_id r \<in> ?D" if "r \<in> set ?is" "ino_tenant_id r = t" "ino_parent_id r = Some p" "p \<in> ?D" for r p
    by (rule subtree_closed [OF _ _ small that]) (simp_all add: tree_typedD(1) [OF assms])
  have "typed_parent (d_inodes (delete_inode_rows t i d)) r" if r: "r \<in> set (d_inodes (delete_inode_rows t i d))" for r
  proof (cases "ino_parent_id r")
    case (Some p)
    have in_is: "r \<in> set ?is" using r rows by simp
    obtain q where q: "q \<in> set ?is" "inode_key q = (ino_tenant_id r, p)" "ino_type q = Dir"
      using tree_typedD(2) [OF assms in_is Some] by blast
    have "ino_id r \<in> ?D" if "ino_tenant_id q = t" "ino_id q \<in> ?D"
      using closed [OF in_is _ Some] that q(2) by (simp add: inode_key_def)
    then have "q \<in> set (d_inodes (delete_inode_rows t i d))" using q r rows by (auto simp: inode_key_def)
    with q tree_typedD(1) [OF assms in_is Some] Some show ?thesis
      by (auto simp: typed_parent_def list_ex_iff)
  qed (simp add: typed_parent_def)
  then show ?thesis by (simp add: list_all_iff)
qed

lemma typed_inode_delete [preserves_rules]: "preserves tree_typed (inode_delete t i)"
proof (rule preservesI)
  fix d assume ok: "tree_typed d"
  have "layers_ok (snd (inode_delete t i d))"
    by (rule preservesD [of layers_ok]) (intro preserves_rules, use ok in \<open>simp add: tree_typed_def\<close>)
  with typed_delete_inode_rows [OF ok] show "tree_typed (snd (inode_delete t i d))"
    by (simp add: tree_typed_def inode_delete_def)
qed

section \<open>The other operations leave the inodes alone\<close>

lemma inodes_basic [preserves_rules]:
  "preserves (\<lambda>d. d_inodes d = v) new_v4" "preserves (\<lambda>d. d_inodes d = v) now"
  "preserves (\<lambda>d. d_inodes d = v) (block_delete t i)" "preserves (\<lambda>d. d_inodes d = v) (block_create x cb)"
  "preserves (\<lambda>d. d_inodes d = v) (layer_create inp)"
  "preserves (\<lambda>d. d_inodes d = v) (layer_set_current_layer t l)"
  "preserves (\<lambda>d. d_inodes d = v) (layer_freeze_working l n descr)"
  "preserves (\<lambda>d. d_inodes d = v) (lm_set_layer_readonly t l b)"
  "preserves (\<lambda>d. d_inodes d = v) (layer_add_entry e)"
  "preserves (\<lambda>d. d_inodes d = v) (layer_delete t l)"
  "preserves (\<lambda>d. d_inodes d = v) (modify (delete_text_lines P))"
  "preserves (\<lambda>d. d_inodes d = v) (modify (delete_text_meta Q))"
  "preserves (\<lambda>d. d_inodes d = v) (text_create_metadata m)"
  by (rule preservesI;
      simp add: new_v4_def now_def block_delete_def block_create_def layer_create_def layer_set_current_layer_def
        layer_freeze_working_def lm_set_layer_readonly_def layer_add_entry_def layer_delete_def
        text_create_metadata_def Let_def bindE_def split: option.split)+

lemma inodes_text [preserves_rules]:
  "preserves (\<lambda>d. d_inodes d = v) (text_create_line_mappings t i l ms)"
  "preserves (\<lambda>d. d_inodes d = v) (store_line x enc c)"
proof -
  have "d_inodes d' = d_inodes d" if "text_insert_lines rs d = Inr d'" for rs d d'
    using text_insert_lines_InrD(3) [OF that] by auto
  then have "d_inodes (snd (text_create_line_mappings t i l ms d)) = d_inodes d" for d
    by (metis create_mappings_cases)
  then show "preserves (\<lambda>d. d_inodes d = v) (text_create_line_mappings t i l ms)" by (simp add: preserves_def)
  have "other_tables (snd (store_line x enc c d)) = other_tables d" for d
    by (rule preservesD [OF preserves_store_line refl])
  from other_tables_frame [OF this] show "preserves (\<lambda>d. d_inodes d = v) (store_line x enc c)"
    by (simp add: preserves_def)
qed

lemma inodes_cow [preserves_rules]: "preserves (\<lambda>d. d_inodes d = v) (cow_write_file x h i data old)"
  unfolding cow_write_file_def cow_write_text_file_def cow_write_binary_file_def cow_delete_old_text_def Let_def
  by (auto intro!: preserves_rules split: file_type_info.split)

lemma inodes_manager [preserves_rules]:
  "preserves (\<lambda>d. d_inodes d = v) (lm_initialize_base_layer t)"
  "preserves (\<lambda>d. d_inodes d = v) (lm_create_checkpoint_with_confirm t name descr c)"
  "preserves (\<lambda>d. d_inodes d = v) (lm_switch_to_layer t l)"
  "preserves (\<lambda>d. d_inodes d = v) (lm_delete_layer t l)"
  "preserves (\<lambda>d. d_inodes d = v) (lm_record_change t i p ct sd tc)"
  unfolding lm_initialize_base_layer_def lm_create_checkpoint_with_confirm_def
    lm_switch_to_layer_def lm_delete_layer_def lm_record_change_def lm_checkpoint_from_def lm_push_layer_def
    lm_delete_futures_def lm_get_current_layer_def layer_get_current_layer_def layer_get_def
  by (auto intro!: preserves_rules reads_preserves [OF reads_future] split: option.split)

lemma inodes_chains [preserves_rules]:
  "preserves (\<lambda>d. d_inodes d = v) (layer_create_snapshot x m name descr)"
  "preserves (\<lambda>d. d_inodes d = v) (chain_initialize x t m)"
  "preserves (\<lambda>d. d_inodes d = v) (chain_snapshot x t n name descr)"
  unfolding layer_create_snapshot_def chain_initialize_def chain_snapshot_def layer_create_initial_layers_def
    layer_get_working_layer_def
  by (intro preserves_rules)+

lemma inodes_mount_basic [preserves_rules]:
  "preserves (\<lambda>d. d_inodes d = v) (insert_mount t input)"
  "preserves (\<lambda>d. d_inodes d = v) (mount_update x m u)"
  "preserves (\<lambda>d. d_inodes d = v) (delete_mounts P)"
  "preserves (\<lambda>d. d_inodes d = v) (publish_unpublish_mount m)"
  "preserves (\<lambda>d. d_inodes d = v) (publish_update x p pu)"
  "preserves (\<lambda>d. d_inodes d = v) (publish_add_allowed_tenant p t)"
  "preserves (\<lambda>d. d_inodes d = v) (publish_remove_allowed_tenant p t)"
  by (rule preservesI;
      simp add: insert_mount_eq mount_update_def delete_mounts_def publish_unpublish_mount_def publish_update_def
        allow_list_changes now_def bindE_def Let_def split: option.split)+

lemma inodes_validate [preserves_rules]: "preserves (\<lambda>d. d_inodes d = v) (validate_entries t temp es)"
  by (induction es arbitrary: temp) (auto intro!: preserves_rules)

lemma inodes_publish_mount [preserves_rules]: "preserves (\<lambda>d. d_inodes d = v) (publish_mount x input)"
proof (rule preservesI)
  fix d :: db
  assume "d_inodes d = v"
  then show "d_inodes (snd (publish_mount x input d)) = v"
    by (cases rule: publish_mount_cases [of d input x]) auto
qed

lemma inodes_mounts [preserves_rules]:
  "preserves (\<lambda>d. d_inodes d = v) (mount_create x t input)"
  "preserves (\<lambda>d. d_inodes d = v) (mount_delete m)"
  "preserves (\<lambda>d. d_inodes d = v) (mount_set_entries t es)"
  "preserves (\<lambda>d. d_inodes d = v) (publisher_publish x t n pub)"
  "preserves (\<lambda>d. d_inodes d = v) (publisher_unpublish x t n)"
proof -
  have "preserves (\<lambda>d. d_inodes d = v) (mount_list x t)"
    by (rule preservesI) (simp add: mount_list_def)
  then show "preserves (\<lambda>d. d_inodes d = v) (mount_create x t input)"
    unfolding mount_create_def mount_check_path_conflict_def Let_def by (intro preserves_rules)
  have "preserves (\<lambda>d. d_inodes d = v) (transaction (replace_mounts t es))"
    by (rule preserves_transaction) (intro preserves_rules, simp)
  then show "preserves (\<lambda>d. d_inodes d = v) (mount_set_entries t es)"
    unfolding mount_set_entries_def by (intro preserves_rules)
qed (unfold mount_delete_def publisher_publish_def publisher_unpublish_def, (intro preserves_rules)+)

section \<open>The operations on the tree\<close>

text \<open>Only the key and the type of the rows matter, which an update keeps.\<close>

definition inode_kind :: "inode \<Rightarrow> (uuid \<times> int) \<times> inode_type" where
  "inode_kind r = (inode_key r, ino_type r)"

lemma typed_parent_kinds:
  "typed_parent is r \<longleftrightarrow>
     (case ino_parent_id r of
        None \<Rightarrow> True
      | Some i \<Rightarrow> i < ino_id r \<and> ((ino_tenant_id r, i), Dir) \<in> set (map inode_kind is))"
  by (auto simp: typed_parent_def list_ex_iff inode_kind_def image_iff split: option.split) metis+

lemma inode_kind_apply [simp]: "inode_kind (apply_update u r) = inode_kind r"
  by (simp add: inode_kind_def apply_update_def inode_key_def)

lemma typed_apply_update:
  "typed_parent (update_rows P (apply_update u) is) r = typed_parent is r"
  "typed_parent is (apply_update u r) = typed_parent is r"
proof -
  have "map inode_kind (update_rows P (apply_update u) is) = map inode_kind is"
    by (simp add: map_update_rows_same)
  then show "typed_parent (update_rows P (apply_update u) is) r = typed_parent is r"
    by (simp only: typed_parent_kinds)
  show "typed_parent is (apply_update u r) = typed_parent is r"
    by (simp add: typed_parent_kinds apply_update_def split: option.split)
qed

lemma typed_inode_update [preserves_rules]: "preserves tree_typed (inode_update t i u)"
proof (rule preservesI)
  fix d assume ok: "tree_typed d"
  have "layers_ok (snd (inode_update t i u d))"
    by (rule preservesD [of layers_ok]) (intro preserves_rules, use ok in \<open>simp add: tree_typed_def\<close>)
  moreover have "list_all (typed_parent (update_rows P (apply_update u) (d_inodes d)))
      (update_rows P (apply_update u) (d_inodes d))" for P
    using ok by (auto simp: tree_typed_def list_all_iff set_update_rows typed_apply_update)
  ultimately show "tree_typed (snd (inode_update t i u d))"
    using ok by (auto simp: tree_typed_def inode_update_def split: option.split)
qed

lemma typed_append:
  assumes "list_all (typed_parent is) is" and "typed_parent is r"
  shows "list_all (typed_parent (is @ [r])) is \<and> typed_parent (is @ [r]) r"
  using assms typed_parent_mono [of "is" "is @ [r]"] by (auto simp: list_all_iff)

lemma typed_tenant_create [preserves_rules]: "preserves tree_typed (tenant_create n)"
proof (rule preservesI)
  fix d assume ok: "tree_typed d"
  have "layers_ok (snd (tenant_create n d))"
    by (rule preservesD [of layers_ok]) (intro preserves_rules, use ok in \<open>simp add: tree_typed_def\<close>)
  moreover have "typed_parent is r" if "ino_parent_id r = None" for "is" r
    using that by (simp add: typed_parent_def)
  ultimately show "tree_typed (snd (tenant_create n d))"
    using ok typed_append [of "d_inodes d"]
    by (simp add: tree_typed_def tenant_create_def bindE_def new_v4_def now_def Let_def)
qed

lemma typed_tenant_delete [preserves_rules]: "preserves tree_typed (tenant_delete t)"
proof (rule preservesI)
  fix d assume ok: "tree_typed d"
  let ?is = "filter (\<lambda>r. ino_tenant_id r \<noteq> t) (d_inodes d)"
  have layers: "layers_ok (snd (tenant_delete t d))"
    by (rule preservesD [of layers_ok]) (intro preserves_rules, use ok in \<open>simp add: tree_typed_def\<close>)
  have "typed_parent ?is r" if "r \<in> set (d_inodes d)" "ino_tenant_id r \<noteq> t" for r
    using tree_typedD [OF ok that(1)] that(2)
    by (auto simp: typed_parent_def list_ex_iff inode_key_def split: option.split) metis
  then have kept: "list_all (typed_parent ?is) ?is" by (simp add: list_all_iff)
  show "tree_typed (snd (tenant_delete t d))"
  proof (cases rule: tenant_delete_cases [of t d])
    case unchanged
    with ok show ?thesis by simp
  next
    case (deleted d1 n)
    have "d_inodes (snd (delete_mounts (\<lambda>m. mr_tenant_id m = t)
        (delete_layer_rows (\<lambda>l. ly_tenant_id l = t) (delete_tenant_rows t d)))) = ?is"
      by (rule preservesD [OF inodes_mount_basic(3)]) (simp add: delete_tenant_rows_def delete_rows_def)
    then have "d_inodes (snd (tenant_delete t d)) = ?is" by (simp add: deleted(2,3))
    with kept layers show ?thesis by (simp add: tree_typed_def)
  qed
qed

lemma typed_create_child:
  assumes "tree_typed d" and "tree fs d cs = Some par" and "ino_type par = Dir"
    and "ci_tenant_id inp = fs_tenant_id fs" and "ci_parent_id inp = Some (ino_id par)"
  shows "tree_typed (snd (inode_create inp d))"
proof -
  have wf: "layers_ok (snd (inode_create inp d))"
    by (rule preservesD [of layers_ok]) (intro preserves_rules, use assms(1) in \<open>simp add: tree_typed_def\<close>)
  obtain res d' where c: "inode_create inp d = (res, d')" by force
  have par: "par \<in> set (d_inodes d)" "ino_tenant_id par = fs_tenant_id fs" using tree_SomeD [OF assms(2)] by auto
  have "ino_id par < d_inode_seq d" using assms(1) par(1) by (simp add: tree_typed_def layers_ok_def wf_db_def wf_inodes_def)
  then have new: "typed_parent (d_inodes d) r" if "ino_id r = d_inode_seq d" "ino_tenant_id r = fs_tenant_id fs"
    "ino_parent_id r = Some (ino_id par)" for r
    using that par assms(3) by (auto simp: typed_parent_def list_ex_iff inode_key_def)
  show ?thesis
  proof (cases res)
    case (Inl e)
    with c wf assms(1) inode_create_InlD [of inp d e d'] show ?thesis by (simp add: tree_typed_def)
  next
    case (Inr row)
    note row = inode_create_InrD [OF c [unfolded Inr]]
    have "typed_parent (d_inodes d) row" by (rule new) (simp_all add: row(1) assms)
    with c wf assms(1) row(2) typed_append show ?thesis by (simp add: tree_typed_def)
  qed
qed

lemma typed_create_node [preserves_rules]: "preserves tree_typed (fs_create_node ty mode fs path)"
proof (rule preservesI)
  fix d assume ok: "tree_typed d"
  show "tree_typed (snd (fs_create_node ty mode fs path d))"
  proof (cases "split_path path")
    case (Inl e)
    with ok show ?thesis by (simp add: fs_create_node_def bindE_def)
  next
    case (Inr pn)
    obtain pp name where pn: "pn = (pp, name)" by force
    show ?thesis
    proof (cases "\<exists>par. fs_resolve_path fs pp d = (Inr par, d) \<and> ino_type par = Dir")
      case False
      then show ?thesis using ok Inr pn
        by (auto simp: fs_create_node_def bindE_def fs_resolve_path_eq split: sum.splits option.splits)
    next
      case True
      then obtain par where par: "fs_resolve_path fs pp d = (Inr par, d)" "ino_type par = Dir" by blast
      then have "tree fs d (path_parts pp) = Some par"
        by (simp add: fs_resolve_path_eq split: sum.splits option.splits)
      from typed_create_child [OF ok this par(2)] have
        "tree_typed (snd (inode_create \<lparr>ci_tenant_id = fs_tenant_id fs, ci_parent_id = Some (ino_id par),
           ci_name = name, ci_type = ty, ci_mode = mode, ci_uid = 0, ci_gid = 0\<rparr> d))" by simp
      with ok Inr pn par show ?thesis
        by (simp add: fs_create_node_def bindE_def inode_get_by_parent_and_name_def db_err_def map_err_def split_beta
            del: find_None_conv split: sum.split)
    qed
  qed
qed

text \<open>An operation that keeps the schema and the inodes keeps their types.\<close>

lemma preserves_typed_rows:
  assumes "preserves layers_ok m" and "\<And>v. preserves (\<lambda>d. d_inodes d = v) m"
  shows "preserves tree_typed m"
  by (rule preserves_typed_frame [OF assms(1)]) (rule preservesD [OF assms(2) refl])

lemma typed_rows [preserves_rules]:
  "preserves tree_typed now" "preserves tree_typed new_v4" "preserves tree_typed (block_delete t i)"
  "preserves tree_typed (cow_write_file x h i data old)" "preserves tree_typed (lm_record_change t i path ct sd tc)"
  "preserves tree_typed (lm_initialize_base_layer t)"
  "preserves tree_typed (lm_create_checkpoint_with_confirm t name descr c)"
  "preserves tree_typed (lm_switch_to_layer t l)" "preserves tree_typed (lm_delete_layer t l)"
  "preserves tree_typed (layer_create_snapshot x m name descr)"
  "preserves tree_typed (chain_initialize x t m)" "preserves tree_typed (chain_snapshot x t n name descr)"
  "preserves tree_typed (mount_create x t input)" "preserves tree_typed (mount_update x m mu)"
  "preserves tree_typed (mount_delete m)" "preserves tree_typed (mount_set_entries t es)"
  "preserves tree_typed (publisher_publish x t n pub)" "preserves tree_typed (publisher_unpublish x t n)"
  "preserves tree_typed (publish_update x p pu)" "preserves tree_typed (publish_add_allowed_tenant p t)"
  "preserves tree_typed (publish_remove_allowed_tenant p t)"
  by (rule preserves_typed_rows; intro preserves_rules)+

lemma typed_volumes [preserves_rules]:
  "preserves tree_typed (create_tenant_from_pvc x ns n)" "preserves tree_typed (delete_tenant_for_volume x v)"
  "preserves tree_typed (snapshot_create x t n)" "preserves tree_typed (snapshot_delete t l)"
  "preserves tree_typed (snapshot_restore x t l)"
proof -
  have "preserves tree_typed (layer_create (pvc_base_layer ns n t))" for t
    by (rule preserves_typed_rows; intro preserves_rules)
  then show "preserves tree_typed (create_tenant_from_pvc x ns n)"
    unfolding create_tenant_from_pvc_def tenant_get_by_name_def Let_def by (intro preserves_rules)
  show "preserves tree_typed (delete_tenant_for_volume x v)"
    unfolding delete_tenant_for_volume_def by (intro preserves_rules)
  have frames: "preserves (\<lambda>d. d_inodes d = v) (snapshot_create x t n)" "preserves (\<lambda>d. d_inodes d = v) (snapshot_delete t l)"
    "preserves (\<lambda>d. d_inodes d = v) (snapshot_restore x t l)" for v
    unfolding snapshot_create_def snapshot_delete_def snapshot_restore_def layer_get_current_layer_def layer_get_def
    by (intro preserves_rules)+
  show "preserves tree_typed (snapshot_create x t n)" by (rule preserves_typed_rows [OF _ frames(1)]) (intro preserves_rules)
  show "preserves tree_typed (snapshot_delete t l)" by (rule preserves_typed_rows [OF _ frames(2)]) (intro preserves_rules)
  show "preserves tree_typed (snapshot_restore x t l)" by (rule preserves_typed_rows [OF _ frames(3)]) (intro preserves_rules)
qed

lemma typed_fs [preserves_rules]:
  "preserves tree_typed (fs_write_file x fs path data)"
  "preserves tree_typed (fs_delete_file fs path)"
  "preserves tree_typed (fs_remove_directory x fs path)"
  "preserves tree_typed (fs_chmod fs path m)"
  "preserves tree_typed (fs_chown fs path u g)"
  "preserves tree_typed (fs_new t)"
  unfolding fs_write_file_def fs_delete_file_def fs_remove_directory_def fs_chmod_def lm_get_current_layer_def
    layer_get_current_layer_def layer_get_def
    fs_chown_def fs_new_def inode_get_by_parent_and_name_def inode_list_children_def db_err_gets tenant_get_by_id_def
  by (auto intro!: preserves_rules split: prod.split option.split)

lemma step_tree_typed: "step x d d' \<Longrightarrow> tree_typed d \<Longrightarrow> tree_typed d'"
  by (induction rule: step.induct) (rule preservesD [of tree_typed], intro preserves_rules, assumption)+

text \<open>
  C5.  The tree of files is well typed in every reachable state: an inode with a parent has it in
  its own tenant, the parent is a directory, and the parent is the older of the two, so the parents form no
  cycle.  No constraint of the schema says so; the operations keep it, failed ones included.
\<close>

theorem reachable_tree_typed:
  assumes "reachable x e d"
  shows "list_all (typed_parent (d_inodes d)) (d_inodes d)"
proof -
  have "tree_typed d"
    using assms
  proof (induction rule: reachable.induct)
    case start
    show ?case using layers_ok_empty by (simp add: tree_typed_def empty_db_def)
  next
    case (more d d')
    then show ?case using step_tree_typed by blast
  qed
  then show ?thesis by (simp add: tree_typed_def)
qed

theorem reachable_tree_typed_witness:
  "list_all (typed_parent (d_inodes example_file_db)) (d_inodes example_file_db)"
  by (rule reachable_tree_typed [OF example_file_reachable [of example_ext]])

end
