(* ===== verification/AuditLogs.thy ===== *)
theory AuditLogs
  imports Mounts Complex_Main
begin

text \<open>
  The audit log: \<open>src/src/storage/audit.rs\<close> on the table of
  \<open>src/migrations/20260118000002_create_audit_logs.sql\<close>.  The table refers to tenants and inodes, so
  the state is the table beside the database.  A date is a number of days since 1970, a time a number of
  nanoseconds.
\<close>

section \<open>Rows and inputs\<close>

record create_audit_log_input =
  ca_tenant_id :: uuid
  ca_inode_id :: "int option"
  ca_operation :: str
  ca_uid :: int
  ca_gid :: int
  ca_pid :: "int option"
  ca_path :: str
  ca_success :: bool
  ca_error_code :: "int option"
  ca_error_message :: "str option"
  ca_bytes_read :: "int option"
  ca_bytes_written :: "int option"
  ca_duration_ms :: "int option"
  ca_text_changes :: "json option"
  ca_is_native_mount :: bool
  ca_native_source_path :: "str option"
  ca_metadata :: "json option"

record audit_log =
  al_log_id :: int
  al_input :: create_audit_log_input
  al_created_at :: timestamp
  al_log_date :: nat

text \<open>The columns of a log that are those of its input.\<close>

abbreviation al_tenant_id :: "audit_log \<Rightarrow> uuid" where "al_tenant_id l \<equiv> ca_tenant_id (al_input l)"
abbreviation al_inode_id :: "audit_log \<Rightarrow> int option" where "al_inode_id l \<equiv> ca_inode_id (al_input l)"

record query_audit_logs_input =
  qa_tenant_id :: uuid
  qa_start_time :: "timestamp option"
  qa_end_time :: "timestamp option"
  qa_operation :: "str option"
  qa_uid :: "int option"
  qa_path_pattern :: "str option"
  qa_success :: "bool option"
  qa_limit :: "int option"

text \<open>The average is exact; the rounding of \<open>DOUBLE PRECISION\<close> is not modelled.\<close>

record audit_stats =
  as_total_operations :: nat
  as_successful_operations :: nat
  as_failed_operations :: nat
  as_total_bytes_read :: int
  as_total_bytes_written :: int
  as_avg_duration_ms :: "rat option"

record audit_table =
  at_logs :: "audit_log list"
  at_seq :: int
  at_partitions :: "(nat \<times> nat) list"

datatype audit_error = AuditDb db_error | NotNullViolation | NumericOutOfRange | NegativeLimit

type_synonym 'a audit_op = "(audit_table \<times> db, audit_error, 'a) op"

text \<open>The migration makes one partition for each of the first three months of 2026, and no default.\<close>

definition new_audit_table :: audit_table where
  "new_audit_table = \<lparr>at_logs = [], at_seq = 1,
     at_partitions = [(20454, 20485), (20485, 20513), (20513, 20544)]\<rparr>"

definition day_of :: "timestamp \<Rightarrow> nat" where
  "day_of t = t div (24 * 60 * 60 * 10 ^ 9)"

definition audit_now :: "timestamp audit_op" where
  "audit_now = (\<lambda>(a, d). (Inr (d_clock d), a, d\<lparr>d_clock := Suc (d_clock d)\<rparr>))"

section \<open>Insertion\<close>

text \<open>
  One \<open>INSERT\<close>: the sequence is advanced in any case; then the length of the operation, the
  partition of the date, the primary key and the foreign keys are checked.
\<close>

definition audit_log_error :: "audit_table \<Rightarrow> db \<Rightarrow> nat \<Rightarrow> create_audit_log_input \<Rightarrow> db_error option" where
  "audit_log_error a d log_date inp =
     (if \<not> varchar 50 (ca_operation inp) then Some ValueTooLong
      else if \<not> list_ex (\<lambda>(first, after). first \<le> log_date \<and> log_date < after) (at_partitions a) then Some CheckViolation
      else if exists_row (\<lambda>l. al_tenant_id l = ca_tenant_id inp \<and> al_log_id l = at_seq a \<and> al_log_date l = log_date)
        (at_logs a) then Some UniqueViolation
      else if \<not> exists_row (\<lambda>r. tn_id r = ca_tenant_id inp) (d_tenants d) then Some ForeignKeyViolation
      else case ca_inode_id inp of
        None \<Rightarrow> None
      | Some i \<Rightarrow>
          if exists_row (\<lambda>r. inode_key r = (ca_tenant_id inp, i)) (d_inodes d) then None
          else Some ForeignKeyViolation)"

definition audit_insert :: "timestamp \<Rightarrow> nat \<Rightarrow> create_audit_log_input \<Rightarrow> audit_log audit_op" where
  "audit_insert created log_date inp = (\<lambda>(a, d).
     let row = \<lparr>al_log_id = at_seq a, al_input = inp, al_created_at = created, al_log_date = log_date\<rparr>;
         a' = a\<lparr>at_seq := at_seq a + 1\<rparr>
     in case audit_log_error a d log_date inp of
          Some e \<Rightarrow> (Inl (AuditDb e), a', d)
        | None \<Rightarrow> (Inr row, a'\<lparr>at_logs := at_logs a @ [row]\<rparr>, d))"

definition audit_create :: "create_audit_log_input \<Rightarrow> audit_log audit_op" where
  "audit_create inp =
     bindE audit_now (\<lambda>t. let log_date = day_of t in
     bindE audit_now (\<lambda>created. audit_insert created log_date inp))"

definition audit_transaction :: "'a audit_op \<Rightarrow> 'a audit_op" where
  "audit_transaction m = (\<lambda>(a, d).
     case m (a, d) of
       (Inr r, s) \<Rightarrow> (Inr r, s)
     | (Inl e, a', d') \<Rightarrow> (Inl e, a\<lparr>at_seq := at_seq a'\<rparr>, d\<lparr>d_clock := d_clock d'\<rparr>))"

fun audit_insert_each :: "timestamp \<Rightarrow> nat \<Rightarrow> create_audit_log_input list \<Rightarrow> nat \<Rightarrow> nat audit_op" where
  "audit_insert_each created log_date [] inserted = ret inserted"
| "audit_insert_each created log_date (inp # inps) inserted =
     bindE (audit_insert created log_date inp) (\<lambda>_. audit_insert_each created log_date inps (inserted + 1))"

text \<open>\<open>CURRENT_TIMESTAMP\<close> is the time at which the transaction began.\<close>

definition audit_batch_create :: "create_audit_log_input list \<Rightarrow> nat audit_op" where
  "audit_batch_create inputs =
     (if inputs = [] then ret 0
      else audit_transaction
        (bindE audit_now (\<lambda>created.
         bindE audit_now (\<lambda>t. audit_insert_each created (day_of t) inputs 0))))"

section \<open>Queries\<close>

text \<open>
  The statement of a query is built at run time: a condition for each criterion given, with the number of its
  placeholder, and in a second pass the values in the order in which the placeholders were
  numbered.  The constructors stand for \<open>created_at >= $n\<close>, \<open>created_at <= $n\<close>, \<open>operation = $n\<close>, \<open>uid = $n\<close>,
  \<open>path LIKE $n\<close> and \<open>success = $n\<close>.
\<close>

datatype audit_cond =
  CreatedFrom nat | CreatedTo nat | OperationIs nat | UidIs nat | PathLike nat | SuccessIs nat

datatype sql_param = PUuid uuid | PTime timestamp | PText str | PInt int | PBool bool

definition push_cond :: "'a option \<Rightarrow> (nat \<Rightarrow> audit_cond) \<Rightarrow> nat \<times> audit_cond list \<Rightarrow> nat \<times> audit_cond list" where
  "push_cond field cond s =
     (let (param_count, conditions) = s in
      if field \<noteq> None then (param_count + 1, conditions @ [cond param_count]) else (param_count, conditions))"

definition audit_conditions :: "query_audit_logs_input \<Rightarrow> nat \<times> audit_cond list" where
  "audit_conditions inp =
     push_cond (qa_success inp) SuccessIs
     (push_cond (qa_path_pattern inp) PathLike
     (push_cond (qa_uid inp) UidIs
     (push_cond (qa_operation inp) OperationIs
     (push_cond (qa_end_time inp) CreatedTo
     (push_cond (qa_start_time inp) CreatedFrom (2, []))))))"

definition bind_opt :: "('a \<Rightarrow> sql_param) \<Rightarrow> 'a option \<Rightarrow> sql_param list" where
  "bind_opt f v = (case v of None \<Rightarrow> [] | Some a \<Rightarrow> [f a])"

definition audit_binds :: "query_audit_logs_input \<Rightarrow> sql_param list" where
  "audit_binds inp =
     [PUuid (qa_tenant_id inp)] @ bind_opt PTime (qa_start_time inp) @ bind_opt PTime (qa_end_time inp) @
     bind_opt PText (qa_operation inp) @ bind_opt PInt (qa_uid inp) @ bind_opt PText (qa_path_pattern inp) @
     bind_opt PBool (qa_success inp) @ bind_opt PInt (qa_limit inp)"

text \<open>
  What the database makes of a condition: the value of placeholder \<open>$n\<close> is the \<open>n\<close>th value bound;
  there is none, or one of another type, when the statement is wrong.  \<open>LIKE\<close> is a parameter.
\<close>

definition sql_param_at :: "sql_param list \<Rightarrow> nat \<Rightarrow> sql_param option" where
  "sql_param_at ps n = (if 1 \<le> n \<and> n \<le> length ps then Some (ps ! (n - 1)) else None)"

fun cond_holds :: "(str \<Rightarrow> str \<Rightarrow> bool) \<Rightarrow> sql_param list \<Rightarrow> audit_log \<Rightarrow> audit_cond \<Rightarrow> bool option" where
  "cond_holds like ps l (CreatedFrom n) =
     (case sql_param_at ps n of Some (PTime t) \<Rightarrow> Some (t \<le> al_created_at l) | _ \<Rightarrow> None)"
| "cond_holds like ps l (CreatedTo n) =
     (case sql_param_at ps n of Some (PTime t) \<Rightarrow> Some (al_created_at l \<le> t) | _ \<Rightarrow> None)"
| "cond_holds like ps l (OperationIs n) =
     (case sql_param_at ps n of Some (PText s) \<Rightarrow> Some (ca_operation (al_input l) = s) | _ \<Rightarrow> None)"
| "cond_holds like ps l (UidIs n) =
     (case sql_param_at ps n of Some (PInt u) \<Rightarrow> Some (ca_uid (al_input l) = u) | _ \<Rightarrow> None)"
| "cond_holds like ps l (PathLike n) =
     (case sql_param_at ps n of Some (PText s) \<Rightarrow> Some (like (ca_path (al_input l)) s) | _ \<Rightarrow> None)"
| "cond_holds like ps l (SuccessIs n) =
     (case sql_param_at ps n of Some (PBool b) \<Rightarrow> Some (ca_success (al_input l) = b) | _ \<Rightarrow> None)"

definition newest_first :: "audit_log list \<Rightarrow> audit_log list" where
  "newest_first ls = rev (sort_key al_created_at ls)"

definition run_audit_query :: "(str \<Rightarrow> str \<Rightarrow> bool) \<Rightarrow> audit_cond list \<Rightarrow> nat option \<Rightarrow> sql_param list \<Rightarrow> audit_log list audit_op" where
  "run_audit_query like conds limit ps = (\<lambda>(a, d).
     case ps of
       PUuid t # _ \<Rightarrow>
         if length ps \<noteq> 1 + length conds + (if limit = None then 0 else 1) then (Inl (AuditDb BindMismatch), a, d)
         else if list_ex (\<lambda>l. list_ex (\<lambda>c. cond_holds like ps l c = None) conds) (at_logs a)
           then (Inl (AuditDb BindMismatch), a, d)
         else
           let rows = newest_first (filter (\<lambda>l. al_tenant_id l = t \<and>
                        list_all (\<lambda>c. cond_holds like ps l c = Some True) conds) (at_logs a))
           in (case limit of
                 None \<Rightarrow> (Inr rows, a, d)
               | Some n \<Rightarrow>
                   (case sql_param_at ps n of
                      Some (PInt k) \<Rightarrow> if k < 0 then (Inl NegativeLimit, a, d) else (Inr (take (nat k) rows), a, d)
                    | _ \<Rightarrow> (Inl (AuditDb BindMismatch), a, d)))
     | _ \<Rightarrow> (Inl (AuditDb BindMismatch), a, d))"

definition audit_query :: "(str \<Rightarrow> str \<Rightarrow> bool) \<Rightarrow> query_audit_logs_input \<Rightarrow> audit_log list audit_op" where
  "audit_query like inp =
     (let (param_count, conditions) = audit_conditions inp in
      run_audit_query like conditions (map_option (\<lambda>_. param_count) (qa_limit inp)) (audit_binds inp))"

section \<open>Statistics\<close>

definition i64_range :: "int \<Rightarrow> bool" where
  "i64_range n \<longleftrightarrow> - (2 ^ 63) \<le> n \<and> n < 2 ^ 63"

definition sum_known :: "(audit_log \<Rightarrow> int option) \<Rightarrow> audit_log list \<Rightarrow> int" where
  "sum_known f ls = sum_list (List.map_filter f ls)"

definition audit_aggregate_stats :: "uuid \<Rightarrow> timestamp \<Rightarrow> timestamp \<Rightarrow> audit_stats audit_op" where
  "audit_aggregate_stats t start until = (\<lambda>(a, d).
     let ls = filter (\<lambda>l. al_tenant_id l = t \<and> start \<le> al_created_at l \<and> al_created_at l \<le> until) (at_logs a);
         read = sum_known (\<lambda>l. ca_bytes_read (al_input l)) ls;
         written = sum_known (\<lambda>l. ca_bytes_written (al_input l)) ls;
         timed = List.map_filter (\<lambda>l. ca_duration_ms (al_input l)) ls
     in if \<not> i64_range read \<or> \<not> i64_range written then (Inl NumericOutOfRange, a, d)
        else (Inr \<lparr>as_total_operations = length ls,
                   as_successful_operations = length (filter (\<lambda>l. ca_success (al_input l)) ls),
                   as_failed_operations = length (filter (\<lambda>l. \<not> ca_success (al_input l)) ls),
                   as_total_bytes_read = read, as_total_bytes_written = written,
                   as_avg_duration_ms =
                     (if timed = [] then None else Some (of_int (sum_list timed) / of_nat (length timed)))\<rparr>, a, d))"

section \<open>Logs and inodes\<close>

text \<open>
  The foreign key of a log to its inode has \<open>ON DELETE SET NULL\<close>, which clears both its columns; but the
  tenant of a log must not be null.  So an inode that was logged cannot be deleted.
\<close>

definition inode_delete_audited :: "uuid \<Rightarrow> int \<Rightarrow> bool audit_op" where
  "inode_delete_audited t i = (\<lambda>(a, d).
     let gone = filter (\<lambda>r. r \<notin> set (d_inodes (delete_inode_rows t i d))) (d_inodes d) in
     if list_ex (\<lambda>r. exists_row (\<lambda>l. al_tenant_id l = ino_tenant_id r \<and> al_inode_id l = Some (ino_id r)) (at_logs a)) gone
     then (Inl NotNullViolation, a, d)
     else case inode_delete t i d of (r, d') \<Rightarrow> (map_sum AuditDb id r, a, d'))"

section \<open>Lemmas\<close>

lemma audit_now_apply [simp]: "audit_now (a, d) = (Inr (d_clock d), a, d\<lparr>d_clock := Suc (d_clock d)\<rparr>)"
  by (simp add: audit_now_def)

definition criterion :: "('a \<Rightarrow> bool) \<Rightarrow> 'a option \<Rightarrow> bool" where
  "criterion P v \<longleftrightarrow> (case v of None \<Rightarrow> True | Some a \<Rightarrow> P a)"

text \<open>Which logs a query asks for.\<close>

definition audit_matches :: "(str \<Rightarrow> str \<Rightarrow> bool) \<Rightarrow> query_audit_logs_input \<Rightarrow> audit_log \<Rightarrow> bool" where
  "audit_matches like inp l \<longleftrightarrow>
     al_tenant_id l = qa_tenant_id inp \<and>
     criterion (\<lambda>t. t \<le> al_created_at l) (qa_start_time inp) \<and> criterion (\<lambda>t. al_created_at l \<le> t) (qa_end_time inp) \<and>
     criterion (\<lambda>s. ca_operation (al_input l) = s) (qa_operation inp) \<and>
     criterion (\<lambda>u. ca_uid (al_input l) = u) (qa_uid inp) \<and>
     criterion (\<lambda>p. like (ca_path (al_input l)) p) (qa_path_pattern inp) \<and>
     criterion (\<lambda>b. ca_success (al_input l) = b) (qa_success inp)"

text \<open>
  The two passes in step: after each criterion the next placeholder is the number of values bound plus one,
  and each condition so far holds of a log just when the criterion does, whatever is bound later.
\<close>

definition passes_ok :: "(str \<Rightarrow> str \<Rightarrow> bool) \<Rightarrow> (audit_log \<Rightarrow> bool) \<Rightarrow> nat \<times> audit_cond list \<Rightarrow> sql_param list \<Rightarrow> bool" where
  "passes_ok like P s ps \<longleftrightarrow>
     fst s = length ps + 1 \<and> length ps = 1 + length (snd s) \<and>
     (\<forall>l qs. (\<forall>c \<in> set (snd s). cond_holds like (ps @ qs) l c \<noteq> None) \<and>
             ((\<forall>c \<in> set (snd s). cond_holds like (ps @ qs) l c = Some True) \<longleftrightarrow> P l))"

lemma passes_start: "passes_ok like (\<lambda>_. True) (2, []) [PUuid t]"
  by (simp add: passes_ok_def)

lemma sql_param_last [simp]: "sql_param_at (ps @ p # qs) (Suc (length ps)) = Some p"
  by (simp add: sql_param_at_def nth_append)

lemma passes_push:
  assumes "passes_ok like P s ps"
    and "\<And>l a xs n. sql_param_at xs n = Some (f a) \<Longrightarrow> cond_holds like xs l (cond n) = Some (Q l a)"
  shows "passes_ok like (\<lambda>l. P l \<and> criterion (Q l) v) (push_cond v cond s) (ps @ bind_opt f v)"
proof (cases v)
  case None
  then show ?thesis using assms(1) by (simp add: push_cond_def bind_opt_def criterion_def case_prod_beta)
next
  case (Some a)
  obtain n cs where s: "s = (n, cs)" by force
  with assms(1) have n: "n = length ps + 1" by (simp add: passes_ok_def)
  have old: "(\<forall>c \<in> set cs. cond_holds like (ps @ f a # qs) l c \<noteq> None) \<and>
      ((\<forall>c \<in> set cs. cond_holds like (ps @ f a # qs) l c = Some True) \<longleftrightarrow> P l)" for l qs
    using assms(1) by (simp add: passes_ok_def s)
  have new: "cond_holds like (ps @ f a # qs) l (cond (Suc (length ps))) = Some (Q l a)" for l qs
    by (rule assms(2)) simp
  show ?thesis
    using assms(1) old new
    by (simp add: passes_ok_def s n Some push_cond_def bind_opt_def criterion_def) blast
qed

lemma passes_query:
  "passes_ok like (\<lambda>l. (((((True \<and> criterion (\<lambda>t. t \<le> al_created_at l) (qa_start_time inp)) \<and>
       criterion (\<lambda>t. al_created_at l \<le> t) (qa_end_time inp)) \<and>
       criterion (\<lambda>s. ca_operation (al_input l) = s) (qa_operation inp)) \<and>
       criterion (\<lambda>u. ca_uid (al_input l) = u) (qa_uid inp)) \<and>
       criterion (\<lambda>p. like (ca_path (al_input l)) p) (qa_path_pattern inp)) \<and>
       criterion (\<lambda>b. ca_success (al_input l) = b) (qa_success inp))
     (audit_conditions inp)
     (((((([PUuid (qa_tenant_id inp)] @ bind_opt PTime (qa_start_time inp)) @ bind_opt PTime (qa_end_time inp)) @
     bind_opt PText (qa_operation inp)) @ bind_opt PInt (qa_uid inp)) @ bind_opt PText (qa_path_pattern inp)) @
     bind_opt PBool (qa_success inp))"
  unfolding audit_conditions_def by (intro passes_push passes_start) simp_all

lemma audit_query_exact_core:
  "audit_query like inp (a, d) =
     (let rows = newest_first (filter (audit_matches like inp) (at_logs a)) in
      case qa_limit inp of
        None \<Rightarrow> (Inr rows, a, d)
      | Some k \<Rightarrow> if k < 0 then (Inl NegativeLimit, a, d) else (Inr (take (nat k) rows), a, d))"
proof -
  obtain n cs where cs: "audit_conditions inp = (n, cs)" by force
  define ps where "ps = [PUuid (qa_tenant_id inp)] @ bind_opt PTime (qa_start_time inp) @ bind_opt PTime (qa_end_time inp) @
     bind_opt PText (qa_operation inp) @ bind_opt PInt (qa_uid inp) @ bind_opt PText (qa_path_pattern inp) @
     bind_opt PBool (qa_success inp)"
  have binds: "audit_binds inp = ps @ bind_opt PInt (qa_limit inp)" by (simp add: audit_binds_def ps_def)
  obtain ps' where ps: "ps = PUuid (qa_tenant_id inp) # ps'" by (simp add: ps_def)
  note ok = passes_query [of like inp, unfolded append_assoc, folded ps_def, unfolded passes_ok_def cs fst_conv snd_conv]
  then have n: "n = Suc (length ps)" "length ps = 1 + length cs" by simp_all
  have holds: "cond_holds like (ps @ qs) l c \<noteq> None" if "c \<in> set cs" for l qs c using ok that by blast
  have filters: "(al_tenant_id l = qa_tenant_id inp \<and> list_all (\<lambda>c. cond_holds like (ps @ qs) l c = Some True) cs)
      = audit_matches like inp l" for l qs
    using ok by (auto simp: list_all_iff audit_matches_def)
  show ?thesis
  proof (cases "qa_limit inp")
    case None
    have "list_ex (\<lambda>l. list_ex (\<lambda>c. cond_holds like ps l c = None) cs) (at_logs a) = False"
      using holds [of _ "[]"] by (auto simp: list_ex_iff)
    with None filters [of _ "[]"] n(2) show ?thesis
      by (simp add: audit_query_def cs binds bind_opt_def run_audit_query_def ps Let_def)
  next
    case (Some k)
    have "list_ex (\<lambda>l. list_ex (\<lambda>c. cond_holds like (ps @ [PInt k]) l c = None) cs) (at_logs a) = False"
      using holds [of _ "[PInt k]"] by (auto simp: list_ex_iff)
    with Some filters [of _ "[PInt k]"] n sql_param_last [of ps "PInt k" "[]"] show ?thesis
      by (simp add: audit_query_def cs binds bind_opt_def run_audit_query_def ps Let_def)
  qed
qed

text \<open>
  C37.  A query of the audit log returns exactly the logs of the tenant that satisfy every criterion given, newest first
  and at most as many as the limit says: the placeholders numbered in the first pass meet the
  values bound in the second, for every combination of criteria.  A negative limit is refused.
\<close>

theorem audit_query_exact:
  "audit_query like inp (a, d) =
     (let rows = newest_first (filter (audit_matches like inp) (at_logs a)) in
      case qa_limit inp of
        None \<Rightarrow> (Inr rows, a, d)
      | Some k \<Rightarrow> if k < 0 then (Inl NegativeLimit, a, d) else (Inr (take (nat k) rows), a, d))"
  by (rule audit_query_exact_core)

section \<open>Insertion in batches\<close>

text \<open>The numbers of the logs are below the sequence, so a number drawn is new.\<close>

definition audit_ok :: "audit_table \<Rightarrow> bool" where
  "audit_ok a \<longleftrightarrow> list_all (\<lambda>l. al_log_id l < at_seq a) (at_logs a) \<and>
     distinct (map (\<lambda>l. (al_tenant_id l, al_log_id l, al_log_date l)) (at_logs a))"

text \<open>What the table demands of an input beyond that.\<close>

definition audit_accepts :: "audit_table \<Rightarrow> db \<Rightarrow> nat \<Rightarrow> create_audit_log_input \<Rightarrow> bool" where
  "audit_accepts a d log_date inp \<longleftrightarrow>
     varchar 50 (ca_operation inp) \<and> list_ex (\<lambda>(first, after). first \<le> log_date \<and> log_date < after) (at_partitions a) \<and>
     exists_row (\<lambda>r. tn_id r = ca_tenant_id inp) (d_tenants d) \<and>
     criterion (\<lambda>i. exists_row (\<lambda>r. inode_key r = (ca_tenant_id inp, i)) (d_inodes d)) (ca_inode_id inp)"

lemma audit_log_error_None:
  assumes "audit_ok a"
  shows "audit_log_error a d log_date inp = None \<longleftrightarrow> audit_accepts a d log_date inp"
proof -
  have "\<not> exists_row (\<lambda>l. al_tenant_id l = ca_tenant_id inp \<and> al_log_id l = at_seq a \<and> al_log_date l = log_date) (at_logs a)"
    using assms by (auto simp: audit_ok_def list_all_iff)
  then show ?thesis
    by (simp add: audit_log_error_def audit_accepts_def criterion_def del: exists_row_iff split: option.split)
qed

lemma audit_insert_cases:
  assumes "audit_ok a"
  obtains (stored) row where "audit_accepts a d log_date inp"
      and "row = \<lparr>al_log_id = at_seq a, al_input = inp, al_created_at = created, al_log_date = log_date\<rparr>"
      and "audit_insert created log_date inp (a, d) = (Inr row, a\<lparr>at_seq := at_seq a + 1, at_logs := at_logs a @ [row]\<rparr>, d)"
      and "audit_ok (a\<lparr>at_seq := at_seq a + 1, at_logs := at_logs a @ [row]\<rparr>)"
  | (refused) e where "\<not> audit_accepts a d log_date inp"
      and "audit_insert created log_date inp (a, d) = (Inl (AuditDb e), a\<lparr>at_seq := at_seq a + 1\<rparr>, d)"
proof (cases "audit_log_error a d log_date inp")
  case None
  then have "audit_accepts a d log_date inp" using audit_log_error_None [OF assms] by simp
  with None show ?thesis
    using assms by (intro stored) (auto simp: audit_insert_def audit_ok_def list_all_iff Let_def)
next
  case (Some e)
  then have "\<not> audit_accepts a d log_date inp" using audit_log_error_None [OF assms, of d log_date inp] by simp
  with Some show ?thesis by (intro refused) (simp_all add: audit_insert_def Let_def)
qed

lemma audit_accepts_later [simp]:
  "audit_accepts (a\<lparr>at_seq := s, at_logs := ls\<rparr>) d log_date = audit_accepts a d log_date"
  by (simp add: audit_accepts_def fun_eq_iff)

lemma audit_accepts_clock [simp]: "audit_accepts a (d\<lparr>d_clock := k\<rparr>) log_date = audit_accepts a d log_date"
  by (simp add: audit_accepts_def fun_eq_iff)

lemma audit_ok_seq: "audit_ok a \<Longrightarrow> at_seq a \<le> s \<Longrightarrow> audit_ok (a\<lparr>at_seq := s\<rparr>)"
  by (fastforce simp: audit_ok_def list_all_iff)

text \<open>The rows that a batch stores.\<close>

fun audit_rows :: "timestamp \<Rightarrow> nat \<Rightarrow> int \<Rightarrow> create_audit_log_input list \<Rightarrow> audit_log list" where
  "audit_rows created log_date s [] = []"
| "audit_rows created log_date s (inp # inps) =
     \<lparr>al_log_id = s, al_input = inp, al_created_at = created, al_log_date = log_date\<rparr> # audit_rows created log_date (s + 1) inps"

lemma audit_insert_each_outcome:
  assumes "audit_ok a"
  shows "if list_all (audit_accepts a d log_date) inps
    then audit_insert_each created log_date inps k (a, d) =
      (Inr (k + length inps), a\<lparr>at_seq := at_seq a + int (length inps),
         at_logs := at_logs a @ audit_rows created log_date (at_seq a) inps\<rparr>, d) \<and>
      audit_ok (a\<lparr>at_seq := at_seq a + int (length inps),
         at_logs := at_logs a @ audit_rows created log_date (at_seq a) inps\<rparr>)
    else \<exists>e a'. audit_insert_each created log_date inps k (a, d) = (Inl (AuditDb e), a', d) \<and> at_seq a \<le> at_seq a'"
  using assms
proof (induction inps arbitrary: a k)
  case (Cons inp inps)
  show ?case
    using Cons.prems
  proof (cases rule: audit_insert_cases [where d = d and log_date = log_date and inp = inp and created = created])
    case (stored row)
    from Cons.IH [OF stored(4), of "k + 1"] stored(1) show ?thesis
      by (auto simp: bindE_def stored(2,3) algebra_simps split: if_splits)
  next
    case (refused e)
    then show ?thesis by (simp add: bindE_def)
  qed
qed simp

text \<open>
  C38.  A batch of audit logs is all or nothing.  If the table accepts every input on the day of the batch, all
  are stored in order, with one time and consecutive numbers; otherwise no log is stored
  and the other tables keep their rows.  In either case the numbers stay unique.  (With the partitions of the
  migration no day from April 2026 on is accepted: lemma \<open>no_partition\<close>.)
\<close>

theorem audit_batch_all_or_nothing:
  assumes "audit_ok a" and "inputs \<noteq> []"
  shows "let d' = d\<lparr>d_clock := d_clock d + 2\<rparr>; log_date = day_of (d_clock d + 1) in
    if list_all (audit_accepts a d log_date) inputs
    then audit_batch_create inputs (a, d) = (Inr (length inputs), a\<lparr>at_seq := at_seq a + int (length inputs),
         at_logs := at_logs a @ audit_rows (d_clock d) log_date (at_seq a) inputs\<rparr>, d') \<and>
      audit_ok (fst (snd (audit_batch_create inputs (a, d))))
    else \<exists>e s. audit_batch_create inputs (a, d) = (Inl (AuditDb e), a\<lparr>at_seq := s\<rparr>, d') \<and> audit_ok (a\<lparr>at_seq := s\<rparr>)"
proof -
  let ?d = "d\<lparr>d_clock := d_clock d + 2\<rparr>"
  let ?day = "day_of (d_clock d + 1)"
  note each = audit_insert_each_outcome [OF assms(1), of ?d ?day inputs "d_clock d" 0]
  show ?thesis
  proof (cases "list_all (audit_accepts a d ?day) inputs")
    case True
    with each assms(2) show ?thesis by (simp add: audit_batch_create_def audit_transaction_def bindE_def)
  next
    case False
    with each obtain e a' where e: "audit_insert_each (d_clock d) ?day inputs 0 (a, ?d) = (Inl (AuditDb e), a', ?d)"
        "at_seq a \<le> at_seq a'" by auto
    then have "audit_batch_create inputs (a, d) = (Inl (AuditDb e), a\<lparr>at_seq := at_seq a'\<rparr>, ?d)"
      using assms(2) by (simp add: audit_batch_create_def audit_transaction_def bindE_def)
    with False audit_ok_seq [OF assms(1) e(2)] show ?thesis by (auto simp: Let_def)
  qed
qed

definition example_log :: create_audit_log_input where
  "example_log = \<lparr>ca_tenant_id = 0, ca_inode_id = None, ca_operation = ''mkdir'', ca_uid = 0, ca_gid = 0, ca_pid = None,
     ca_path = ''/a'', ca_success = True, ca_error_code = None, ca_error_message = None, ca_bytes_read = None,
     ca_bytes_written = None, ca_duration_ms = Some 3, ca_text_changes = None, ca_is_native_mount = False,
     ca_native_source_path = None, ca_metadata = None\<rparr>"

theorem audit_batch_all_or_nothing_witness:
  "\<exists>a' d'. audit_batch_create [example_log, example_log] (new_audit_table, example_db\<lparr>d_clock := 1767225600000000000\<rparr>) =
     (Inr 2, a', d') \<and> map al_log_id (at_logs a') = [1, 2]"
proof -
  have "audit_ok new_audit_table" by (simp add: audit_ok_def new_audit_table_def)
  moreover have "audit_accepts new_audit_table example_db (day_of 1767225600000000001) example_log"
    by (simp add: audit_accepts_def new_audit_table_def day_of_def example_log_def varchar_short criterion_def example_db_eq)
  ultimately show ?thesis
    using audit_batch_all_or_nothing [of new_audit_table "[example_log, example_log]"
      "example_db\<lparr>d_clock := 1767225600000000000\<rparr>"]
    by (simp add: Let_def) (simp add: new_audit_table_def)
qed

lemma no_partition: "20544 \<le> log_date \<Longrightarrow> \<not> audit_accepts new_audit_table d log_date inp"
  by (simp add: audit_accepts_def new_audit_table_def)

section \<open>Statistics and deletions\<close>

text \<open>The totals are those of the query for the same period.\<close>

lemma audit_stats_of_query:
  assumes "audit_aggregate_stats t start until (a, d) = (Inr st, s)"
    and "audit_query like \<lparr>qa_tenant_id = t, qa_start_time = Some start, qa_end_time = Some until, qa_operation = None,
      qa_uid = None, qa_path_pattern = None, qa_success = None, qa_limit = None\<rparr> (a, d) = (Inr logs, s')"
  shows "as_total_operations st = length logs \<and>
    as_total_operations st = as_successful_operations st + as_failed_operations st"
proof -
  let ?ls = "filter (\<lambda>l. al_tenant_id l = t \<and> start \<le> al_created_at l \<and> al_created_at l \<le> until) (at_logs a)"
  have "logs = newest_first ?ls"
    using assms(2) unfolding audit_query_exact_core by (simp add: audit_matches_def [abs_def] criterion_def Let_def)
  moreover have "as_total_operations st = length ?ls"
      "as_successful_operations st = length (filter (\<lambda>l. ca_success (al_input l)) ?ls)"
      "as_failed_operations st = length (filter (\<lambda>l. \<not> ca_success (al_input l)) ?ls)"
    using assms(1) by (auto simp: audit_aggregate_stats_def Let_def simp del: filter_filter split: if_splits)
  moreover have "length (filter P ?ls) + length (filter (\<lambda>l. \<not> P l) ?ls) = length ?ls" for P
    by (rule sum_length_filter_compl)
  ultimately show ?thesis by (simp add: newest_first_def del: filter_filter)
qed

text \<open>An inode without children that was logged stays.\<close>

lemma logged_inode_stays:
  assumes "l \<in> set (at_logs a)" and "r \<in> set (d_inodes d)"
    and "al_tenant_id l = ino_tenant_id r" and "al_inode_id l = Some (ino_id r)"
    and "r \<notin> set (d_inodes (delete_inode_rows t i d))"
  shows "inode_delete_audited t i (a, d) = (Inl NotNullViolation, a, d)"
  using assms by (auto simp: inode_delete_audited_def list_ex_iff Let_def)

end
