(* ===== verification/Spec2Isabelle.thy ===== *)
theory Spec2Isabelle
  imports UnionView Interfaces TreeTypes AuditLogs
begin

text \<open>
  Tarbox: a layered file system kept in a PostgreSQL database.

  A tenant owns a tree of inodes.  File contents are stored as binary blocks or, when a file is
  detected as text, as lines that are shared by content.  Every change is recorded in the current
  layer of the tenant; layers form chains, a checkpoint puts a new layer on top, and the merged view
  of a chain shows which version of a path is in force.  Parts of a tree can be mounted from
  elsewhere and published to other tenants.  Programs reach all this through a FUSE mount (with
  control files under \<open>/.tarbox\<close>), through a WASI adapter, or through the library itself; a
  container orchestrator through a volume driver that makes a tenant of every volume; people
  through the command line.

  \<^bold>\<open>State.\<close>  All state that outlives a call is in the database, so the model is one record \<open>db\<close>
  (theory \<open>Database\<close>) with a list of rows per table, and an operation of a repository is a function
  from \<open>db\<close> to a result (an error or a value) and the next \<open>db\<close>: the type \<open>op\<close> of \<open>Prelude\<close>, with
  \<open>bindE\<close> for the operator \<open>?\<close>.  A failed operation keeps what it did before it failed unless the
  code runs it in a transaction (\<open>transaction\<close>).  The WASI adapter adds its descriptor table, the FUSE adapter
  its map of inode numbers, the volume driver its table of active mounts, the command line the
  text it prints.  A call that panics ends with \<open>Panic\<close> (theory \<open>Machine\<close>).
\<close>

section \<open>Theories and sources\<close>

text \<open>
  \<^item> \<open>Prelude\<close>, \<open>RustText\<close>, \<open>Machine\<close>: results, loops, tables as lists of rows and the locale
    \<open>keyed_table\<close>; the text functions of Rust (UTF-8, lines, formatting); machine words, overflow
    in both build profiles, parsing of numbers.
  \<^item> \<open>Models\<close>: \<open>storage/models.rs\<close>, \<open>storage/models/*.rs\<close>, \<open>fs/error.rs\<close>.
  \<^item> \<open>Database\<close>: the tables of \<open>migrations/*.sql\<close> with keys, cascades and the two counting triggers.
  \<^item> \<open>Inodes\<close>: \<open>storage/tenant.rs\<close>, \<open>storage/inode.rs\<close>, \<open>storage/block.rs\<close>; \<open>LayerRepo\<close>:
    \<open>storage/layer.rs\<close>; \<open>TextBlocks\<close>: \<open>storage/text.rs\<close>; \<open>TenantDelete\<close>: deletion in \<open>storage/tenant.rs\<close>;
    \<open>AuditLogs\<close>: \<open>storage/audit.rs\<close>, whose table has a state of its own beside \<open>db\<close>, as no other code uses it.
  \<^item> \<open>Paths\<close>: \<open>fs/path.rs\<close>; \<open>Detection\<close>: \<open>layer/detection.rs\<close>; \<open>Cow\<close>: \<open>layer/cow.rs\<close>;
    \<open>Manager\<close>: \<open>layer/manager.rs\<close>; \<open>FileSystem\<close>, \<open>FileContent\<close>: \<open>fs/operations.rs\<close>;
    \<open>UnionView\<close>: \<open>layer/union_view.rs\<close>.
  \<^item> \<open>Resolver\<close>, \<open>LayerChains\<close>: \<open>composition/resolver.rs\<close>, \<open>composition/layer_chain.rs\<close>; \<open>Mounts\<close>:
    \<open>storage/mount_entry.rs\<close>; \<open>Publish\<close>: \<open>storage/published_mount.rs\<close>, \<open>composition/publisher.rs\<close>.
  \<^item> \<open>FdTable\<close>, \<open>WasiAdapter\<close>: \<open>wasi/fd_table.rs\<close>, \<open>wasi/error.rs\<close>, \<open>wasi/adapter.rs\<close>, \<open>wasi/config.rs\<close>.
  \<^item> \<open>Hooks\<close>: \<open>layer/hooks.rs\<close>; \<open>Backend\<close>: \<open>fuse/interface.rs\<close>, \<open>fuse/backend.rs\<close>; \<open>FuseAdapter\<close>:
    \<open>fuse/adapter.rs\<close>.
  \<^item> \<open>Volumes\<close>: \<open>csi/tenant_mapping.rs\<close>, \<open>csi/snapshot.rs\<close>; \<open>Csi\<close>: \<open>csi/controller.rs\<close>,
    \<open>csi/mount_manager.rs\<close>, \<open>csi/node.rs\<close>, \<open>csi/identity.rs\<close>; \<open>Cli\<close>: \<open>main.rs\<close>, \<open>fuse/mount.rs\<close>.
  \<^item> \<open>Fresh\<close>, \<open>MountFrame\<close>, \<open>SystemSteps\<close>, \<open>TreeTypes\<close>, \<open>Clients\<close>, \<open>Interfaces\<close>: invariants and the
    composition of the parts (no code of their own).

  A definition has the name of the function it models, with a prefix for its struct: \<open>lm_\<close> for
  \<open>LayerManager\<close>, \<open>fs_\<close> for \<open>FileSystem\<close>, \<open>cow_\<close>, \<open>layer_\<close>, \<open>text_\<close>, \<open>mount_\<close>, \<open>publish_\<close> and so on for the
  repositories and handlers, \<open>wasi_\<close>, \<open>backend_\<close>, \<open>fuse_\<close>, \<open>csi_\<close>,
  \<open>mm_\<close> (the mount manager) and \<open>node_\<close> for the interfaces.
\<close>

section \<open>What the lemmas show\<close>

text \<open>
  \<^item> Files: what is written is read back, as bytes or as a text with normalised line ends
    (\<open>FileContent\<close>); creation, deletion, directories and attributes are updates of a map from
    paths to inodes, with each refusal (\<open>FileSystem\<close>); normalisation and splitting of paths, and the
    statistics and verdicts of the detector, are exact.
  \<^item> Layers: checkpoints, switches and deletions do what the manager documents, and where they do
    not the failure is stated; the recursive query ends; future layers are the descendants
    (\<open>Manager\<close>).  The merged view is the overlay of the layers (\<open>UnionView\<close>).
  \<^item> Composition: which mount serves a path, independently of their order (\<open>Resolver\<close>); replacing
    the mounts is all or nothing (\<open>Mounts\<close>); exactly who can resolve a publication (\<open>Publish\<close>);
    snapshots of single mounts (\<open>LayerChains\<close>).
  \<^item> Audit log: a query built at run time returns exactly the logs asked for, and a batch is stored
    as a whole or not at all (\<open>AuditLogs\<close>).
  \<^item> Interfaces: descriptors are not reused and seeks are exact (\<open>FdTable\<close>); data written through
    one descriptor arrives through another in finitely many reads (\<open>WasiAdapter\<close>); hook paths are kept
    apart from files, and writing one takes a checkpoint (\<open>Backend\<close>, \<open>Hooks\<close>); inode numbers
    stay valid (\<open>FuseAdapter\<close>).
  \<^item> Tenants and volumes: deletion of a tenant removes what belongs to it and nothing else, or is
    refused (\<open>TenantDelete\<close>); when names of volumes can be told apart, and that a provisioned volume
    cannot be used (\<open>Volumes\<close>); that the driver never serves a node and a staged volume
    is not mounted (\<open>Cli\<close>).
  \<^item> The whole: \<open>SystemSteps\<close> defines a transition system with one step per operation; its reachable
    states satisfy the constraints of the schema, the shape of the layer graph, freshness of
    identifiers, separation of mounts, and a well-typed tree (\<open>TreeTypes\<close>); and all
    interfaces, interleaved, refine it (\<open>Interfaces\<close>).

  Interfaces between parts are locales: \<open>keyed_table\<close> (tables with a primary key),
  \<open>content_store\<close> and \<open>total_content_store\<close> (blocks addressed by content), \<open>descriptor_store\<close> (the
  descriptor table) and \<open>filesystem_interface\<close> (the trait between the FUSE adapter and its backend), each
  interpreted on the definitions that provide it.
\<close>

section \<open>Bounds\<close>

text \<open>
  \<^item> \<open>layer_chain_from\<close> has fuel \<open>length layers + 1\<close>: parents are older, so a chain visits a layer at
    most once (lemma \<open>layer_chain_ends\<close>).
  \<^item> \<open>subtree_ids\<close> has fuel \<open>length inodes\<close>: parents are older, so each generation has fewer rows above it
    (lemma \<open>subtree_closed\<close> shows that no descendant is missed).
  \<^item> A file of \<open>n\<close> bytes is delivered in at most \<open>n + 1\<close> reads (theory \<open>WasiAdapter\<close>).
  \<^item> Columns of type \<open>INTEGER\<close> and \<open>BIGINT\<close> are \<open>int\<close>, with the casts of the code (\<open>as_i32\<close>, \<open>as_i64\<close>) written
    out; descriptors, offsets and attributes of the interfaces are words.  Inode numbers of the FUSE
    adapter are \<open>nat\<close>, exact below \<open>2 ^ 64\<close> distinct paths.
\<close>

section \<open>Parameters\<close>

text \<open>
  Code outside the repository is a field of the record \<open>ext\<close>: BLAKE3, \<open>DefaultHasher\<close>, the line diff
  of the crate \<open>similar\<close>, the collation of the database, the text forms of identifiers, times and
  errors, the JSON parser and printer, and whether the driver decodes a \<open>TIMESTAMP\<close> column as
  the code asks.  Random identifiers are a stream \<open>d_entropy\<close>; theorems that need it assume the
  stream injective.  What a theorem assumes of \<open>ext\<close> (no collision among the texts at hand, a parser
  that inverts its printer) is a hypothesis of that theorem.  The argument \<open>checks\<close> says whether
  the program was built with overflow checks.
\<close>

section \<open>Not modelled\<close>

text \<open>
  \<^item> One call of an operation is one step.  Interleavings inside a call (two transactions at once, the
    two locks of a WASI call) are not modelled.
  \<^item> The gRPC server of the volume driver and its metrics (set-up of libraries, counters nothing
    updates), the session thread of the FUSE mount, the parsing of the command line, logging, configuration
    files and the connection pool: parsing by libraries, input and output.
  \<^item> Views and SQL functions of the migrations that no code calls (among them those for the partitions of
    the audit log).
\<close>

end
